(* ===== verification/Prelude.thy ===== *)
theory Prelude
  imports Main "HOL-Library.Word" "HOL-Library.AList"
begin

text \<open>
  What every component shares: the machine integers and their byte encodings, results, the
  sending half of a message stream, and the interface of an event loop with an invariant.
\<close>

named_theorems act_simps \<open>evaluation of results, sends and receives\<close>

section \<open>Machine integers and bytes\<close>

type_synonym u8 = "8 word"
type_synonym u16 = "16 word"
type_synonym u32 = "32 word"
type_synonym u64 = "64 word"
type_synonym byte = u8

definition str_bytes :: "string \<Rightarrow> byte list" where
  "str_bytes s = map of_char s"

lemma of_char_byte: "(of_char c :: byte) = word_of_nat (of_char c)"
  by (cases c) (simp add: of_char_def horner_sum_simps)

lemma of_char_byte_inject [simp]: "(of_char c :: byte) = of_char d \<longleftrightarrow> c = d"
proof
  assume "(of_char c :: byte) = of_char d"
  then have "unat (word_of_nat (of_char c) :: byte) = unat (word_of_nat (of_char d) :: byte)"
    by (simp only: of_char_byte)
  then have "(of_char c :: nat) = of_char d"
    by (simp add: unat_of_nat take_bit_nat_def)
  then show "c = d" by simp
qed simp

lemma inj_of_char_byte: "inj (of_char :: char \<Rightarrow> byte)"
  by (simp add: inj_on_def)

lemma str_bytes_inject [simp]: "str_bytes s = str_bytes t \<longleftrightarrow> s = t"
  by (simp add: str_bytes_def inj_map_eq_map [OF inj_of_char_byte])

lemma length_str_bytes [simp]: "length (str_bytes s) = length s"
  by (simp add: str_bytes_def)

text \<open>Little-endian encodings (\<open>to_le_bytes\<close>, \<open>from_le_bytes\<close>).\<close>

definition u16_to_le_bytes :: "u16 \<Rightarrow> byte list" where
  "u16_to_le_bytes w = [ucast w, ucast (drop_bit 8 w)]"

definition u32_to_le_bytes :: "u32 \<Rightarrow> byte list" where
  "u32_to_le_bytes w =
     [ucast w, ucast (drop_bit 8 w), ucast (drop_bit 16 w), ucast (drop_bit 24 w)]"

fun le_bytes_value :: "byte list \<Rightarrow> nat" where
  "le_bytes_value [] = 0"
| "le_bytes_value (b # bs) = unat b + 256 * le_bytes_value bs"

definition u32_from_le_bytes :: "byte list \<Rightarrow> u32" where
  "u32_from_le_bytes bs = word_of_nat (le_bytes_value bs)"

lemma unat_ucast_byte: "unat (ucast (w :: 'a::len word) :: byte) = unat w mod 256"
  by (simp add: unsigned_ucast_eq take_bit_nat_def)

lemma le_bytes_value_u32: "le_bytes_value (u32_to_le_bytes w) = unat w"
proof -
  define n where "n = unat w"
  have "unat w < 2 ^ LENGTH(32)" by (rule unsigned_less)
  then have n: "n < 4294967296" by (simp add: n_def)
  have "le_bytes_value (u32_to_le_bytes w) =
      n mod 256 + 256 * (n div 256 mod 256) + 65536 * (n div 65536 mod 256)
      + 16777216 * (n div 16777216 mod 256)"
    by (simp add: u32_to_le_bytes_def unat_ucast_byte n_def unsigned_drop_bit_eq drop_bit_eq_div
        unat_div_distrib)
  also have "\<dots> = n"
  proof -
    define q1 where "q1 = n div 256"
    define q2 where "q2 = q1 div 256"
    define q3 where "q3 = q2 div 256"
    have "q3 < 256" using n by (simp add: q1_def q2_def q3_def flip: div_mult2_eq)
    then have q: "n div 65536 = q2" "n div 16777216 = q3" "q3 mod 256 = q3"
      by (simp_all add: q1_def q2_def q3_def flip: div_mult2_eq)
    have "n = 256 * q1 + n mod 256" "q1 = 256 * q2 + q1 mod 256" "q2 = 256 * q3 + q2 mod 256"
      unfolding q1_def q2_def q3_def by (rule mult_div_mod_eq [symmetric])+
    then show ?thesis unfolding q q1_def [symmetric] by simp
  qed
  finally show ?thesis by (simp add: n_def)
qed

lemma u32_le_bytes_inverse [simp]: "u32_from_le_bytes (u32_to_le_bytes w) = w"
  by (simp add: u32_from_le_bytes_def le_bytes_value_u32)

lemma length_u32_to_le_bytes [simp]: "length (u32_to_le_bytes w) = 4"
  by (simp add: u32_to_le_bytes_def)

lemma length_u16_to_le_bytes [simp]: "length (u16_to_le_bytes w) = 2"
  by (simp add: u16_to_le_bytes_def)

lemma le_bytes_value_u16: "le_bytes_value (u16_to_le_bytes w) = unat w"
proof -
  define n where "n = unat w"
  have "unat w < 2 ^ LENGTH(16)" by (rule unsigned_less)
  then have n: "n < 65536" by (simp add: n_def)
  have "le_bytes_value (u16_to_le_bytes w) = n mod 256 + 256 * (n div 256 mod 256)"
    by (simp add: u16_to_le_bytes_def unat_ucast_byte n_def unsigned_drop_bit_eq drop_bit_eq_div
        unat_div_distrib)
  also have "\<dots> = n" using n div_mult_mod_eq [of n 256] by simp
  finally show ?thesis by (simp add: n_def)
qed

lemma u16_to_le_bytes_inject [simp]: "u16_to_le_bytes v = u16_to_le_bytes w \<longleftrightarrow> v = w"
  by (metis le_bytes_value_u16 unsigned_word_eqI)

section \<open>Results\<close>

text \<open>
  A fallible operation returns a sum: \<open>Inl\<close> is the error of Rust's \<open>Result\<close>, \<open>Inr\<close> its value.
  \<open>res_bind\<close> is the question-mark operator.
\<close>

definition res_bind :: "'e + 'a \<Rightarrow> ('a \<Rightarrow> 'e + 'b) \<Rightarrow> 'e + 'b" where
  "res_bind r f = (case r of Inl e \<Rightarrow> Inl e | Inr a \<Rightarrow> f a)"

definition ok_or :: "'e \<Rightarrow> 'a option \<Rightarrow> 'e + 'a" where
  "ok_or e x = (case x of None \<Rightarrow> Inl e | Some a \<Rightarrow> Inr a)"

fun is_ok :: "'e + 'a \<Rightarrow> bool" where
  "is_ok (Inl e) = False"
| "is_ok (Inr a) = True"

lemma res_bind_simps [simp, act_simps]:
  "res_bind (Inl e) f = Inl e"
  "res_bind (Inr a) f = f a"
  by (simp_all add: res_bind_def)

lemma res_bind_Inr_iff: "res_bind r f = Inr b \<longleftrightarrow> (\<exists>a. r = Inr a \<and> f a = Inr b)"
  by (cases r) auto

lemma res_bind_Inl_iff: "res_bind r f = Inl e \<longleftrightarrow> r = Inl e \<or> (\<exists>a. r = Inr a \<and> f a = Inl e)"
  by (cases r) auto

lemma ok_or_simps [simp, act_simps]:
  "ok_or e None = Inl e"
  "ok_or e (Some a) = Inr a"
  by (simp_all add: ok_or_def)

lemma ok_or_Inr_iff [simp]: "ok_or e x = Inr a \<longleftrightarrow> x = Some a"
  by (cases x) auto

text \<open>\<open>iter().map(f).collect::<Result<Vec<_>>>()\<close>: stops at the first error.\<close>

fun collect_results :: "('e + 'a) list \<Rightarrow> 'e + 'a list" where
  "collect_results [] = Inr []"
| "collect_results (r # rs) =
     res_bind r (\<lambda>a. res_bind (collect_results rs) (\<lambda>as. Inr (a # as)))"

lemma collect_results_length: "collect_results rs = Inr as \<Longrightarrow> length as = length rs"
  by (induction rs arbitrary: as) (auto simp: res_bind_Inr_iff)

lemma collect_results_map_Inr [simp]: "collect_results (map Inr as) = Inr as"
  by (induction as) auto

section \<open>The sending half of a message stream\<close>

text \<open>
  A sink records the messages the peer's transport accepted, in order. \<open>room\<close> is the number of
  further sends that will succeed before the transport reports an error (\<open>None\<close>: it never does);
  a failed send leaves nothing behind. The receiving half of a stream is the list of the messages
  still to arrive; its end is the error every later receive returns (a closed stream or a frame
  that does not decode).
\<close>

record 'm sink =
  sent :: "'m list"
  room :: "nat option"

definition send :: "'m \<Rightarrow> 'm sink \<Rightarrow> bool \<times> 'm sink" where
  "send m k = (case room k of
      None \<Rightarrow> (True, k\<lparr>sent := sent k @ [m]\<rparr>)
    | Some 0 \<Rightarrow> (False, k)
    | Some (Suc n) \<Rightarrow> (True, k\<lparr>sent := sent k @ [m], room := Some n\<rparr>))"

text \<open>\<open>let _ = send(..)\<close> and \<open>send(..).ok()\<close>: the outcome is dropped.\<close>

definition send_quietly :: "'m \<Rightarrow> 'm sink \<Rightarrow> 'm sink" where
  "send_quietly m k = snd (send m k)"

text \<open>\<open>send(..).await?\<close>: on failure the enclosing function returns \<open>bad\<close>.\<close>

definition send_or :: "'m \<Rightarrow> 'm sink \<Rightarrow> ('m sink \<Rightarrow> 'r) \<Rightarrow> ('m sink \<Rightarrow> 'r) \<Rightarrow> 'r" where
  "send_or m k bad cont = (case send m k of (True, k') \<Rightarrow> cont k' | (False, k') \<Rightarrow> bad k')"

definition open_sink :: "'m sink" where
  "open_sink = \<lparr>sent = [], room = None\<rparr>"

lemma send_unbounded [simp, act_simps]:
  "room k = None \<Longrightarrow> send m k = (True, k\<lparr>sent := sent k @ [m]\<rparr>)"
  by (simp add: send_def)

lemma open_sink_simps [simp, act_simps]: "sent open_sink = []" "room open_sink = None"
  by (simp_all add: open_sink_def)

lemma send_TrueD: "send m k = (True, k') \<Longrightarrow> sent k' = sent k @ [m]"
  by (auto simp: send_def split: option.splits nat.splits)

lemma send_FalseD: "send m k = (False, k') \<Longrightarrow> k' = k"
  by (auto simp: send_def split: option.splits nat.splits)

lemma send_or_cases:
  obtains (accepted) k' where "send m k = (True, k')" "send_or m k bad cont = cont k'"
      "sent k' = sent k @ [m]"
    | (refused) "send m k = (False, k)" "send_or m k bad cont = bad k"
  by (cases "send m k"; cases "fst (send m k)")
    (auto simp: send_or_def dest: send_TrueD send_FalseD)

lemma send_or_unbounded [simp, act_simps]:
  "room k = None \<Longrightarrow> send_or m k bad cont = cont (k\<lparr>sent := sent k @ [m]\<rparr>)"
  by (simp add: send_or_def)

lemma send_quietly_unbounded [simp, act_simps]:
  "room k = None \<Longrightarrow> send_quietly m k = k\<lparr>sent := sent k @ [m]\<rparr>"
  by (simp add: send_quietly_def)

lemma send_quietly_cases:
  "sent (send_quietly m k) = sent k @ [m] \<or> send_quietly m k = k"
  by (auto simp: send_quietly_def send_def split: option.splits nat.splits)

section \<open>Event loops with an invariant\<close>

text \<open>
  The interface of every event loop of the program: a step function over the events the loop
  selects among, and an invariant each step keeps. Runs are \<open>foldl step\<close>.
\<close>

locale event_loop =
  fixes step :: "'s \<Rightarrow> 'e \<Rightarrow> 's"
    and inv :: "'s \<Rightarrow> bool"
  assumes inv_step: "inv s \<Longrightarrow> inv (step s e)"
begin

lemma inv_run: "inv s \<Longrightarrow> inv (foldl step s es)"
  by (induction es arbitrary: s) (auto intro: inv_step)

lemma inv_every_prefix: "inv s \<Longrightarrow> inv (foldl step s (take n es))"
  by (rule inv_run)

lemma measure_run:
  assumes "inv s" and "\<And>s e. inv s \<Longrightarrow> f (step s e) \<le> (f s :: nat)"
  shows "f (foldl step s es) \<le> f s"
  using assms(1)
proof (induction es arbitrary: s)
  case (Cons e es)
  then have "f (foldl step (step s e) es) \<le> f (step s e)" by (simp add: inv_step)
  with assms(2) [OF Cons.prems, of e] show ?case by simp
qed simp

end

text \<open>
  A loop that relays in two directions: while it runs, every event adds what it produced to one
  output and what it consumed to the other, so nothing is lost, repeated or reordered.
\<close>

locale ordered_relay = event_loop step inv
  for step :: "'s \<Rightarrow> 'e \<Rightarrow> 's" and inv :: "'s \<Rightarrow> bool" +
  fixes running :: "'s \<Rightarrow> bool"
    and out_of :: "'s \<Rightarrow> 'o list" and in_of :: "'s \<Rightarrow> 'i list"
    and produced :: "'e \<Rightarrow> 'o list" and consumed :: "'e \<Rightarrow> 'i list"
  assumes relay_step: "inv s \<Longrightarrow> running (step s e) \<Longrightarrow>
      running s \<and> out_of (step s e) = out_of s @ produced e \<and> in_of (step s e) = in_of s @ consumed e"
begin

lemma relay_run:
  assumes "inv s" "running (foldl step s es)"
  shows "out_of (foldl step s es) = out_of s @ concat (map produced es)
    \<and> in_of (foldl step s es) = in_of s @ concat (map consumed es)"
  using assms(2)
proof (induction es rule: rev_induct)
  case (snoc e es)
  have "inv (foldl step s es)" using assms(1) by (rule inv_run)
  from relay_step [OF this, of e] snoc show ?case by simp
qed simp

end

end
