(* ===== verification/Rust_Str.thy ===== *)
theory Rust_Str
  imports Prelude
begin

text \<open>
  The operations of Rust's \<open>str\<close> the sources use. A \<open>string\<close> is the UTF-8 bytes of the Rust
  string, one \<open>char\<close> per byte, so \<open>length\<close> is \<open>str::len\<close>. Operations on ASCII separators are byte
  operations; white space is Unicode's \<open>White_Space\<close>, recognised by its UTF-8 bytes, which is
  exact because no UTF-8 sequence starts inside another.
\<close>

named_theorems str_simps \<open>evaluation of the string operations\<close>

abbreviation NL :: char where "NL \<equiv> CHR 0x0A"
abbreviation CR :: char where "CR \<equiv> CHR 0x0D"

section \<open>Splitting at a separator\<close>

fun split_once :: "char \<Rightarrow> string \<Rightarrow> (string \<times> string) option" where
  "split_once c [] = None"
| "split_once c (x # xs) =
     (if x = c then Some ([], xs) else map_option (\<lambda>(a, b). (x # a, b)) (split_once c xs))"

definition rsplit_once :: "char \<Rightarrow> string \<Rightarrow> (string \<times> string) option" where
  "rsplit_once c s = map_option (\<lambda>(a, b). (rev b, rev a)) (split_once c (rev s))"

fun split_all :: "char \<Rightarrow> string \<Rightarrow> string list" where
  "split_all c [] = [[]]"
| "split_all c (x # xs) =
     (if x = c then [] # split_all c xs
      else case split_all c xs of [] \<Rightarrow> [[x]] | p # ps \<Rightarrow> (x # p) # ps)"

fun strip_prefix :: "string \<Rightarrow> string \<Rightarrow> string option" where
  "strip_prefix [] s = Some s"
| "strip_prefix (p # ps) [] = None"
| "strip_prefix (p # ps) (c # s) = (if p = c then strip_prefix ps s else None)"

definition starts_with :: "string \<Rightarrow> string \<Rightarrow> bool" where
  "starts_with p s \<longleftrightarrow> strip_prefix p s \<noteq> None"

definition strip_suffix :: "string \<Rightarrow> string \<Rightarrow> string option" where
  "strip_suffix p s = map_option rev (strip_prefix (rev p) (rev s))"

definition ends_with :: "string \<Rightarrow> string \<Rightarrow> bool" where
  "ends_with p s \<longleftrightarrow> strip_suffix p s \<noteq> None"

fun contains_str :: "string \<Rightarrow> string \<Rightarrow> bool" where
  "contains_str p [] \<longleftrightarrow> p = []"
| "contains_str p (c # s) \<longleftrightarrow> starts_with p (c # s) \<or> contains_str p s"

fun join_with :: "string \<Rightarrow> string list \<Rightarrow> string" where
  "join_with sep [] = []"
| "join_with sep [p] = p"
| "join_with sep (p # q # ps) = p @ sep @ join_with sep (q # ps)"

lemma split_once_Some_iff: "split_once c s = Some (a, b) \<longleftrightarrow> s = a @ c # b \<and> c \<notin> set a"
  by (induction s arbitrary: a) (force simp: Cons_eq_append_conv)+

lemma split_once_None_iff [simp]: "split_once c s = None \<longleftrightarrow> c \<notin> set s"
  by (induction s) auto

lemma split_once_append [simp]: "c \<notin> set a \<Longrightarrow> split_once c (a @ c # b) = Some (a, b)"
  by (simp add: split_once_Some_iff)

lemma rsplit_once_Some_iff: "rsplit_once c s = Some (a, b) \<longleftrightarrow> s = a @ c # b \<and> c \<notin> set b"
proof -
  have "rsplit_once c s = Some (a, b) \<longleftrightarrow> split_once c (rev s) = Some (rev b, rev a)"
    by (force simp: rsplit_once_def)
  also have "\<dots> \<longleftrightarrow> rev s = rev (a @ c # b) \<and> c \<notin> set b"
    by (simp add: split_once_Some_iff)
  finally show ?thesis by (simp only: rev_is_rev_conv)
qed

lemma rsplit_once_append [simp]: "c \<notin> set b \<Longrightarrow> rsplit_once c (a @ c # b) = Some (a, b)"
  by (simp add: rsplit_once_Some_iff)

lemma rsplit_once_None_iff [simp]: "rsplit_once c s = None \<longleftrightarrow> c \<notin> set s"
  by (simp add: rsplit_once_def)

lemma split_all_nonempty [simp]: "split_all c s \<noteq> []"
  by (induction s) (auto split: list.splits)

lemma split_all_no_sep: "c \<notin> set s \<Longrightarrow> split_all c s = [s]"
  by (induction s) auto

lemma split_all_append: "c \<notin> set a \<Longrightarrow> split_all c (a @ c # s) = a # split_all c s"
  by (induction a) (auto split: list.splits)

lemma strip_prefix_Some_iff: "strip_prefix p s = Some r \<longleftrightarrow> s = p @ r"
  by (induction p s rule: strip_prefix.induct) auto

lemma strip_prefix_append [simp]: "strip_prefix p (p @ r) = Some r"
  by (simp add: strip_prefix_Some_iff)

lemma starts_with_iff: "starts_with p s \<longleftrightarrow> (\<exists>r. s = p @ r)"
  by (auto simp: starts_with_def strip_prefix_Some_iff)

lemma strip_suffix_Some_iff: "strip_suffix p s = Some r \<longleftrightarrow> s = r @ p"
proof -
  have "strip_suffix p s = Some r \<longleftrightarrow> strip_prefix (rev p) (rev s) = Some (rev r)"
    by (force simp: strip_suffix_def)
  also have "\<dots> \<longleftrightarrow> rev s = rev (r @ p)" by (simp add: strip_prefix_Some_iff)
  finally show ?thesis by (simp only: rev_is_rev_conv)
qed

lemma ends_with_iff: "ends_with p s \<longleftrightarrow> (\<exists>r. s = r @ p)"
  by (auto simp: ends_with_def strip_suffix_Some_iff)

section \<open>ASCII case and digits\<close>

definition code :: "char \<Rightarrow> nat" where
  "code c = of_char c"

definition is_ascii_upper :: "char \<Rightarrow> bool" where
  "is_ascii_upper c \<longleftrightarrow> 65 \<le> code c \<and> code c \<le> 90"

definition is_ascii_digit :: "char \<Rightarrow> bool" where
  "is_ascii_digit c \<longleftrightarrow> 48 \<le> code c \<and> code c \<le> 57"

definition ascii_lower_char :: "char \<Rightarrow> char" where
  "ascii_lower_char c = (if is_ascii_upper c then char_of (code c + 32) else c)"

definition ascii_lower :: "string \<Rightarrow> string" where
  "ascii_lower = map ascii_lower_char"

definition eq_ignore_ascii_case :: "string \<Rightarrow> string \<Rightarrow> bool" where
  "eq_ignore_ascii_case s t \<longleftrightarrow> ascii_lower s = ascii_lower t"

text \<open>\<open>char::to_digit\<close>.\<close>

definition to_digit :: "nat \<Rightarrow> char \<Rightarrow> nat option" where
  "to_digit radix c = (let n = code c;
      d = (if 48 \<le> n \<and> n \<le> 57 then n - 48
           else if 97 \<le> n \<and> n \<le> 122 then n - 87
           else if 65 \<le> n \<and> n \<le> 90 then n - 55 else 36)
    in if d < radix then Some d else None)"

definition digit_char :: "nat \<Rightarrow> char" where
  "digit_char d = (if d < 10 then char_of (48 + d) else char_of (87 + d))"

fun digits_value :: "nat \<Rightarrow> nat \<Rightarrow> string \<Rightarrow> nat option" where
  "digits_value radix acc [] = Some acc"
| "digits_value radix acc (c # cs) =
     (case to_digit radix c of None \<Rightarrow> None | Some d \<Rightarrow> digits_value radix (acc * radix + d) cs)"

text \<open>Decimal \<open>Display\<close> of an unsigned integer.\<close>

fun show_nat :: "nat \<Rightarrow> string" where
  "show_nat n = (if n < 10 then [digit_char n] else show_nat (n div 10) @ [digit_char (n mod 10)])"

declare show_nat.simps [simp del]

text \<open>
  \<open>str::parse\<close> for an unsigned integer type: an optional plus sign, then decimal digits only, and
  no overflow. \<open>bound\<close> is two to the width.
\<close>

definition parse_uint :: "nat \<Rightarrow> string \<Rightarrow> nat option" where
  "parse_uint bound s =
     (let ds = (case s of c # r \<Rightarrow> if c = CHR ''+'' then r else s | [] \<Rightarrow> s)
      in if ds = [] then None
         else case digits_value 10 0 ds of
             None \<Rightarrow> None
           | Some n \<Rightarrow> if n < bound then Some n else None)"

definition parse_u16 :: "string \<Rightarrow> u16 option" where
  "parse_u16 s = map_option word_of_nat (parse_uint 65536 s)"

definition parse_u64 :: "string \<Rightarrow> u64 option" where
  "parse_u64 s = map_option word_of_nat (parse_uint (2 ^ 64) s)"

definition show_u16 :: "u16 \<Rightarrow> string" where
  "show_u16 w = show_nat (unat w)"

lemma code_digit_char [simp]: "d < 10 \<Longrightarrow> code (digit_char d) = 48 + d"
  by (simp add: code_def digit_char_def)

lemma to_digit_digit_char [simp]: "d < 10 \<Longrightarrow> to_digit 10 (digit_char d) = Some d"
  by (simp add: to_digit_def)

lemma digits_value_append:
  "digits_value r acc (xs @ ys) =
     (case digits_value r acc xs of None \<Rightarrow> None | Some a \<Rightarrow> digits_value r a ys)"
  by (induction xs arbitrary: acc) (auto split: option.splits)

lemma digits_value_show_nat [simp]: "digits_value 10 0 (show_nat n) = Some n"
proof (induction n rule: show_nat.induct)
  case (1 n)
  show ?case
  proof (cases "n < 10")
    case True
    then show ?thesis by (simp add: show_nat.simps [of n])
  next
    case False
    with 1 show ?thesis
      by (simp add: show_nat.simps [of n] digits_value_append)
  qed
qed

lemma show_nat_digits: "c \<in> set (show_nat n) \<Longrightarrow> is_ascii_digit c"
proof (induction n rule: show_nat.induct)
  case (1 n)
  show ?case
  proof (cases "n < 10")
    case True
    with "1.prems" show ?thesis by (simp add: show_nat.simps [of n] is_ascii_digit_def)
  next
    case False
    have "n mod 10 < 10" by simp
    with False 1 show ?thesis
      by (auto simp: show_nat.simps [of n] is_ascii_digit_def)
  qed
qed

lemma show_nat_nonempty [simp]: "show_nat n \<noteq> []"
  by (simp add: show_nat.simps [of n])

lemma not_digit_not_in_show_nat [simp]: "\<not> is_ascii_digit c \<Longrightarrow> c \<notin> set (show_nat n)"
  using show_nat_digits by blast

lemma not_ascii_digit_chars [simp]:
  "\<not> is_ascii_digit CHR '':''" "\<not> is_ascii_digit CHR '' ''" "\<not> is_ascii_digit NL"
  "\<not> is_ascii_digit CHR ''+''" "\<not> is_ascii_digit CHR ''@''"
  by (simp_all add: is_ascii_digit_def code_def)

lemma show_nat_inject [simp]: "show_nat m = show_nat n \<longleftrightarrow> m = n"
  by (metis digits_value_show_nat option.inject)

lemma parse_uint_show_nat: "n < bound \<Longrightarrow> parse_uint bound (show_nat n) = Some n"
proof -
  assume n: "n < bound"
  obtain c r where s: "show_nat n = c # r" by (cases "show_nat n") auto
  then have "is_ascii_digit c" using show_nat_digits [of c n] by simp
  then have "c \<noteq> CHR ''+''" by (auto simp: is_ascii_digit_def code_def)
  then have "(case show_nat n of c # r \<Rightarrow> if c = CHR ''+'' then r else show_nat n | [] \<Rightarrow> show_nat n)
      = show_nat n" by (simp add: s)
  with n show ?thesis by (simp add: parse_uint_def)
qed

lemma parse_uint_bound: "parse_uint bound s = Some n \<Longrightarrow> n < bound"
  by (auto simp: parse_uint_def Let_def split: if_splits option.splits list.splits)

lemma parse_u16_show [simp]: "parse_u16 (show_u16 w) = Some w"
proof -
  have "unat w < 2 ^ LENGTH(16)" by (rule unsigned_less)
  then show ?thesis by (simp add: parse_u16_def show_u16_def parse_uint_show_nat)
qed

lemma show_u16_facts [simp]:
  "show_u16 w \<noteq> []"
  "CHR '':'' \<notin> set (show_u16 w)"
  by (simp_all add: show_u16_def)

section \<open>White space\<close>

text \<open>The length in bytes of the white-space character at the head of a string; 0 if none.\<close>

definition is_ascii_ws :: "char \<Rightarrow> bool" where
  "is_ascii_ws c \<longleftrightarrow> (9 \<le> code c \<and> code c \<le> 13) \<or> code c = 32"

definition ws3 :: "nat \<Rightarrow> nat \<Rightarrow> nat \<Rightarrow> bool" where
  "ws3 a b c \<longleftrightarrow> (a = 0xE1 \<and> b = 0x9A \<and> c = 0x80)
     \<or> (a = 0xE2 \<and> b = 0x80 \<and> (0x80 \<le> c \<and> c \<le> 0x8A \<or> c = 0xA8 \<or> c = 0xA9 \<or> c = 0xAF))
     \<or> (a = 0xE2 \<and> b = 0x81 \<and> c = 0x9F)
     \<or> (a = 0xE3 \<and> b = 0x80 \<and> c = 0x80)"

definition ws2 :: "nat \<Rightarrow> nat \<Rightarrow> bool" where
  "ws2 a b \<longleftrightarrow> a = 0xC2 \<and> (b = 0x85 \<or> b = 0xA0)"

fun ws_len :: "string \<Rightarrow> nat" where
  "ws_len [] = 0"
| "ws_len (a # s) =
     (if is_ascii_ws a then 1
      else case s of
          [] \<Rightarrow> 0
        | b # t \<Rightarrow> if ws2 (code a) (code b) then 2
            else case t of [] \<Rightarrow> 0
              | c # _ \<Rightarrow> if ws3 (code a) (code b) (code c) then 3 else 0)"

text \<open>The same for the last character of a string given in reverse.\<close>

fun ws_len_back :: "string \<Rightarrow> nat" where
  "ws_len_back [] = 0"
| "ws_len_back (a # s) =
     (if is_ascii_ws a then 1
      else case s of
          [] \<Rightarrow> 0
        | b # t \<Rightarrow> if ws2 (code b) (code a) then 2
            else case t of [] \<Rightarrow> 0
              | c # _ \<Rightarrow> if ws3 (code c) (code b) (code a) then 3 else 0)"

function trim_start :: "string \<Rightarrow> string" where
  "trim_start s = (if ws_len s = 0 \<or> s = [] then s else trim_start (drop (ws_len s) s))"
  by pat_completeness auto
termination
  by (relation "measure length") (auto simp: diff_less)

function trim_back :: "string \<Rightarrow> string" where
  "trim_back s = (if ws_len_back s = 0 \<or> s = [] then s else trim_back (drop (ws_len_back s) s))"
  by pat_completeness auto
termination
  by (relation "measure length") (auto simp: diff_less)

declare trim_start.simps [simp del] trim_back.simps [simp del]

definition trim_end :: "string \<Rightarrow> string" where
  "trim_end s = rev (trim_back (rev s))"

definition trim :: "string \<Rightarrow> string" where
  "trim s = trim_end (trim_start s)"

function split_ws_from :: "string \<Rightarrow> string \<Rightarrow> string list" where
  "split_ws_from cur s =
     (case s of
        [] \<Rightarrow> (if cur = [] then [] else [rev cur])
      | c # r \<Rightarrow>
          if ws_len s = 0 then split_ws_from (c # cur) r
          else (if cur = [] then [] else [rev cur]) @ split_ws_from [] (drop (ws_len s) s))"
  by pat_completeness auto
termination
  by (relation "measure (\<lambda>(cur, s). length s)") (auto simp: diff_less)

declare split_ws_from.simps [simp del]

definition split_whitespace :: "string \<Rightarrow> string list" where
  "split_whitespace s = split_ws_from [] s"

text \<open>\<open>str::lines\<close>: a carriage return is dropped only before a line feed.\<close>

definition strip_cr :: "string \<Rightarrow> string" where
  "strip_cr l = (case strip_suffix [CR] l of None \<Rightarrow> l | Some l' \<Rightarrow> l')"

function lines :: "string \<Rightarrow> string list" where
  "lines s = (case split_once NL s of
      None \<Rightarrow> if s = [] then [] else [s]
    | Some (l, r) \<Rightarrow> strip_cr l # lines r)"
  by pat_completeness auto
termination
  by (relation "measure length") (auto simp: split_once_Some_iff)

declare lines.simps [simp del]

section \<open>Text free of white space\<close>

text \<open>Printable ASCII other than the space: such characters are never part of white space.\<close>

definition plain_char :: "char \<Rightarrow> bool" where
  "plain_char c \<longleftrightarrow> 33 \<le> code c \<and> code c \<le> 126"

definition plain :: "string \<Rightarrow> bool" where
  "plain s \<longleftrightarrow> list_all plain_char s"

lemma plain_simps [simp]:
  "plain []"
  "plain (c # s) \<longleftrightarrow> plain_char c \<and> plain s"
  "plain (s @ t) \<longleftrightarrow> plain s \<and> plain t"
  "plain (rev s) \<longleftrightarrow> plain s"
  by (auto simp: plain_def list_all_iff)

lemma digit_plain: "is_ascii_digit c \<Longrightarrow> plain_char c"
  by (simp add: is_ascii_digit_def plain_char_def)

lemma plain_show_nat [simp]: "plain (show_nat n)"
  using show_nat_digits [of _ n] digit_plain by (auto simp: plain_def list_all_iff)

lemma plain_show_u16 [simp]: "plain (show_u16 w)"
  by (simp add: show_u16_def)

lemma plain_char_not_ws [simp]: "plain_char c \<Longrightarrow> \<not> is_ascii_ws c"
  by (auto simp: plain_char_def is_ascii_ws_def)

lemma plain_not_separators [simp]: "\<not> plain_char NL" "\<not> plain_char CR" "\<not> plain_char CHR '' ''"
  by (simp_all add: plain_char_def code_def)

lemma plain_no_separators:
  "plain s \<Longrightarrow> NL \<notin> set s" "plain s \<Longrightarrow> CR \<notin> set s" "plain s \<Longrightarrow> CHR '' '' \<notin> set s"
  using plain_not_separators by (auto simp: plain_def list_all_iff)

lemma ws_len_plain [simp]: "plain_char c \<Longrightarrow> ws_len (c # s) = 0"
  by (auto simp: ws2_def ws3_def plain_char_def split: list.splits)

lemma ws_len_back_plain [simp]: "plain_char c \<Longrightarrow> ws_len_back (c # s) = 0"
  by (auto simp: ws2_def ws3_def plain_char_def split: list.splits)

lemma ws_len_space [simp]: "ws_len (CHR '' '' # s) = 1"
  by (simp add: is_ascii_ws_def code_def)

lemma ws_len_Nil [simp]: "ws_len [] = 0" "ws_len_back [] = 0"
  by simp_all

declare ws_len.simps [simp del] ws_len_back.simps [simp del]

lemma trim_start_plain [simp]: "trim_start [] = []" "plain_char c \<Longrightarrow> trim_start (c # s) = c # s"
  by (simp_all add: trim_start.simps [of "[]"] trim_start.simps [of "c # s"])

lemma trim_back_plain: "s = [] \<or> plain_char (hd s) \<Longrightarrow> trim_back s = s"
  by (subst trim_back.simps) (cases s, auto)

lemma trim_fixed: "s = [] \<or> plain_char (hd s) \<and> plain_char (last s) \<Longrightarrow> trim s = s"
proof -
  assume s: "s = [] \<or> plain_char (hd s) \<and> plain_char (last s)"
  then have "trim_start s = s" by (cases s) auto
  moreover have "trim_back (rev s) = rev s" using s by (auto intro: trim_back_plain simp: hd_rev)
  ultimately show ?thesis by (simp add: trim_def trim_end_def)
qed

lemma trim_plain [simp]: "plain s \<Longrightarrow> trim s = s"
proof -
  assume s: "plain s"
  show ?thesis
  proof (cases "s = []")
    case False
    then have "hd s \<in> set s" "last s \<in> set s" by simp_all
    with s show ?thesis by (simp add: trim_fixed plain_def list_all_iff)
  qed (simp add: trim_fixed)
qed

lemma ws_len_back_before_plain: "plain_char c \<Longrightarrow> ws_len_back (q @ [c]) \<le> length q"
proof -
  assume c: "plain_char c"
  consider "q = []" | a where "q = [a]" | a b where "q = [a, b]" | a b d r where "q = a # b # d # r"
    by (metis neq_Nil_conv)
  then show ?thesis
  proof cases
    case 1
    with c show ?thesis by simp
  next
    case 2
    with c show ?thesis by (simp add: ws_len_back.simps ws2_def plain_char_def)
  next
    case 3
    with c show ?thesis by (simp add: ws_len_back.simps ws2_def ws3_def plain_char_def)
  next
    case 4
    then show ?thesis by (simp add: ws_len_back.simps)
  qed
qed

lemma trim_back_before_plain: "plain_char c \<Longrightarrow> \<exists>q'. trim_back (q @ [c]) = q' @ [c]"
proof (induction q rule: length_induct)
  case (1 q)
  show ?case
  proof (cases "ws_len_back (q @ [c]) = 0")
    case True
    then show ?thesis by (subst trim_back.simps) simp
  next
    case False
    let ?n = "ws_len_back (q @ [c])"
    have n: "?n \<le> length q" by (rule ws_len_back_before_plain [OF 1(2)])
    with False have "length (drop ?n q) < length q" by simp
    with 1 have "\<exists>q'. trim_back (drop ?n q @ [c]) = q' @ [c]" by blast
    with False n show ?thesis by (subst trim_back.simps) simp
  qed
qed

lemma trim_Cons_plain: "plain_char c \<Longrightarrow> \<exists>r. trim (c # t) = c # r"
  using trim_back_before_plain [of c "rev t"]
  by (auto simp: trim_def trim_end_def intro: exI [of _ "rev _"])

lemma split_ws_from_Nil [simp]: "split_ws_from cur [] = (if cur = [] then [] else [rev cur])"
  by (simp add: split_ws_from.simps)

lemma split_ws_from_plain: "plain t \<Longrightarrow> split_ws_from cur (t @ s) = split_ws_from (rev t @ cur) s"
  by (induction t arbitrary: cur) (simp_all add: split_ws_from.simps [of _ "_ # _"])

lemma split_ws_from_space:
  "split_ws_from cur (CHR '' '' # s) = (if cur = [] then [] else [rev cur]) @ split_ws_from [] s"
  by (subst split_ws_from.simps) simp

lemma split_whitespace_plain [str_simps]:
  "split_whitespace [] = []"
  "plain t \<Longrightarrow> t \<noteq> [] \<Longrightarrow> split_whitespace t = [t]"
  "plain t \<Longrightarrow> t \<noteq> [] \<Longrightarrow> split_whitespace (t @ CHR '' '' # s) = t # split_whitespace s"
  using split_ws_from_plain [of t "[]" "[]"] split_ws_from_plain [of t "[]" "CHR '' '' # s"]
  by (simp_all add: split_whitespace_def split_ws_from_space)

lemma strip_cr_id: "l = [] \<or> last l \<noteq> CR \<Longrightarrow> strip_cr l = l"
  by (auto simp: strip_cr_def strip_suffix_Some_iff split: option.splits)

lemma lines_Nil [simp, str_simps]: "lines [] = []"
  by (simp add: lines.simps)

lemma lines_append [str_simps]: "NL \<notin> set l \<Longrightarrow> lines (l @ NL # s) = strip_cr l # lines s"
  by (subst lines.simps) simp

lemma lines_last [str_simps]: "NL \<notin> set l \<Longrightarrow> l \<noteq> [] \<Longrightarrow> lines l = [l]"
  by (subst lines.simps) (simp add: iffD2 [OF split_once_None_iff])

lemma lines_terminated:
  assumes "\<And>l. l \<in> set ls \<Longrightarrow> NL \<notin> set l \<and> (l = [] \<or> last l \<noteq> CR)"
  shows "lines (concat (map (\<lambda>l. l @ [NL]) ls)) = ls"
  using assms by (induction ls) (simp_all add: lines_append strip_cr_id)

end
