(* ===== verification/Proto.thy ===== *)
theory Proto
  imports Rust_Str
begin

text \<open>
  The shared data model of \<^verbatim>\<open>crates/sqsh-core\<close>: the control messages of
  \<^verbatim>\<open>proto/message.rs\<close>, the channel messages of \<^verbatim>\<open>proto/channel.rs\<close>, the errors of
  \<^verbatim>\<open>error.rs\<close> and the channel life cycle of \<^verbatim>\<open>channel/state.rs\<close>. Constructors keep the
  source's names; where two enums share one, the later carries a suffix.
\<close>

section \<open>Errors\<close>

datatype io_kind = NotFound | AlreadyExists | PermissionDenied | ConnectionRefused
  | UnexpectedEof | OtherIo

datatype sqsh_error =
    AuthFailed string
  | Protocol string
  | Channel string
  | Codec string
  | Io io_kind

section \<open>Control messages\<close>

definition PROTOCOL_VERSION :: u16 where
  "PROTOCOL_VERSION = 1"

datatype auth_outcome = Success | Failure

datatype disconnect_reason = ByApplication | ProtocolError | AuthFailedReason | Timeout

datatype control_message =
    ClientHello u16 string
  | AuthChallenge "byte list"
  | AuthResponse "byte list" "byte list"
  | AuthResult auth_outcome
  | Disconnect disconnect_reason string
  | KeepAlive u64
  | KeepAliveAck u64
  | TcpForwardRequest string u16
  | TcpForwardConfirm u16
  | TcpForwardFailure string
  | TcpForwardCancel string u16

text \<open>The nonce field is an array of 32 bytes in the source.\<close>

fun wf_control_message :: "control_message \<Rightarrow> bool" where
  "wf_control_message (AuthChallenge nonce) \<longleftrightarrow> length nonce = 32"
| "wf_control_message _ \<longleftrightarrow> True"

section \<open>Channel messages\<close>

datatype channel_type = Session | DirectTcpip | ForwardedTcpip

record tcpip_params =
  tp_host :: string
  tp_port :: u16
  tp_originator_addr :: string
  tp_originator_port :: u16

datatype channel_params =
    SessionParams
  | DirectTcpipParams tcpip_params
  | ForwardedTcpipParams tcpip_params

record pty_req_params =
  pr_term :: string
  pr_width_cols :: u32
  pr_height_rows :: u32
  pr_width_px :: u32
  pr_height_px :: u32

record window_change_params =
  wc_width_cols :: u32
  wc_height_rows :: u32
  wc_width_px :: u32
  wc_height_px :: u32

datatype request_type =
    PtyReq pty_req_params
  | Shell
  | Exec string
  | WindowChange window_change_params
  | Signal string
  | Env string string
  | Subsystem string

datatype channel_failure_reason =
    AdministrativelyProhibited
  | UnknownChannelType
  | ResourceShortage

datatype channel_message =
    Open channel_type channel_params
  | OpenConfirmation u32
  | OpenFailure channel_failure_reason string
  | Close
  | Eof
  | Data "byte list"
  | ExtendedData u32 "byte list"
  | Request request_type bool
  | RequestSuccess
  | RequestFailure
  | ExitStatus u32
  | ExitSignal string bool string

text \<open>The \<open>Debug\<close> names the sources interpolate into descriptions.\<close>

fun show_channel_type :: "channel_type \<Rightarrow> string" where
  "show_channel_type Session = ''Session''"
| "show_channel_type DirectTcpip = ''DirectTcpip''"
| "show_channel_type ForwardedTcpip = ''ForwardedTcpip''"

fun show_failure_reason :: "channel_failure_reason \<Rightarrow> string" where
  "show_failure_reason AdministrativelyProhibited = ''AdministrativelyProhibited''"
| "show_failure_reason UnknownChannelType = ''UnknownChannelType''"
| "show_failure_reason ResourceShortage = ''ResourceShortage''"

text \<open>The bytes a stream of channel messages carries on its data, and on its stderr, lane.\<close>

fun data_of :: "channel_message \<Rightarrow> byte list" where
  "data_of (Data d) = d"
| "data_of _ = []"

fun ext_data_of :: "channel_message \<Rightarrow> byte list" where
  "ext_data_of (ExtendedData t d) = d"
| "ext_data_of _ = []"

definition data_stream :: "channel_message list \<Rightarrow> byte list" where
  "data_stream ms = concat (map data_of ms)"

definition ext_stream :: "channel_message list \<Rightarrow> byte list" where
  "ext_stream ms = concat (map ext_data_of ms)"

lemma stream_simps [simp]:
  "data_stream [] = []" "data_stream (m # ms) = data_of m @ data_stream ms"
  "data_stream (ms @ ms') = data_stream ms @ data_stream ms'"
  "ext_stream [] = []" "ext_stream (m # ms) = ext_data_of m @ ext_stream ms"
  "ext_stream (ms @ ms') = ext_stream ms @ ext_stream ms'"
  by (simp_all add: data_stream_def ext_stream_def)

section \<open>Channel life cycle\<close>

datatype channel_state = Opening | OpenState | EofSent | EofReceived | Closing | Closed

definition can_send_data :: "channel_state \<Rightarrow> bool" where
  "can_send_data s \<longleftrightarrow> (case s of OpenState \<Rightarrow> True | EofReceived \<Rightarrow> True | _ \<Rightarrow> False)"

definition can_recv_data :: "channel_state \<Rightarrow> bool" where
  "can_recv_data s \<longleftrightarrow> (case s of OpenState \<Rightarrow> True | EofSent \<Rightarrow> True | _ \<Rightarrow> False)"

text \<open>The states are enumerable, so a statement about all of them evaluates.\<close>

instantiation channel_state :: enum
begin

definition enum_channel_state :: "channel_state list" where
  "enum_channel_state = [Opening, OpenState, EofSent, EofReceived, Closing, Closed]"

definition enum_all_channel_state :: "(channel_state \<Rightarrow> bool) \<Rightarrow> bool" where
  "enum_all_channel_state P \<longleftrightarrow>
     P Opening \<and> P OpenState \<and> P EofSent \<and> P EofReceived \<and> P Closing \<and> P Closed"

definition enum_ex_channel_state :: "(channel_state \<Rightarrow> bool) \<Rightarrow> bool" where
  "enum_ex_channel_state P \<longleftrightarrow>
     P Opening \<or> P OpenState \<or> P EofSent \<or> P EofReceived \<or> P Closing \<or> P Closed"

lemma UNIV_channel_state: "UNIV = {Opening, OpenState, EofSent, EofReceived, Closing, Closed}"
  by (auto intro: channel_state.exhaust)

instance
  by standard
    (auto simp: enum_channel_state_def enum_all_channel_state_def enum_ex_channel_state_def
      UNIV_channel_state)

end

text \<open>
  Data flows both ways exactly in the open state; each half-close stops one direction and leaves
  the other; no data flows before the confirmation or once the channel closes.
\<close>

lemma channel_state_data:
  "can_send_data s \<and> can_recv_data s \<longleftrightarrow> s = OpenState"
  "can_send_data s \<and> \<not> can_recv_data s \<longleftrightarrow> s = EofReceived"
  "\<not> can_send_data s \<and> can_recv_data s \<longleftrightarrow> s = EofSent"
  by (auto simp: can_send_data_def can_recv_data_def split: channel_state.splits)

end
