(* ===== verification/Codec.thy ===== *)
theory Codec
  imports Proto
begin

text \<open>
  \<^verbatim>\<open>sqsh-core/src/proto/codec.rs\<close> and \<^verbatim>\<open>transport/framing.rs\<close>: length-prefixed frames. The
  payload encoding is the postcard crate's, so \<open>ser\<close> and \<open>de\<close> are arguments of the definitions;
  what a theorem needs of them (decoding an encoded message gives it back) is its hypothesis.
\<close>

definition MAX_FRAME_SIZE :: u32 where
  "MAX_FRAME_SIZE = 64 * 1024"

lemma unat_MAX_FRAME_SIZE [simp]: "unat MAX_FRAME_SIZE = 65536"
  by (simp add: MAX_FRAME_SIZE_def)

section \<open>Byte streams\<close>

text \<open>
  A writer holds the bytes the transport took; \<open>capacity\<close> is how many more it takes before it
  fails. A reader is the list of the bytes still to arrive.
\<close>

record writer =
  written :: "byte list"
  capacity :: "nat option"

definition write_all :: "byte list \<Rightarrow> writer \<Rightarrow> (io_kind + unit) \<times> writer" where
  "write_all bs w = (case capacity w of
      None \<Rightarrow> (Inr (), w\<lparr>written := written w @ bs\<rparr>)
    | Some n \<Rightarrow>
        if length bs \<le> n
        then (Inr (), w\<lparr>written := written w @ bs, capacity := Some (n - length bs)\<rparr>)
        else (Inl OtherIo, w\<lparr>written := written w @ take n bs, capacity := Some 0\<rparr>))"

definition read_exact :: "nat \<Rightarrow> byte list \<Rightarrow> io_kind + byte list \<times> byte list" where
  "read_exact n r = (if n \<le> length r then Inr (take n r, drop n r) else Inl UnexpectedEof)"

section \<open>Frames\<close>

definition put_frame :: "byte list \<Rightarrow> writer \<Rightarrow> (sqsh_error + unit) \<times> writer" where
  "put_frame payload w =
     (if 2 ^ 32 \<le> length payload then (Inl (Codec ''message too large''), w)
      else let len = word_of_nat (length payload) :: u32 in
        case write_all (u32_to_le_bytes len) w of
          (Inl e, w1) \<Rightarrow> (Inl (Io e), w1)
        | (Inr _, w1) \<Rightarrow>
            (case write_all payload w1 of
               (Inl e, w2) \<Rightarrow> (Inl (Io e), w2)
             | (Inr _, w2) \<Rightarrow> (Inr (), w2)))"

definition write_message ::
  "('m \<Rightarrow> string + byte list) \<Rightarrow> 'm \<Rightarrow> writer \<Rightarrow> (sqsh_error + unit) \<times> writer" where
  "write_message ser msg w = (case ser msg of
      Inl e \<Rightarrow> (Inl (Codec (''serialize: '' @ e)), w)
    | Inr payload \<Rightarrow> put_frame payload w)"

definition take_frame :: "byte list \<Rightarrow> sqsh_error + byte list \<times> byte list" where
  "take_frame r = (case read_exact 4 r of
      Inl e \<Rightarrow> Inl (Io e)
    | Inr (len_buf, r1) \<Rightarrow>
        let len = u32_from_le_bytes len_buf in
        if MAX_FRAME_SIZE < len
        then Inl (Codec (''frame too large: '' @ show_nat (unat len) @ '' bytes (max ''
               @ show_nat (unat MAX_FRAME_SIZE) @ '')''))
        else (case read_exact (unat len) r1 of
            Inl e \<Rightarrow> Inl (Io e)
          | Inr (buf, r2) \<Rightarrow> Inr (buf, r2)))"

definition read_message ::
  "(byte list \<Rightarrow> string + 'm) \<Rightarrow> byte list \<Rightarrow> sqsh_error + 'm \<times> byte list" where
  "read_message de r = (case take_frame r of
      Inl e \<Rightarrow> Inl e
    | Inr (buf, r') \<Rightarrow>
        (case de buf of
           Inl e \<Rightarrow> Inl (Codec (''deserialize: '' @ e))
         | Inr m \<Rightarrow> Inr (m, r')))"

text \<open>The bytes of a frame, and what fits the reader's cap.\<close>

definition frame :: "byte list \<Rightarrow> byte list" where
  "frame p = u32_to_le_bytes (word_of_nat (length p)) @ p"

definition fits :: "byte list \<Rightarrow> bool" where
  "fits p \<longleftrightarrow> length p \<le> 65536"

text \<open>Reading and writing several messages on one stream, stopping at the first error.\<close>

fun read_n :: "(byte list \<Rightarrow> 'e + 'p \<times> byte list) \<Rightarrow> nat \<Rightarrow> byte list \<Rightarrow> 'e + 'p list \<times> byte list"
where
  "read_n rd 0 r = Inr ([], r)"
| "read_n rd (Suc n) r =
     res_bind (rd r) (\<lambda>(p, r1). res_bind (read_n rd n r1) (\<lambda>(ps, r2). Inr (p # ps, r2)))"

fun write_messages ::
  "('m \<Rightarrow> string + byte list) \<Rightarrow> 'm list \<Rightarrow> writer \<Rightarrow> (sqsh_error + unit) \<times> writer" where
  "write_messages ser [] w = (Inr (), w)"
| "write_messages ser (m # ms) w = (case write_message ser m w of
      (Inl e, w1) \<Rightarrow> (Inl e, w1)
    | (Inr _, w1) \<Rightarrow> write_messages ser ms w1)"

section \<open>The interface of a frame format\<close>

text \<open>
  What the users of framing rely on: a frame that fits is read back whole, whatever follows it.
  Streams of frames and of typed messages follow once, for any such format.
\<close>

locale frame_format =
  fixes enframe :: "'p \<Rightarrow> byte list"
    and deframe :: "byte list \<Rightarrow> 'e + 'p \<times> byte list"
    and small :: "'p \<Rightarrow> bool"
  assumes deframe_enframe: "small p \<Longrightarrow> deframe (enframe p @ rest) = Inr (p, rest)"
begin

lemma enframe_prefix_free:
  assumes "small p" "small q" "enframe p @ r = enframe q @ s"
  shows "p = q \<and> r = s"
proof -
  have "Inr (p, r) = deframe (enframe p @ r)" by (rule deframe_enframe [OF assms(1), symmetric])
  also have "\<dots> = deframe (enframe q @ s)" by (simp only: assms(3))
  also have "\<dots> = Inr (q, s)" by (rule deframe_enframe [OF assms(2)])
  finally show ?thesis by simp
qed

lemma read_n_frames:
  "list_all small ps \<Longrightarrow> read_n deframe (length ps) (concat (map enframe ps) @ rest) = Inr (ps, rest)"
  by (induction ps) (simp_all add: deframe_enframe)

lemma frames_unambiguous:
  assumes "list_all small ps" "list_all small qs" "length ps = length qs"
    and "concat (map enframe ps) @ r = concat (map enframe qs) @ s"
  shows "ps = qs \<and> r = s"
proof -
  have "Inr (ps, r) = read_n deframe (length ps) (concat (map enframe ps) @ r)"
    by (rule read_n_frames [OF assms(1), symmetric])
  also have "\<dots> = read_n deframe (length qs) (concat (map enframe qs) @ s)"
    by (simp only: assms(3,4))
  also have "\<dots> = Inr (qs, s)" by (rule read_n_frames [OF assms(2)])
  finally show ?thesis by simp
qed

end

lemma unat_frame_len: "length p < 2 ^ 32 \<Longrightarrow> unat (word_of_nat (length p) :: u32) = length p"
  by (simp add: unat_of_nat take_bit_nat_def)

lemma take_frame_frame: "fits p \<Longrightarrow> take_frame (frame p @ rest) = Inr (p, rest)"
proof -
  assume p: "fits p"
  then have u: "unat (word_of_nat (length p) :: u32) = length p"
    by (simp add: fits_def unat_frame_len)
  have "\<not> MAX_FRAME_SIZE < (word_of_nat (length p) :: u32)"
    using p by (simp add: word_less_nat_alt u fits_def)
  then show ?thesis
    using u by (simp add: take_frame_def read_exact_def frame_def Let_def)
qed

interpretation wire: frame_format frame take_frame fits
  by unfold_locales (rule take_frame_frame)

section \<open>Lemmas on reading and writing\<close>

lemma put_frame_unbounded:
  "capacity w = None \<Longrightarrow> length p < 2 ^ 32 \<Longrightarrow>
     put_frame p w = (Inr (), w\<lparr>written := written w @ frame p\<rparr>)"
  by (simp add: put_frame_def write_all_def frame_def Let_def)

lemma write_message_unbounded:
  "capacity w = None \<Longrightarrow> ser m = Inr p \<Longrightarrow> length p < 2 ^ 32 \<Longrightarrow>
     write_message ser m w = (Inr (), w\<lparr>written := written w @ frame p\<rparr>)"
  by (simp add: write_message_def put_frame_unbounded)

lemma take_frame_InrD:
  assumes "take_frame r = Inr (buf, rest)"
  shows "fits buf" and "\<exists>hdr. length hdr = 4 \<and> unat (u32_from_le_bytes hdr) = length buf
    \<and> r = hdr @ buf @ rest"
proof -
  let ?len = "u32_from_le_bytes (take 4 r)"
  have r: "4 \<le> length r" "\<not> MAX_FRAME_SIZE < ?len" "unat ?len \<le> length (drop 4 r)"
      "buf = take (unat ?len) (drop 4 r)" "rest = drop (unat ?len) (drop 4 r)"
    using assms by (auto simp: take_frame_def read_exact_def Let_def split: if_splits)
  then have len: "length buf = unat ?len" by simp
  have "\<not> 65536 < unat ?len" using r(2) by (simp add: word_less_nat_alt)
  with len show "fits buf" by (simp add: fits_def)
  show "\<exists>hdr. length hdr = 4 \<and> unat (u32_from_le_bytes hdr) = length buf \<and> r = hdr @ buf @ rest"
  proof (intro exI conjI)
    show "length (take 4 r) = 4" using r(1) by simp
    show "unat ?len = length buf" by (rule len [symmetric])
    show "r = take 4 r @ buf @ rest" unfolding r(4,5) by (simp only: append_take_drop_id)
  qed
qed

lemma read_message_frame:
  "fits p \<Longrightarrow> de p = Inr m \<Longrightarrow> read_message de (frame p @ rest) = Inr (m, rest)"
  by (simp add: read_message_def take_frame_frame)

lemma read_message_Nil [simp]: "read_message de [] = Inl (Io UnexpectedEof)"
  by (simp add: read_message_def take_frame_def read_exact_def)

text \<open>The messages of a list whose encodings fit, and their bytes on the wire.\<close>

fun wire_bytes :: "('m \<Rightarrow> string + byte list) \<Rightarrow> 'm list \<Rightarrow> byte list option" where
  "wire_bytes ser [] = Some []"
| "wire_bytes ser (m # ms) = (case ser m of
      Inl e \<Rightarrow> None
    | Inr p \<Rightarrow> if fits p then map_option (\<lambda>bs. frame p @ bs) (wire_bytes ser ms) else None)"

lemma write_messages_wire:
  "capacity w = None \<Longrightarrow> wire_bytes ser ms = Some bs \<Longrightarrow>
     write_messages ser ms w = (Inr (), w\<lparr>written := written w @ bs\<rparr>)"
proof (induction ms arbitrary: w bs)
  case (Cons m ms)
  then obtain p bs' where p: "ser m = Inr p" "fits p" "wire_bytes ser ms = Some bs'"
      "bs = frame p @ bs'"
    by (auto split: sum.splits if_splits)
  have "write_message ser m w = (Inr (), w\<lparr>written := written w @ frame p\<rparr>)"
    using Cons.prems(1) p by (simp add: write_message_unbounded fits_def)
  with Cons.IH [of "w\<lparr>written := written w @ frame p\<rparr>" bs'] Cons.prems(1) p
  show ?case by simp
qed simp

lemma read_n_wire:
  "wire_bytes ser ms = Some bs \<Longrightarrow> \<forall>m \<in> set ms. \<forall>p. ser m = Inr p \<longrightarrow> de p = Inr m \<Longrightarrow>
     read_n (read_message de) (length ms) (bs @ rest) = Inr (ms, rest)"
proof (induction ms arbitrary: bs)
  case (Cons m ms)
  then obtain p bs' where "ser m = Inr p" "fits p" "wire_bytes ser ms = Some bs'" "bs = frame p @ bs'"
    by (auto split: sum.splits if_splits)
  with Cons show ?case by (simp add: read_message_frame)
qed simp

lemma length_frame [simp]: "length (frame p) = 4 + length p"
  by (simp add: frame_def)

section \<open>Properties\<close>

text \<open>
  Messages written one after the other on a stream are read back the same, in order, and the
  reader stops exactly behind them, provided their encodings decode and fit the frame limit.
\<close>

lemma messages_roundtrip:
  assumes "wire_bytes ser ms = Some bs" "capacity w = None"
    and "\<forall>m \<in> set ms. \<forall>p. ser m = Inr p \<longrightarrow> de p = Inr m"
  shows "write_messages ser ms w = (Inr (), w\<lparr>written := written w @ bs\<rparr>)
    \<and> read_n (read_message de) (length ms) (bs @ rest) = Inr (ms, rest)"
  using write_messages_wire [OF assms(2,1)] read_n_wire [OF assms(1,3)] by simp

lemma messages_roundtrip_instance:
  "\<exists>bs. read_n (read_message Inr) 2 (bs @ [9]) = Inr ([[1], [2, 3]], [9])"
proof -
  obtain bs where bs: "wire_bytes Inr [[1], [2, 3 :: byte]] = Some bs" by (simp add: fits_def)
  from messages_roundtrip [OF bs, of "\<lparr>written = [], capacity = None\<rparr>" Inr "[9]"] show ?thesis
    by (auto simp: numeral_2_eq_2)
qed

text \<open>
  A peer cannot make the reader allocate more than the limit: a header above 64 KiB is refused
  before its payload is read, and a message that is accepted came from at most 65536 bytes.
\<close>

lemma reader_bounded:
  "(length hdr = 4 \<and> 65536 < unat (u32_from_le_bytes hdr) \<longrightarrow>
      (\<exists>e. read_message de (hdr @ r) = Inl (Codec e)))
   \<and> (read_message de r = Inr (m, rest) \<longrightarrow>
      (\<exists>h buf. length h = 4 \<and> r = h @ buf @ rest \<and> length buf \<le> 65536 \<and> de buf = Inr m))"
proof (intro conjI impI)
  assume "length hdr = 4 \<and> 65536 < unat (u32_from_le_bytes hdr)"
  then have "MAX_FRAME_SIZE < u32_from_le_bytes hdr" "length hdr = 4"
    by (simp_all add: word_less_nat_alt)
  then show "\<exists>e. read_message de (hdr @ r) = Inl (Codec e)"
    by (simp add: read_message_def take_frame_def read_exact_def Let_def)
next
  assume "read_message de r = Inr (m, rest)"
  then obtain buf where t: "take_frame r = Inr (buf, rest)" "de buf = Inr m"
    by (auto simp: read_message_def split: sum.splits)
  from take_frame_InrD [OF t(1)] t(2)
  show "\<exists>h buf. length h = 4 \<and> r = h @ buf @ rest \<and> length buf \<le> 65536 \<and> de buf = Inr m"
    by (auto simp: fits_def)
qed

lemma reader_bounded_instance:
  "\<exists>e. read_message (Inr :: byte list \<Rightarrow> string + byte list) ([1, 0, 1, 0] @ [5]) = Inl (Codec e)"
  using reader_bounded [of "[1, 0, 1, 0]" "Inr :: byte list \<Rightarrow> string + byte list" "[5]"]
  by (simp add: u32_from_le_bytes_def)

text \<open>
  The limit is only the reader's. A message whose encoding is above 64 KiB is written without
  an error and then refused by the peer, which leaves the stream unusable.
\<close>

lemma oversized_message_written_not_read:
  assumes "ser m = Inr p" "65536 < length p" "length p < 2 ^ 32" "capacity w = None"
  shows "fst (write_message ser m w) = Inr ()
    \<and> (\<exists>bs e. written (snd (write_message ser m w)) = written w @ bs
          \<and> read_message de (bs @ rest) = Inl (Codec e))"
proof -
  have "MAX_FRAME_SIZE < (word_of_nat (length p) :: u32)"
    using assms(2,3) by (simp add: word_less_nat_alt unat_frame_len)
  then have "\<exists>e. read_message de (frame p @ rest) = Inl (Codec e)"
    by (simp add: read_message_def take_frame_def read_exact_def frame_def Let_def)
  with assms(1,3,4) show ?thesis by (auto simp: write_message_unbounded)
qed

lemma oversized_message_written_not_read_instance:
  "fst (write_message Inr (replicate 70000 0) \<lparr>written = [], capacity = None\<rparr>) = Inr ()"
  using oversized_message_written_not_read [of Inr "replicate 70000 (0 :: byte)"
    "replicate 70000 0" "\<lparr>written = [], capacity = None\<rparr>"
    "Inr :: byte list \<Rightarrow> string + byte list" "[]"]
  by simp

end
