(* ===== verification/Core_Auth.thy ===== *)
theory Core_Auth
  imports Codec
begin

text \<open>
  \<^verbatim>\<open>sqsh-core/src/auth\<close>: the signed challenge, the certificate fingerprint and the
  authorized-keys file, with the line \<^verbatim>\<open>bootstrap/keys.rs\<close> writes into it. SHA-256, SHA-512
  (sha2 crate) and base64 (base64 crate) are arguments.
\<close>

section \<open>The authentication challenge\<close>

definition DOMAIN_SEPARATOR :: "byte list" where
  "DOMAIN_SEPARATOR = str_bytes ''sqsh-auth-challenge-v1''"

text \<open>What the hasher is fed, in order.\<close>

definition challenge_transcript :: "byte list \<Rightarrow> byte list \<Rightarrow> string \<Rightarrow> byte list" where
  "challenge_transcript nonce server_cert_fingerprint username =
     DOMAIN_SEPARATOR @ nonce @ server_cert_fingerprint
       @ u16_to_le_bytes (word_of_nat (length username)) @ str_bytes username"

text \<open>\<open>None\<close> is the panic of the failed \<open>expect\<close>.\<close>

definition build_challenge_payload ::
  "(byte list \<Rightarrow> byte list) \<Rightarrow> byte list \<Rightarrow> byte list \<Rightarrow> string \<Rightarrow> byte list option" where
  "build_challenge_payload sha512 nonce server_cert_fingerprint username =
     (if length username < 65536
      then Some (sha512 (challenge_transcript nonce server_cert_fingerprint username))
      else None)"

definition cert_fingerprint :: "(byte list \<Rightarrow> byte list) \<Rightarrow> byte list \<Rightarrow> byte list" where
  "cert_fingerprint sha256 cert_der = sha256 cert_der"

lemma challenge_transcript_parts:
  assumes "challenge_transcript n f u = challenge_transcript n' f' u'"
    and "length n = 32" "length n' = 32" "length f = 32" "length f' = 32"
  shows "n = n' \<and> f = f' \<and> u = u'"
  using assms by (auto simp: challenge_transcript_def)

lemma build_challenge_payload_Some_iff:
  "(\<exists>d. build_challenge_payload h n f u = Some d) \<longleftrightarrow> length u < 65536"
  by (simp add: build_challenge_payload_def)

section \<open>Authorized keys\<close>

definition KEY_TYPE :: string where
  "KEY_TYPE = ''ml-dsa-65''"

definition authorized_key_line_kept :: "string \<Rightarrow> bool" where
  "authorized_key_line_kept line =
     (let trimmed = trim line in trimmed \<noteq> [] \<and> \<not> starts_with ''#'' trimmed)"

definition parse_authorized_key_line ::
  "(string \<Rightarrow> byte list option) \<Rightarrow> string \<Rightarrow> byte list option" where
  "parse_authorized_key_line decode line = (case split_whitespace line of
      [] \<Rightarrow> None
    | key_type # rest \<Rightarrow>
        if key_type \<noteq> KEY_TYPE then None
        else (case rest of [] \<Rightarrow> None | key_data # _ \<Rightarrow> decode key_data))"

definition parse_authorized_keys ::
  "(string \<Rightarrow> byte list option) \<Rightarrow> string \<Rightarrow> byte list list" where
  "parse_authorized_keys decode contents =
     List.map_filter (parse_authorized_key_line decode)
       (filter authorized_key_line_kept (lines contents))"

definition format_authorized_key :: "(byte list \<Rightarrow> string) \<Rightarrow> byte list \<Rightarrow> string \<Rightarrow> string" where
  "format_authorized_key encode pubkey comment =
     (let b64 = encode pubkey in
      if comment = [] then KEY_TYPE @ '' '' @ b64
      else KEY_TYPE @ '' '' @ b64 @ '' '' @ comment)"

text \<open>
  What the base64 crate documents of its standard engine: decoding inverts encoding, and the
  encoding of a non-empty input is non-empty text over the base64 alphabet.
\<close>

definition base64_laws :: "(byte list \<Rightarrow> string) \<Rightarrow> (string \<Rightarrow> byte list option) \<Rightarrow> bool" where
  "base64_laws encode decode \<longleftrightarrow>
     (\<forall>k. decode (encode k) = Some k \<and> plain (encode k) \<and> (k \<noteq> [] \<longrightarrow> encode k \<noteq> []))"

lemma base64_lawsD:
  assumes "base64_laws encode decode"
  shows "decode (encode k) = Some k" "plain (encode k)" "k \<noteq> [] \<Longrightarrow> encode k \<noteq> []"
  using assms by (auto simp: base64_laws_def)

lemma plain_KEY_TYPE [simp]: "plain KEY_TYPE" "KEY_TYPE \<noteq> []"
  by (simp_all add: KEY_TYPE_def plain_char_def code_def)

lemma strip_cr_append_Cons: "c \<noteq> CR \<Longrightarrow> strip_cr (xs @ c # ys) = xs @ c # strip_cr ys"
proof -
  assume c: "c \<noteq> CR"
  show ?thesis
  proof (cases "strip_suffix [CR] ys")
    case None
    then have "ys = [] \<or> last ys \<noteq> CR"
      by (metis append_butlast_last_id not_None_eq strip_suffix_Some_iff)
    then have "last (xs @ c # ys) \<noteq> CR" using c by auto
    then have "strip_cr (xs @ c # ys) = xs @ c # ys" by (intro strip_cr_id) blast
    with None show ?thesis by (simp add: strip_cr_def)
  next
    case (Some r)
    then have "ys = r @ [CR]" by (simp add: strip_suffix_Some_iff)
    then have "strip_suffix [CR] (xs @ c # ys) = Some (xs @ c # r)"
      by (simp add: strip_suffix_Some_iff)
    with Some show ?thesis by (simp add: strip_cr_def)
  qed
qed

lemma kept_KEY_TYPE: "authorized_key_line_kept (KEY_TYPE @ s)"
proof -
  have "KEY_TYPE @ s = CHR ''m'' # (tl KEY_TYPE @ s)" by (simp add: KEY_TYPE_def)
  moreover have "plain_char CHR ''m''" by (simp add: plain_char_def code_def)
  ultimately obtain r where "trim (KEY_TYPE @ s) = CHR ''m'' # r"
    using trim_Cons_plain by metis
  then show ?thesis by (simp add: authorized_key_line_kept_def starts_with_def)
qed

text \<open>A key line: type, key, and a tail that is empty or set off by a space.\<close>

definition key_line :: "(byte list \<Rightarrow> string) \<Rightarrow> byte list \<Rightarrow> string option \<Rightarrow> string" where
  "key_line encode k tail =
     KEY_TYPE @ CHR '' '' # encode k @ (case tail of None \<Rightarrow> [] | Some c \<Rightarrow> CHR '' '' # c)"

lemma format_key_line:
  "format_authorized_key encode k c = key_line encode k (if c = [] then None else Some c)"
  by (simp add: format_authorized_key_def key_line_def Let_def)

lemma strip_cr_plain: "plain s \<Longrightarrow> strip_cr s = s"
proof (rule strip_cr_id)
  assume s: "plain s"
  show "s = [] \<or> last s \<noteq> CR"
  proof (cases "s = []")
    case False
    then have "last s \<in> set s" by simp
    with plain_no_separators(2) [OF s] show ?thesis by metis
  qed simp
qed

lemma strip_cr_key_line:
  assumes "plain (encode k)"
  shows "strip_cr (key_line encode k tail) = key_line encode k (map_option strip_cr tail)"
proof (cases tail)
  case None
  have "strip_cr (encode k) = encode k" using assms by (rule strip_cr_plain)
  with None show ?thesis by (simp add: key_line_def strip_cr_append_Cons)
next
  case (Some c)
  then show ?thesis
    using strip_cr_append_Cons [of "CHR '' ''" "KEY_TYPE @ CHR '' '' # encode k" c]
    by (simp add: key_line_def)
qed

lemma parse_key_line:
  assumes "base64_laws encode decode" "k \<noteq> []"
  shows "parse_authorized_key_line decode (key_line encode k tail) = Some k"
  using base64_lawsD [OF assms(1), of k] assms(2)
  by (cases tail) (simp_all add: parse_authorized_key_line_def key_line_def split_whitespace_plain)

lemma kept_key_line: "authorized_key_line_kept (key_line encode k tail)"
  unfolding key_line_def by (rule kept_KEY_TYPE)

lemma key_line_no_NL:
  "plain (encode k) \<Longrightarrow> NL \<notin> set c \<Longrightarrow> NL \<notin> set (format_authorized_key encode k c)"
  using plain_no_separators(1) [of "encode k"] plain_no_separators(1) [of KEY_TYPE]
  by (simp add: format_authorized_key_def Let_def)

text \<open>An authorized-keys file with one formatted line per key.\<close>

definition authorized_keys_file :: "(byte list \<Rightarrow> string) \<Rightarrow> (byte list \<times> string) list \<Rightarrow> string" where
  "authorized_keys_file encode entries =
     concat (map (\<lambda>(k, c). format_authorized_key encode k c @ [NL]) entries)"

lemma parse_authorized_keys_line:
  assumes "base64_laws encode decode" "k \<noteq> []" "NL \<notin> set c"
  shows "parse_authorized_keys decode (format_authorized_key encode k c @ NL # rest)
    = k # parse_authorized_keys decode rest"
proof -
  have enc: "plain (encode k)" using assms(1) by (rule base64_lawsD)
  then have "NL \<notin> set (format_authorized_key encode k c)" using assms(3) by (rule key_line_no_NL)
  then have "lines (format_authorized_key encode k c @ NL # rest)
      = strip_cr (format_authorized_key encode k c) # lines rest" by (rule lines_append)
  then show ?thesis
    using parse_key_line [OF assms(1,2)]
    by (simp add: parse_authorized_keys_def format_key_line strip_cr_key_line [of encode, OF enc]
        kept_key_line map_filter_simps)
qed

section \<open>Properties\<close>

text \<open>
  A signature is for one session. Unless the hash collides on their two transcripts, two
  challenges with the same payload are for the same nonce, the same server certificate and the
  same user name; and building one fails exactly for a name that does not fit its 16-bit length.
\<close>

lemma challenge_binds_session:
  assumes "inj_on h {challenge_transcript n f u, challenge_transcript n' f' u'}" "length n = 32" "length n' = 32" "length f = 32" "length f' = 32"
  shows "(build_challenge_payload h n f u = None \<longleftrightarrow> 65536 \<le> length u)
    \<and> (build_challenge_payload h n f u = Some d \<and> build_challenge_payload h n' f' u' = Some d
        \<longrightarrow> n = n' \<and> f = f' \<and> u = u')"
proof (intro conjI impI)
  show "build_challenge_payload h n f u = None \<longleftrightarrow> 65536 \<le> length u"
    by (auto simp: build_challenge_payload_def)
  assume "build_challenge_payload h n f u = Some d \<and> build_challenge_payload h n' f' u' = Some d"
  then have "h (challenge_transcript n f u) = h (challenge_transcript n' f' u')"
    by (auto simp: build_challenge_payload_def split: if_splits)
  then have "challenge_transcript n f u = challenge_transcript n' f' u'"
    by (rule inj_onD [OF assms(1)]) simp_all
  from challenge_transcript_parts [OF this assms(2-5)] show "n = n'" "f = f'" "u = u'" by simp_all
qed

lemma challenge_binds_session_instance:
  "build_challenge_payload id (replicate 32 1) (replicate 32 2) ''alice''
     \<noteq> build_challenge_payload id (replicate 32 1) (replicate 32 2) ''bob''"
  using challenge_binds_session [of id "replicate 32 1" "replicate 32 2" "''alice''"
      "replicate 32 1" "replicate 32 2" "''bob''"]
  by (auto simp: build_challenge_payload_def)

text \<open>
  A file of formatted key lines parses back to exactly its keys, in order, whatever the
  comments (base64 decoding inverts encoding).
\<close>

lemma authorized_keys_roundtrip:
  assumes "base64_laws encode decode"
    and "\<forall>(k, c) \<in> set entries. k \<noteq> [] \<and> NL \<notin> set c"
  shows "parse_authorized_keys decode (authorized_keys_file encode entries) = map fst entries"
  using assms(2)
proof (induction entries)
  case Nil
  show ?case by (simp add: authorized_keys_file_def parse_authorized_keys_def map_filter_simps)
next
  case (Cons e entries)
  obtain k c where e: "e = (k, c)" by (cases e)
  with Cons show ?case
    using parse_authorized_keys_line [OF assms(1), of k c "authorized_keys_file encode entries"]
    by (simp add: authorized_keys_file_def)
qed

text \<open>A concrete text encoding (two letters a byte) that has the laws, for the witnesses.\<close>

definition demo_encode :: "byte list \<Rightarrow> string" where
  "demo_encode bs = concat (map (\<lambda>b. [char_of (65 + unat b div 16), char_of (65 + unat b mod 16)]) bs)"

fun demo_decode :: "string \<Rightarrow> byte list option" where
  "demo_decode [] = Some []"
| "demo_decode [c] = None"
| "demo_decode (a # b # s) =
     map_option (\<lambda>bs. word_of_nat ((code a - 65) * 16 + (code b - 65)) # bs) (demo_decode s)"

lemma nibbles:
  "unat (b :: byte) div 16 < 16" "unat (b :: byte) mod 16 < 16"
  "unat b div 16 * 16 + unat b mod 16 = unat b"
proof -
  have "unat b < 2 ^ LENGTH(8)" by (rule unsigned_less)
  then show "unat b div 16 < 16" by simp
qed simp_all

lemma code_nibble: "n < 16 \<Longrightarrow> code (char_of (65 + n)) = 65 + n"
  by (simp add: code_def)

lemma demo_decode_byte:
  "demo_decode (char_of (65 + unat b div 16) # char_of (65 + unat b mod 16) # s)
    = map_option (\<lambda>bs. b # bs) (demo_decode s)"
  by (simp add: code_nibble nibbles del: of_nat_add of_nat_mult)

lemma demo_base64_laws: "base64_laws demo_encode demo_decode"
proof -
  have "demo_decode (demo_encode k) = Some k" for k
  proof (induction k)
    case (Cons b k)
    have "demo_encode (b # k)
        = char_of (65 + unat b div 16) # char_of (65 + unat b mod 16) # demo_encode k"
      by (simp add: demo_encode_def)
    with Cons show ?case by (simp only: demo_decode_byte) simp
  qed (simp add: demo_encode_def)
  moreover have "plain (demo_encode k)" for k
  proof (induction k)
    case (Cons b k)
    have "plain_char (char_of (65 + n))" if "n < 16" for n :: nat
      using that by (simp add: plain_char_def code_nibble)
    with Cons nibbles [of b] show ?case by (simp add: demo_encode_def)
  qed (simp add: demo_encode_def)
  moreover have "k \<noteq> [] \<longrightarrow> demo_encode k \<noteq> []" for k
    by (cases k) (simp_all add: demo_encode_def)
  ultimately show ?thesis by (simp add: base64_laws_def)
qed

lemma authorized_keys_roundtrip_instance:
  "parse_authorized_keys demo_decode (authorized_keys_file demo_encode
     [([1, 255], ''alice@laptop''), ([7], [])]) = [[1, 255], [7]]"
  using authorized_keys_roundtrip
    [OF demo_base64_laws, of "[([1, 255], ''alice@laptop''), ([7], [])]"]
  by simp

end
