(* ===== verification/Files.thy ===== *)
theory Files
  imports Core_Auth
begin

text \<open>
  The part of \<^verbatim>\<open>std::path\<close> and \<^verbatim>\<open>std::fs\<close> the sources use, on a file-system state:
  nodes with their kind, owner, permission bits and contents, the process' working directory and
  umask. What the kernel refuses (permissions, read-only file systems, full disks) is the
  oracle \<open>fault\<close> of the state and the budget \<open>disk\<close> of bytes it still accepts.
\<close>

unbundle bit_operations_syntax

section \<open>Paths\<close>

text \<open>
  A path is its components, with repeated slashes and inner dots dropped as \<^verbatim>\<open>Path\<close> does when
  it walks or compares them.
\<close>

datatype path = Path (absolute: bool) (comps: "string list")

fun parent :: "path \<Rightarrow> path option" where
  "parent (Path a []) = None"
| "parent (Path a (c # cs)) = Some (Path a (butlast (c # cs)))"

definition path_of_string :: "string \<Rightarrow> path" where
  "path_of_string s =
     (let parts = filter (\<lambda>c. c \<noteq> []) (split_all CHR ''/'' s);
          a = starts_with ''/'' s
      in Path a (if \<not> a \<and> parts \<noteq> [] \<and> hd parts = ''.''
                 then hd parts # filter (\<lambda>c. c \<noteq> ''.'') (tl parts)
                 else filter (\<lambda>c. c \<noteq> ''.'') parts))"

text \<open>\<open>Path::join\<close>: an absolute second path replaces the first.\<close>

definition path_join :: "path \<Rightarrow> string \<Rightarrow> path" where
  "path_join p s = (let q = path_of_string s in
     if absolute q then q
     else Path (absolute p) (comps p @ (if comps p = [] then comps q
                                        else filter (\<lambda>c. c \<noteq> ''.'') (comps q))))"

text \<open>The text of a path, as it is printed or passed to a process.\<close>

definition path_text :: "path \<Rightarrow> string" where
  "path_text p = (if absolute p then ''/'' else []) @ join_with ''/'' (comps p)"

section \<open>UTF-8\<close>

definition cont_byte :: "byte \<Rightarrow> bool" where
  "cont_byte b \<longleftrightarrow> 0x80 \<le> b \<and> b \<le> 0xBF"

text \<open>Well-formed sequences: no overlong forms, no surrogates, nothing above U+10FFFF.\<close>

fun utf8_valid :: "byte list \<Rightarrow> bool" where
  "utf8_valid [] = True"
| "utf8_valid (a # bs) =
     (if a < 0x80 then utf8_valid bs
      else case bs of [] \<Rightarrow> False | b # r2 \<Rightarrow>
        if 0xC2 \<le> a \<and> a \<le> 0xDF then cont_byte b \<and> utf8_valid r2
        else case r2 of [] \<Rightarrow> False | c # r3 \<Rightarrow>
          if 0xE0 \<le> a \<and> a \<le> 0xEF
          then cont_byte b \<and> cont_byte c \<and> (a = 0xE0 \<longrightarrow> 0xA0 \<le> b) \<and> (a = 0xED \<longrightarrow> b \<le> 0x9F)
            \<and> utf8_valid r3
          else case r3 of [] \<Rightarrow> False | d # r4 \<Rightarrow>
            0xF0 \<le> a \<and> a \<le> 0xF4 \<and> cont_byte b \<and> cont_byte c \<and> cont_byte d
            \<and> (a = 0xF0 \<longrightarrow> 0x90 \<le> b) \<and> (a = 0xF4 \<longrightarrow> b \<le> 0x8F) \<and> utf8_valid r4)"

definition bytes_str :: "byte list \<Rightarrow> string" where
  "bytes_str bs = map (\<lambda>b. char_of (unat b)) bs"

lemma bytes_str_bytes [simp]: "bytes_str (str_bytes s) = s"
proof -
  have "char_of (unat (of_char c :: byte)) = c" for c
    by (simp add: of_char_byte unat_of_nat take_bit_nat_def)
  then show ?thesis by (simp add: bytes_str_def str_bytes_def map_idI)
qed

lemma bytes_str_simps [simp]:
  "bytes_str [] = []" "bytes_str (xs @ ys) = bytes_str xs @ bytes_str ys"
  "bytes_str (b # bs) = char_of (unat b) # bytes_str bs"
  by (simp_all add: bytes_str_def)

definition ascii_text :: "string \<Rightarrow> bool" where
  "ascii_text s \<longleftrightarrow> list_all (\<lambda>c. code c < 128) s"

lemma utf8_valid_ascii: "ascii_text s \<Longrightarrow> utf8_valid (str_bytes s)"
proof (induction s)
  case (Cons c s)
  have "(of_char c :: byte) < 0x80"
    using Cons.prems by (simp add: ascii_text_def code_def of_char_byte word_less_nat_alt
        unat_of_nat take_bit_nat_def)
  with Cons show ?case by (simp add: ascii_text_def str_bytes_def)
qed (simp add: str_bytes_def)

lemma ascii_text_simps [simp]:
  "ascii_text []" "ascii_text (s @ t) \<longleftrightarrow> ascii_text s \<and> ascii_text t"
  "ascii_text (c # s) \<longleftrightarrow> code c < 128 \<and> ascii_text s"
  by (simp_all add: ascii_text_def)

lemma ascii_text_plain: "plain s \<Longrightarrow> ascii_text s"
  by (auto simp: plain_def ascii_text_def list_all_iff plain_char_def)

section \<open>The file system\<close>

datatype node_kind = RegularFile | Directory | Socket

record fnode =
  nd_kind :: node_kind
  nd_uid :: u32
  nd_mode :: u32
  nd_data :: "byte list"

text \<open>The octal modes and masks of the sources.\<close>

abbreviation mode_600 :: u32 where "mode_600 \<equiv> 0x180"
abbreviation mode_700 :: u32 where "mode_700 \<equiv> 0x1C0"
abbreviation mask_077 :: u32 where "mask_077 \<equiv> 0x3F"
abbreviation mask_022 :: u32 where "mask_022 \<equiv> 0x12"

datatype fs_op = Stat | ReadFile | OpenWrite | Chmod | Mkdir | Unlink | BindSocket

record fsys =
  nodes :: "string list \<Rightarrow> fnode option"
  cwd :: "string list"
  proc_uid :: u32
  umask :: u32
  fault :: "fs_op \<Rightarrow> string list \<Rightarrow> io_kind option"
  disk :: "nat option"

text \<open>The node a path names; the empty path names none.\<close>

definition resolve :: "fsys \<Rightarrow> path \<Rightarrow> string list" where
  "resolve fs p = (if absolute p then [] else cwd fs) @ filter (\<lambda>c. c \<noteq> ''.'') (comps p)"

definition empty_path :: "path \<Rightarrow> bool" where
  "empty_path p \<longleftrightarrow> \<not> absolute p \<and> comps p = []"

definition fs_check :: "fs_op \<Rightarrow> path \<Rightarrow> fsys \<Rightarrow> io_kind option" where
  "fs_check op p fs = (if empty_path p then Some NotFound else fault fs op (resolve fs p))"

definition metadata :: "path \<Rightarrow> fsys \<Rightarrow> io_kind + fnode" where
  "metadata p fs = (case fs_check Stat p fs of
      Some e \<Rightarrow> Inl e
    | None \<Rightarrow> ok_or NotFound (nodes fs (resolve fs p)))"

definition exists :: "path \<Rightarrow> fsys \<Rightarrow> bool" where
  "exists p fs \<longleftrightarrow> is_ok (metadata p fs)"

definition is_dir :: "path \<Rightarrow> fsys \<Rightarrow> bool" where
  "is_dir p fs \<longleftrightarrow> (case metadata p fs of Inl e \<Rightarrow> False | Inr n \<Rightarrow> nd_kind n = Directory)"

definition read :: "path \<Rightarrow> fsys \<Rightarrow> io_kind + byte list" where
  "read p fs = (case fs_check ReadFile p fs of
      Some e \<Rightarrow> Inl e
    | None \<Rightarrow> (case nodes fs (resolve fs p) of
        None \<Rightarrow> Inl NotFound
      | Some n \<Rightarrow> if nd_kind n = RegularFile then Inr (nd_data n) else Inl OtherIo))"

definition read_to_string :: "path \<Rightarrow> fsys \<Rightarrow> io_kind + string" where
  "read_to_string p fs = res_bind (read p fs)
     (\<lambda>bs. if utf8_valid bs then Inr (bytes_str bs) else Inl OtherIo)"

text \<open>
  Opening for writing: \<open>create_new\<close> refuses an existing node; \<open>create(true).truncate(true)\<close>
  empties it and keeps its owner and mode. A new file's mode is cut by the umask. A missing parent
  directory is an error.
\<close>

definition parent_is_dir :: "path \<Rightarrow> fsys \<Rightarrow> bool" where
  "parent_is_dir p fs \<longleftrightarrow>
     (case nodes fs (butlast (resolve fs p)) of None \<Rightarrow> False | Some n \<Rightarrow> nd_kind n = Directory)"

definition put_node :: "path \<Rightarrow> fnode \<Rightarrow> fsys \<Rightarrow> fsys" where
  "put_node p n fs = fs\<lparr>nodes := (nodes fs)(resolve fs p \<mapsto> n)\<rparr>"

definition new_file :: "u32 \<Rightarrow> fsys \<Rightarrow> fnode" where
  "new_file mode fs =
     \<lparr>nd_kind = RegularFile, nd_uid = proc_uid fs, nd_mode = mode AND NOT (umask fs), nd_data = []\<rparr>"

definition create_new :: "path \<Rightarrow> u32 \<Rightarrow> fsys \<Rightarrow> (io_kind + unit) \<times> fsys" where
  "create_new p mode fs = (case fs_check OpenWrite p fs of
      Some e \<Rightarrow> (Inl e, fs)
    | None \<Rightarrow>
        if nodes fs (resolve fs p) \<noteq> None then (Inl AlreadyExists, fs)
        else if \<not> parent_is_dir p fs then (Inl NotFound, fs)
        else (Inr (), put_node p (new_file mode fs) fs))"

definition create_truncate :: "path \<Rightarrow> u32 \<Rightarrow> fsys \<Rightarrow> (io_kind + unit) \<times> fsys" where
  "create_truncate p mode fs = (case fs_check OpenWrite p fs of
      Some e \<Rightarrow> (Inl e, fs)
    | None \<Rightarrow>
        (case nodes fs (resolve fs p) of
           Some n \<Rightarrow> if nd_kind n = RegularFile
             then (Inr (), put_node p (n\<lparr>nd_data := []\<rparr>) fs) else (Inl OtherIo, fs)
         | None \<Rightarrow> if \<not> parent_is_dir p fs then (Inl NotFound, fs)
             else (Inr (), put_node p (new_file mode fs) fs)))"

text \<open>\<open>write_all\<close> on a file just opened at its start; a full disk leaves what fitted.\<close>

definition file_write_all :: "path \<Rightarrow> byte list \<Rightarrow> fsys \<Rightarrow> (io_kind + unit) \<times> fsys" where
  "file_write_all p bs fs = (case nodes fs (resolve fs p) of
      None \<Rightarrow> (Inl NotFound, fs)
    | Some n \<Rightarrow> (case disk fs of
        None \<Rightarrow> (Inr (), put_node p (n\<lparr>nd_data := nd_data n @ bs\<rparr>) fs)
      | Some k \<Rightarrow>
          if length bs \<le> k
          then (Inr (), (put_node p (n\<lparr>nd_data := nd_data n @ bs\<rparr>) fs)\<lparr>disk := Some (k - length bs)\<rparr>)
          else (Inl OtherIo, (put_node p (n\<lparr>nd_data := nd_data n @ take k bs\<rparr>) fs)\<lparr>disk := Some 0\<rparr>)))"

definition set_permissions :: "path \<Rightarrow> u32 \<Rightarrow> fsys \<Rightarrow> (io_kind + unit) \<times> fsys" where
  "set_permissions p mode fs = (case fs_check Chmod p fs of
      Some e \<Rightarrow> (Inl e, fs)
    | None \<Rightarrow> (case nodes fs (resolve fs p) of
        None \<Rightarrow> (Inl NotFound, fs)
      | Some n \<Rightarrow> (Inr (), put_node p (n\<lparr>nd_mode := mode\<rparr>) fs)))"

text \<open>\<open>create_dir_all\<close>: the missing ancestors first; the empty path is fine.\<close>

definition mkdir :: "string list \<Rightarrow> fsys \<Rightarrow> (io_kind + unit) \<times> fsys" where
  "mkdir cs fs = (case fault fs Mkdir cs of
      Some e \<Rightarrow> (Inl e, fs)
    | None \<Rightarrow> (Inr (), fs\<lparr>nodes := (nodes fs)(cs \<mapsto>
        \<lparr>nd_kind = Directory, nd_uid = proc_uid fs, nd_mode = 0x1FF AND NOT (umask fs),
         nd_data = []\<rparr>)\<rparr>))"

fun mkdirs :: "string list \<Rightarrow> string list \<Rightarrow> fsys \<Rightarrow> (io_kind + unit) \<times> fsys" where
  "mkdirs pre [] fs = (Inr (), fs)"
| "mkdirs pre (c # cs) fs =
     (let here = pre @ [c] in
      case nodes fs here of
        Some n \<Rightarrow> if nd_kind n = Directory then mkdirs here cs fs else (Inl AlreadyExists, fs)
      | None \<Rightarrow> (case mkdir here fs of
          (Inl e, fs') \<Rightarrow> (Inl e, fs')
        | (Inr _, fs') \<Rightarrow> mkdirs here cs fs'))"

definition create_dir_all :: "path \<Rightarrow> fsys \<Rightarrow> (io_kind + unit) \<times> fsys" where
  "create_dir_all p fs = (if empty_path p \<or> is_dir p fs then (Inr (), fs)
     else mkdirs [] (resolve fs p) fs)"

text \<open>\<open>std::fs::write\<close>.\<close>

definition write_file :: "path \<Rightarrow> byte list \<Rightarrow> fsys \<Rightarrow> (io_kind + unit) \<times> fsys" where
  "write_file p bs fs = (case create_truncate p 0x1B6 fs of
      (Inl e, fs1) \<Rightarrow> (Inl e, fs1)
    | (Inr _, fs1) \<Rightarrow> file_write_all p bs fs1)"

text \<open>
  \<open>remove_file\<close> takes the name of a file or a socket away; binding a socket makes its node, and fails
  where there is one. Without symbolic links, \<open>symlink_metadata\<close> is \<open>metadata\<close>.
\<close>

definition remove_file :: "path \<Rightarrow> fsys \<Rightarrow> (io_kind + unit) \<times> fsys" where
  "remove_file p fs = (case fs_check Unlink p fs of
      Some e \<Rightarrow> (Inl e, fs)
    | None \<Rightarrow> (case nodes fs (resolve fs p) of
        None \<Rightarrow> (Inl NotFound, fs)
      | Some n \<Rightarrow> if nd_kind n = Directory then (Inl OtherIo, fs)
          else (Inr (), fs\<lparr>nodes := (nodes fs)(resolve fs p := None)\<rparr>)))"

definition bind_socket :: "path \<Rightarrow> fsys \<Rightarrow> (io_kind + unit) \<times> fsys" where
  "bind_socket p fs = (case fs_check BindSocket p fs of
      Some e \<Rightarrow> (Inl e, fs)
    | None \<Rightarrow>
        if nodes fs (resolve fs p) \<noteq> None then (Inl OtherIo, fs)
        else if \<not> parent_is_dir p fs then (Inl NotFound, fs)
        else (Inr (), put_node p \<lparr>nd_kind = Socket, nd_uid = proc_uid fs,
          nd_mode = 0x1FF AND NOT (umask fs), nd_data = []\<rparr> fs))"

section \<open>Lemmas\<close>

lemma mode_600_private [simp]: "(mode_600 AND NOT m) AND mask_077 = 0"
proof -
  have "(mode_600 AND NOT m) AND mask_077 = (mode_600 AND mask_077) AND NOT m"
    by (simp only: ac_simps)
  then show ?thesis by simp
qed

lemma fs_frame [simp]:
  "cwd (put_node p n fs) = cwd fs" "fault (put_node p n fs) = fault fs"
  "disk (put_node p n fs) = disk fs" "proc_uid (put_node p n fs) = proc_uid fs"
  "umask (put_node p n fs) = umask fs"
  "nodes (put_node p n fs) = (nodes fs)(resolve fs p \<mapsto> n)"
  "resolve (put_node p n fs) q = resolve fs q"
  "fs_check op q (put_node p n fs) = fs_check op q fs"
  by (simp_all add: put_node_def resolve_def fs_check_def)

lemma new_file_simps [simp]:
  "nd_kind (new_file m fs) = RegularFile" "nd_data (new_file m fs) = []"
  "nd_mode (new_file m fs) = m AND NOT (umask fs)"
  by (simp_all add: new_file_def)

lemma resolve_cong: "cwd fs' = cwd fs \<Longrightarrow> resolve fs' p = resolve fs p"
  by (simp add: resolve_def)

text \<open>Operations that only touch nodes and the disk budget.\<close>

definition same_setting :: "fsys \<Rightarrow> fsys \<Rightarrow> bool" where
  "same_setting fs fs' \<longleftrightarrow> cwd fs' = cwd fs \<and> fault fs' = fault fs \<and> umask fs' = umask fs
     \<and> proc_uid fs' = proc_uid fs"

lemma same_settingD:
  assumes "same_setting fs fs'"
  shows "cwd fs' = cwd fs" "fault fs' = fault fs" "umask fs' = umask fs"
    "resolve fs' p = resolve fs p" "fs_check op p fs' = fs_check op p fs"
  using assms by (simp_all add: same_setting_def resolve_def fs_check_def)

lemma same_setting_refl [simp]: "same_setting fs fs"
  by (simp add: same_setting_def)

lemma same_setting_trans: "same_setting a b \<Longrightarrow> same_setting b c \<Longrightarrow> same_setting a c"
  by (simp add: same_setting_def)

lemma same_setting_put_node [simp]: "same_setting fs (put_node p n fs)"
  by (simp add: same_setting_def)

lemma create_new_setting: "create_new p m fs = (r, fs') \<Longrightarrow> same_setting fs fs'"
  by (auto simp: create_new_def split: option.splits if_splits)

lemma create_truncate_setting: "create_truncate p m fs = (r, fs') \<Longrightarrow> same_setting fs fs'"
  by (auto simp: create_truncate_def split: option.splits if_splits)

lemma file_write_all_setting: "file_write_all p bs fs = (r, fs') \<Longrightarrow> same_setting fs fs'"
  by (auto simp: file_write_all_def same_setting_def split: option.splits if_splits)

lemma set_permissions_setting: "set_permissions p m fs = (r, fs') \<Longrightarrow> same_setting fs fs'"
  by (auto simp: set_permissions_def split: option.splits)

lemma mkdir_setting: "mkdir cs fs = (r, fs') \<Longrightarrow> same_setting fs fs'"
  by (auto simp: mkdir_def same_setting_def split: option.splits)

lemma mkdirs_setting: "mkdirs pre cs fs = (r, fs') \<Longrightarrow> same_setting fs fs'"
  by (induction pre cs fs arbitrary: r fs' rule: mkdirs.induct)
    (auto simp: Let_def dest!: mkdir_setting split: option.splits if_splits prod.splits sum.splits
      intro: same_setting_trans)

lemma create_dir_all_setting: "create_dir_all p fs = (r, fs') \<Longrightarrow> same_setting fs fs'"
  by (auto simp: create_dir_all_def dest: mkdirs_setting split: if_splits)

lemma write_file_setting: "write_file p bs fs = (r, fs') \<Longrightarrow> same_setting fs fs'"
  by (auto simp: write_file_def dest!: create_truncate_setting file_write_all_setting
      split: prod.splits sum.splits intro: same_setting_trans)

lemma remove_file_setting: "remove_file p fs = (r, fs') \<Longrightarrow> same_setting fs fs'"
  by (auto simp: remove_file_def same_setting_def split: option.splits if_splits)

lemma bind_socket_setting: "bind_socket p fs = (r, fs') \<Longrightarrow> same_setting fs fs'"
  by (auto simp: bind_socket_def split: option.splits if_splits)

lemmas setting_facts = remove_file_setting bind_socket_setting create_new_setting create_truncate_setting file_write_all_setting
  set_permissions_setting create_dir_all_setting write_file_setting

lemma create_new_InrD:
  "create_new p m fs = (Inr (), fs') \<Longrightarrow>
     nodes fs (resolve fs p) = None \<and> fs' = put_node p (new_file m fs) fs"
  by (auto simp: create_new_def split: option.splits if_splits)

lemma create_truncate_InrD:
  assumes "create_truncate p m fs = (Inr (), fs')"
  shows "\<exists>n. nodes fs' = (nodes fs)(resolve fs p \<mapsto> n) \<and> nd_data n = [] \<and> nd_kind n = RegularFile"
proof (cases "nodes fs (resolve fs p)")
  case None
  with assms have "fs' = put_node p (new_file m fs) fs"
    by (simp add: create_truncate_def split: option.splits if_splits)
  then show ?thesis by (intro exI [of _ "new_file m fs"]) (simp add: new_file_def)
next
  case (Some n)
  with assms have "fs' = put_node p (n\<lparr>nd_data := []\<rparr>) fs" "nd_kind n = RegularFile"
    by (simp_all add: create_truncate_def split: option.splits if_splits)
  then show ?thesis by (intro exI [of _ "n\<lparr>nd_data := []\<rparr>"]) simp
qed

lemma file_write_all_InrD:
  "file_write_all p bs fs = (Inr (), fs') \<Longrightarrow> nodes fs (resolve fs p) = Some n \<Longrightarrow>
     nodes fs' = (nodes fs)(resolve fs p \<mapsto> n\<lparr>nd_data := nd_data n @ bs\<rparr>)"
  by (auto simp: file_write_all_def split: option.splits if_splits)

lemma set_permissions_InrD:
  "set_permissions p m fs = (Inr (), fs') \<Longrightarrow> nodes fs (resolve fs p) = Some n \<Longrightarrow>
     nodes fs' = (nodes fs)(resolve fs p \<mapsto> n\<lparr>nd_mode := m\<rparr>)"
  by (auto simp: set_permissions_def split: option.splits)

lemma metadata_Some:
  "fs_check Stat p fs = None \<Longrightarrow> nodes fs (resolve fs p) = Some n \<Longrightarrow> metadata p fs = Inr n"
  by (simp add: metadata_def)

lemma read_Some:
  "fs_check ReadFile p fs = None \<Longrightarrow> nodes fs (resolve fs p) = Some n \<Longrightarrow>
     nd_kind n = RegularFile \<Longrightarrow> read p fs = Inr (nd_data n)"
  by (simp add: read_def)

end
