(* ===== verification/Key_Files.thy ===== *)
theory Key_Files
  imports Files
begin

text \<open>
  Secret files: \<^verbatim>\<open>sqsh/src/auth.rs\<close>, \<^verbatim>\<open>bootstrap/keys.rs\<close>, \<^verbatim>\<open>bin/sqsh-keygen.rs\<close> and
  \<^verbatim>\<open>sqshd/src/keys.rs\<close>. Randomness and the key libraries (ml-dsa, rcgen, rustls-pemfile) are
  arguments. What the three writers of secrets promise is the locale \<open>private_file_store\<close>.
\<close>

datatype file_error =
    FileIo io_kind
  | Accessible u32
  | Not_a_seed
  | Already_exists path
  | Library string
  | No_key_in_pem
  | No_cert_in_pem

definition io :: "(io_kind + 'a) \<times> fsys \<Rightarrow> (file_error + 'a) \<times> fsys" where
  "io r = (case r of (Inl e, fs) \<Rightarrow> (Inl (FileIo e), fs) | (Inr a, fs) \<Rightarrow> (Inr a, fs))"

definition io_res :: "io_kind + 'a \<Rightarrow> file_error + 'a" where
  "io_res r = (case r of Inl e \<Rightarrow> Inl (FileIo e) | Inr a \<Rightarrow> Inr a)"

text \<open>Sequencing of operations on the file system, stopping at the first error.\<close>

definition then_do ::
  "('e + 'a) \<times> fsys \<Rightarrow> ('a \<Rightarrow> fsys \<Rightarrow> ('e + 'b) \<times> fsys) \<Rightarrow> ('e + 'b) \<times> fsys" where
  "then_do r f = (case r of (Inl e, fs) \<Rightarrow> (Inl e, fs) | (Inr a, fs) \<Rightarrow> f a fs)"

lemma io_simps [simp]:
  "io (Inl e, fs) = (Inl (FileIo e), fs)" "io (Inr a, fs) = (Inr a, fs)"
  "io_res (Inl e) = Inl (FileIo e)" "io_res (Inr a) = Inr a"
  by (simp_all add: io_def io_res_def)

lemma then_do_simps [simp]:
  "then_do (Inl e, fs) f = (Inl e, fs)" "then_do (Inr a, fs) f = f a fs"
  by (simp_all add: then_do_def)

lemma io_InrD: "io r = (Inr a, fs) \<Longrightarrow> r = (Inr a, fs)"
  by (auto simp: io_def split: prod.splits sum.splits)

lemma then_do_InrE:
  assumes "then_do r f = (Inr b, fs')"
  obtains a fs1 where "r = (Inr a, fs1)" "f a fs1 = (Inr b, fs')"
  using assms by (auto simp: then_do_def split: prod.splits sum.splits)

section \<open>The client's identity (auth.rs, bootstrap/keys.rs)\<close>

definition validate_private_key_permissions :: "path \<Rightarrow> fsys \<Rightarrow> file_error + unit" where
  "validate_private_key_permissions p fs = res_bind (io_res (metadata p fs))
     (\<lambda>m. if nd_mode m AND mask_077 \<noteq> 0 then Inl (Accessible (nd_mode m AND 0x1FF)) else Inr ())"

definition load_signing_key :: "path \<Rightarrow> fsys \<Rightarrow> file_error + byte list" where
  "load_signing_key p fs = res_bind (validate_private_key_permissions p fs)
     (\<lambda>_. io_res (read p fs))"

definition set_dir_owner_only_permissions :: "path \<Rightarrow> fsys \<Rightarrow> (file_error + unit) \<times> fsys" where
  "set_dir_owner_only_permissions p fs = io (set_permissions p mode_700 fs)"

definition write_seed_owner_only ::
  "path \<Rightarrow> byte list \<Rightarrow> fsys \<Rightarrow> (file_error + unit) \<times> fsys" where
  "write_seed_owner_only p seed fs =
     then_do (io (create_new p mode_600 fs)) (\<lambda>_ fs. io (file_write_all p seed fs))"

text \<open>\<open>ml_dsa::B32::try_from\<close>, then the verifying key of the seed.\<close>

definition seed_public_key :: "(byte list \<Rightarrow> byte list) \<Rightarrow> byte list \<Rightarrow> file_error + byte list" where
  "seed_public_key key_gen seed =
     (if length seed = 32 then Inr (key_gen seed) else Inl Not_a_seed)"

text \<open>\<open>create_dir_all\<close> on the parent, which is then made private.\<close>

definition make_private_parent :: "path \<Rightarrow> fsys \<Rightarrow> (file_error + unit) \<times> fsys" where
  "make_private_parent p fs = (case parent p of
      None \<Rightarrow> (Inr (), fs)
    | Some d \<Rightarrow> then_do (io (create_dir_all d fs)) (\<lambda>_ fs. set_dir_owner_only_permissions d fs))"

definition bootstrap_validate_private_key_permissions :: "path \<Rightarrow> fsys \<Rightarrow> file_error + unit" where
  "bootstrap_validate_private_key_permissions p fs = res_bind (io_res (metadata p fs))
     (\<lambda>m. if nd_mode m AND mask_077 \<noteq> 0 then Inl (Accessible (nd_mode m AND 0x1FF)) else Inr ())"

lemma bootstrap_validate_eq [simp]:
  "bootstrap_validate_private_key_permissions p fs = validate_private_key_permissions p fs"
  by (simp add: bootstrap_validate_private_key_permissions_def validate_private_key_permissions_def)

definition ensure_client_keypair ::
  "byte list \<Rightarrow> (byte list \<Rightarrow> byte list) \<Rightarrow> path \<Rightarrow> fsys \<Rightarrow> (file_error + byte list) \<times> fsys" where
  "ensure_client_keypair fresh key_gen p fs =
     (if exists p fs
      then (res_bind (bootstrap_validate_private_key_permissions p fs) (\<lambda>_.
            res_bind (io_res (read p fs)) (seed_public_key key_gen)), fs)
      else then_do (make_private_parent p fs) (\<lambda>_ fs.
           then_do (write_seed_owner_only p fresh fs) (\<lambda>_ fs. (seed_public_key key_gen fresh, fs))))"

section \<open>sqsh-keygen\<close>

definition keygen_validate_private_key_permissions :: "path \<Rightarrow> fsys \<Rightarrow> file_error + unit" where
  "keygen_validate_private_key_permissions p fs = res_bind (io_res (metadata p fs))
     (\<lambda>m. if nd_mode m AND mask_077 \<noteq> 0 then Inl (Accessible (nd_mode m AND 0x1FF)) else Inr ())"

definition keygen_write_seed_owner_only ::
  "path \<Rightarrow> byte list \<Rightarrow> fsys \<Rightarrow> (file_error + unit) \<times> fsys" where
  "keygen_write_seed_owner_only p seed fs =
     then_do (io (create_new p mode_600 fs)) (\<lambda>_ fs. io (file_write_all p seed fs))"

definition keygen_set_dir_owner_only_permissions :: "path \<Rightarrow> fsys \<Rightarrow> (file_error + unit) \<times> fsys"
  where
  "keygen_set_dir_owner_only_permissions p fs = io (set_permissions p mode_700 fs)"

text \<open>
  The environment is a map. The host name is the buffer \<open>gethostname\<close> filled, \<open>None\<close> when it
  failed: it is cut at the first zero byte, must be UTF-8, and is trimmed.
\<close>

type_synonym environment = "string \<Rightarrow> string option"

definition resolve_hostname :: "byte list option \<Rightarrow> string option" where
  "resolve_hostname buf = (case buf of
      None \<Rightarrow> None
    | Some b \<Rightarrow>
        let host = takeWhile (\<lambda>x. x \<noteq> 0) b in
        if \<not> utf8_valid host then None
        else let t = trim (bytes_str host) in if t = [] then None else Some t)"

definition user_at_host_with :: "string \<Rightarrow> string option \<Rightarrow> string" where
  "user_at_host_with user host =
     user @ ''@'' @ (case host of None \<Rightarrow> ''localhost'' | Some h \<Rightarrow> h)"

definition user_at_host :: "environment \<Rightarrow> byte list option \<Rightarrow> string" where
  "user_at_host env buf =
     user_at_host_with
       (case env ''USER'' of Some u \<Rightarrow> u
        | None \<Rightarrow> (case env ''LOGNAME'' of Some u \<Rightarrow> u | None \<Rightarrow> ''user''))
       (resolve_hostname buf)"

definition default_key_path :: "environment \<Rightarrow> path" where
  "default_key_path env =
     path_join (path_join (path_join
       (path_of_string (case env ''HOME'' of Some h \<Rightarrow> h | None \<Rightarrow> ''/tmp''))
       ''.config'') ''sqsh'') ''id_ml_dsa_65''"

text \<open>The result of \<open>generate\<close> and \<open>print_pubkey\<close> is the line they print.\<close>

definition generate ::
  "byte list \<Rightarrow> (byte list \<Rightarrow> byte list) \<Rightarrow> (byte list \<Rightarrow> string) \<Rightarrow> environment
    \<Rightarrow> byte list option \<Rightarrow> path \<Rightarrow> fsys \<Rightarrow> (file_error + string) \<times> fsys" where
  "generate fresh key_gen encode env host p fs =
     (if exists p fs then (Inl (Already_exists p), fs)
      else then_do (case parent p of
             None \<Rightarrow> (Inr (), fs)
           | Some d \<Rightarrow> then_do (io (create_dir_all d fs))
               (\<lambda>_ fs. keygen_set_dir_owner_only_permissions d fs)) (\<lambda>_ fs.
           then_do (keygen_write_seed_owner_only p fresh fs) (\<lambda>_ fs.
             (res_bind (seed_public_key key_gen fresh)
                (\<lambda>k. Inr (format_authorized_key encode k (user_at_host env host))), fs))))"

definition print_pubkey ::
  "(byte list \<Rightarrow> byte list) \<Rightarrow> (byte list \<Rightarrow> string) \<Rightarrow> environment \<Rightarrow> byte list option
    \<Rightarrow> path \<Rightarrow> fsys \<Rightarrow> file_error + string" where
  "print_pubkey key_gen encode env host p fs =
     res_bind (keygen_validate_private_key_permissions p fs) (\<lambda>_.
     res_bind (io_res (read p fs)) (\<lambda>seed.
     res_bind (seed_public_key key_gen seed) (\<lambda>k.
       Inr (format_authorized_key encode k (user_at_host env host)))))"

definition keygen_main ::
  "byte list \<Rightarrow> (byte list \<Rightarrow> byte list) \<Rightarrow> (byte list \<Rightarrow> string) \<Rightarrow> environment
    \<Rightarrow> byte list option \<Rightarrow> path option \<Rightarrow> bool \<Rightarrow> fsys \<Rightarrow> (file_error + string) \<times> fsys" where
  "keygen_main fresh key_gen encode env host file print_public fs =
     (let p = (case file of Some f \<Rightarrow> f | None \<Rightarrow> default_key_path env) in
      if print_public then (print_pubkey key_gen encode env host p fs, fs)
      else generate fresh key_gen encode env host p fs)"

section \<open>The server's TLS identity (sqshd/src/keys.rs)\<close>

definition create_restrictive_dir_if_missing :: "path \<Rightarrow> fsys \<Rightarrow> (file_error + unit) \<times> fsys" where
  "create_restrictive_dir_if_missing p fs =
     (if exists p fs then (Inr (), fs)
      else then_do (io (create_dir_all p fs)) (\<lambda>_ fs. io (set_permissions p mode_700 fs)))"

definition write_private_key_owner_only ::
  "path \<Rightarrow> string \<Rightarrow> fsys \<Rightarrow> (file_error + unit) \<times> fsys" where
  "write_private_key_owner_only p pem fs =
     then_do (io (create_new p mode_600 fs)) (\<lambda>_ fs. io (file_write_all p (str_bytes pem) fs))"

definition host_validate_private_key_permissions :: "path \<Rightarrow> fsys \<Rightarrow> file_error + unit" where
  "host_validate_private_key_permissions p fs = res_bind (io_res (metadata p fs))
     (\<lambda>m. if nd_mode m AND mask_077 \<noteq> 0 then Inl (Accessible (nd_mode m AND 0x1FF)) else Inr ())"

text \<open>
  The PEM library: \<open>private_key\<close> finds the first key of a text, \<open>first_cert\<close> the first
  certificate. A generated identity is its two PEM texts and the two DER values they stand for.
\<close>

record ('c, 'k) pem_library =
  private_key :: "string \<Rightarrow> string + 'k option"
  first_cert :: "string \<Rightarrow> (string + 'c) option"

record ('c, 'k) tls_identity =
  key_pem :: string
  cert_pem :: string
  key_der :: 'k
  cert_der :: 'c

definition load_tls_identity ::
  "('c, 'k) pem_library \<Rightarrow> path \<Rightarrow> path \<Rightarrow> fsys \<Rightarrow> file_error + 'c \<times> 'k" where
  "load_tls_identity lib key_path cert_path fs =
     res_bind (host_validate_private_key_permissions key_path fs) (\<lambda>_.
     res_bind (io_res (read_to_string key_path fs)) (\<lambda>kp.
     res_bind (io_res (read_to_string cert_path fs)) (\<lambda>cp.
     res_bind (case private_key lib kp of
         Inl e \<Rightarrow> Inl (Library e)
       | Inr k \<Rightarrow> ok_or No_key_in_pem k) (\<lambda>key.
     res_bind (case first_cert lib cp of
         None \<Rightarrow> Inl No_cert_in_pem
       | Some (Inl e) \<Rightarrow> Inl (Library e)
       | Some (Inr c) \<Rightarrow> Inr c) (\<lambda>cert.
       Inr (cert, key))))))"

definition load_or_generate_tls_identity ::
  "('c, 'k) pem_library \<Rightarrow> string + ('c, 'k) tls_identity \<Rightarrow> path \<Rightarrow> path \<Rightarrow> fsys
    \<Rightarrow> (file_error + 'c \<times> 'k) \<times> fsys" where
  "load_or_generate_tls_identity lib generated key_path cert_path fs =
     (if exists key_path fs \<and> exists cert_path fs
      then (load_tls_identity lib key_path cert_path fs, fs)
      else case generated of
          Inl e \<Rightarrow> (Inl (Library e), fs)
        | Inr g \<Rightarrow>
            then_do (case parent key_path of
                None \<Rightarrow> (Inr (), fs)
              | Some d \<Rightarrow> create_restrictive_dir_if_missing d fs) (\<lambda>_ fs.
            then_do (io (write_file cert_path (str_bytes (cert_pem g)) fs)) (\<lambda>_ fs.
            then_do (write_private_key_owner_only key_path (key_pem g) fs) (\<lambda>_ fs.
              (Inr (cert_der g, key_der g), fs)))))"

section \<open>The interface of a store for secrets\<close>

text \<open>
  What the users of a secret file rely on: a stored secret is there with no permission for group
  or others, and the check accepts exactly such files.
\<close>

locale private_file_store =
  fixes store :: "path \<Rightarrow> 'd \<Rightarrow> fsys \<Rightarrow> (file_error + unit) \<times> fsys"
    and check :: "path \<Rightarrow> fsys \<Rightarrow> file_error + unit"
    and enc :: "'d \<Rightarrow> byte list"
  assumes store_node: "store p d fs = (Inr (), fs') \<Longrightarrow>
      \<exists>n. nodes fs' = (nodes fs)(resolve fs p \<mapsto> n) \<and> nd_data n = enc d
        \<and> nd_kind n = RegularFile \<and> nd_mode n AND mask_077 = 0"
    and store_setting: "store p d fs = (r, fs') \<Longrightarrow> same_setting fs fs'"
    and check_iff: "check p fs = Inr () \<longleftrightarrow>
      (\<exists>m. metadata p fs = Inr m \<and> nd_mode m AND mask_077 = 0)"
begin

lemma stored:
  assumes "store p d fs = (Inr (), fs')"
    and "fs_check Stat p fs = None" "fs_check ReadFile p fs = None"
  shows "check p fs' = Inr () \<and> read p fs' = Inr (enc d) \<and> exists p fs'"
proof -
  obtain n where n: "nodes fs' = (nodes fs)(resolve fs p \<mapsto> n)" "nd_data n = enc d"
      "nd_kind n = RegularFile" "nd_mode n AND mask_077 = 0"
    using store_node [OF assms(1)] by blast
  have s: "same_setting fs fs'" using assms(1) by (rule store_setting)
  then have m: "metadata p fs' = Inr n" and r: "read p fs' = Inr (enc d)"
    using n assms(2,3) by (simp_all add: metadata_Some read_Some same_settingD [OF s])
  have "\<exists>m. metadata p fs' = Inr m \<and> nd_mode m AND mask_077 = 0"
    using m n(4) by (intro exI [of _ n] conjI)
  then have "check p fs' = Inr ()" by (rule iffD2 [OF check_iff])
  with m r show ?thesis by (simp add: exists_def)
qed

lemma stored_others:
  assumes "store p d fs = (Inr (), fs')" "q \<noteq> resolve fs p"
  shows "nodes fs' q = nodes fs q"
  using store_node [OF assms(1)] assms(2) by auto

end

text \<open>The relation every operation on secrets keeps: no file that was there changes its contents.\<close>

definition contents_kept :: "fsys \<Rightarrow> fsys \<Rightarrow> bool" where
  "contents_kept fs fs' \<longleftrightarrow> (\<forall>q n. nodes fs q = Some n \<longrightarrow>
     (\<exists>n'. nodes fs' q = Some n' \<and> nd_data n' = nd_data n \<and> nd_kind n' = nd_kind n))"

text \<open>A store that never writes over a file, and leaves even a half-written secret private.\<close>

locale write_once_store = private_file_store +
  assumes store_keeps: "store p d fs = (r, fs') \<Longrightarrow> contents_kept fs fs'"
    and store_partial: "store p d fs = (r, fs') \<Longrightarrow> nodes fs q = None \<Longrightarrow>
      nodes fs' q = Some n \<Longrightarrow> nd_mode n AND mask_077 = 0"
begin

lemma store_taken:
  assumes "nodes fs (resolve fs p) = Some n" "nd_data n \<noteq> enc d"
  shows "store p d fs \<noteq> (Inr (), fs')"
proof
  assume s: "store p d fs = (Inr (), fs')"
  obtain n' where "nodes fs' (resolve fs p) = Some n'" "nd_data n' = nd_data n"
    using store_keeps [OF s] assms(1) by (auto simp: contents_kept_def)
  moreover obtain m where "nodes fs' = (nodes fs)(resolve fs p \<mapsto> m)" "nd_data m = enc d"
    using store_node [OF s] by blast
  ultimately show False using assms(2) by simp
qed

end

lemma contents_kept_refl [simp]: "contents_kept fs fs"
  by (simp add: contents_kept_def)

lemma contents_kept_trans: "contents_kept a b \<Longrightarrow> contents_kept b c \<Longrightarrow> contents_kept a c"
  unfolding contents_kept_def by metis

lemma contents_kept_add: "nodes fs q = None \<Longrightarrow> nodes fs' = (nodes fs)(q \<mapsto> n) \<Longrightarrow> contents_kept fs fs'"
  by (auto simp: contents_kept_def)

lemma mkdir_keeps: "nodes fs cs = None \<Longrightarrow> mkdir cs fs = (r, fs') \<Longrightarrow> contents_kept fs fs'"
  by (auto simp: mkdir_def split: option.splits intro: contents_kept_add)

lemma mkdirs_keeps: "mkdirs pre cs fs = (r, fs') \<Longrightarrow> contents_kept fs fs'"
  by (induction pre cs fs arbitrary: r fs' rule: mkdirs.induct)
    (auto simp: Let_def dest: mkdir_keeps split: option.splits if_splits prod.splits sum.splits
      intro: contents_kept_trans)

lemma create_dir_all_keeps: "create_dir_all p fs = (r, fs') \<Longrightarrow> contents_kept fs fs'"
  by (auto simp: create_dir_all_def dest: mkdirs_keeps split: if_splits)

lemma set_permissions_keeps: "set_permissions p m fs = (r, fs') \<Longrightarrow> contents_kept fs fs'"
  by (auto simp: set_permissions_def contents_kept_def split: option.splits)

text \<open>The create-then-write sequence the three writers of secrets share.\<close>

definition secret_write :: "path \<Rightarrow> byte list \<Rightarrow> fsys \<Rightarrow> (file_error + unit) \<times> fsys" where
  "secret_write p bs fs =
     then_do (io (create_new p mode_600 fs)) (\<lambda>_ fs. io (file_write_all p bs fs))"

lemma create_new_cases:
  obtains (bad) e where "create_new p m fs = (Inl e, fs)"
    | (ok) "create_new p m fs = (Inr (), put_node p (new_file m fs) fs)"
      "nodes fs (resolve fs p) = None"
  by (cases "create_new p m fs") (auto simp: create_new_def split: option.splits if_splits)

lemma file_write_all_nodes:
  "file_write_all p bs fs = (r, fs') \<Longrightarrow> nodes fs (resolve fs p) = Some n \<Longrightarrow>
     \<exists>d. nodes fs' = (nodes fs)(resolve fs p \<mapsto> n\<lparr>nd_data := d\<rparr>) \<and> (r = Inr () \<longrightarrow> d = nd_data n @ bs)"
  by (auto simp: file_write_all_def split: option.splits if_splits)

lemma secret_write_cases:
  assumes "secret_write p bs fs = (r, fs')"
  obtains (untouched) e where "r = Inl e" "fs' = fs"
    | (written) d where "nodes fs (resolve fs p) = None"
      "nodes fs' = (nodes fs)(resolve fs p \<mapsto> (new_file mode_600 fs)\<lparr>nd_data := d\<rparr>)"
      "r = Inr () \<longrightarrow> d = bs" "same_setting fs fs'"
proof (cases rule: create_new_cases [of p mode_600 fs])
  case (bad e)
  with assms have "r = Inl (FileIo e)" "fs' = fs" by (simp_all add: secret_write_def)
  then show ?thesis by (rule that(1))
next
  case ok
  let ?fs1 = "put_node p (new_file mode_600 fs) fs"
  obtain r1 where w: "file_write_all p bs ?fs1 = (r1, fs')" "r = Inr () \<longrightarrow> r1 = Inr ()"
    using assms ok
    by (cases "file_write_all p bs ?fs1") (auto simp: secret_write_def io_def split: sum.splits)
  have res: "resolve ?fs1 p = resolve fs p" by (simp add: resolve_def)
  obtain d where d: "nodes fs' = (nodes ?fs1)(resolve fs p \<mapsto> (new_file mode_600 fs)\<lparr>nd_data := d\<rparr>)"
      "r1 = Inr () \<longrightarrow> d = nd_data (new_file mode_600 fs) @ bs"
    using file_write_all_nodes [OF w(1), of "new_file mode_600 fs"] by (auto simp: res)
  have "same_setting fs fs'"
    using file_write_all_setting [OF w(1)] same_setting_put_node same_setting_trans by blast
  with d ok(2) w(2) that(2) [of d] show ?thesis by (auto simp: new_file_def)
qed

lemma secret_write_node:
  "secret_write p bs fs = (Inr (), fs') \<Longrightarrow>
     \<exists>n. nodes fs' = (nodes fs)(resolve fs p \<mapsto> n) \<and> nd_data n = bs
        \<and> nd_kind n = RegularFile \<and> nd_mode n AND mask_077 = 0"
  by (erule secret_write_cases) (auto simp: new_file_def)

lemma secret_write_setting: "secret_write p bs fs = (r, fs') \<Longrightarrow> same_setting fs fs'"
  by (erule secret_write_cases) simp_all

lemma secret_write_keeps: "secret_write p bs fs = (r, fs') \<Longrightarrow> contents_kept fs fs'"
  by (erule secret_write_cases) (auto intro: contents_kept_add)

lemma secret_write_partial:
  "secret_write p bs fs = (r, fs') \<Longrightarrow> nodes fs q = None \<Longrightarrow> nodes fs' q = Some n \<Longrightarrow>
     nd_mode n AND mask_077 = 0"
  by (erule secret_write_cases) (auto simp: new_file_def split: if_splits)

lemma owner_only_iff:
  "res_bind (io_res (metadata p fs)) (\<lambda>m. if nd_mode m AND mask_077 \<noteq> 0
      then Inl (Accessible (nd_mode m AND 0x1FF)) else Inr ()) = Inr () \<longleftrightarrow>
    (\<exists>m. metadata p fs = Inr m \<and> nd_mode m AND mask_077 = 0)"
  by (cases "metadata p fs") auto

lemma writers_eq:
  "write_seed_owner_only = secret_write" "keygen_write_seed_owner_only = secret_write"
  "write_private_key_owner_only p pem fs = secret_write p (str_bytes pem) fs"
  by (simp_all add: fun_eq_iff write_seed_owner_only_def keygen_write_seed_owner_only_def
      write_private_key_owner_only_def secret_write_def)

lemmas secret_write_facts = secret_write_node secret_write_setting secret_write_keeps
  secret_write_partial

interpretation seed_file: write_once_store write_seed_owner_only validate_private_key_permissions id
  by unfold_locales
    (auto simp: writers_eq validate_private_key_permissions_def owner_only_iff
      dest: secret_write_facts)

interpretation keygen_file: write_once_store keygen_write_seed_owner_only
  keygen_validate_private_key_permissions id
  by unfold_locales
    (auto simp: writers_eq keygen_validate_private_key_permissions_def owner_only_iff
      dest: secret_write_facts)

interpretation host_key_file: write_once_store write_private_key_owner_only
  host_validate_private_key_permissions str_bytes
  by unfold_locales
    (auto simp: writers_eq host_validate_private_key_permissions_def owner_only_iff
      dest: secret_write_facts)

section \<open>Properties\<close>

lemma both_facts:
  "create_dir_all p fs = (r, fs') \<Longrightarrow> same_setting fs fs' \<and> contents_kept fs fs'"
  "set_permissions p m fs = (r, fs') \<Longrightarrow> same_setting fs fs' \<and> contents_kept fs fs'"
  by (auto dest: create_dir_all_setting create_dir_all_keeps set_permissions_setting
      set_permissions_keeps)

lemma make_private_parent_keeps:
  "make_private_parent p fs = (r, fs') \<Longrightarrow> same_setting fs fs' \<and> contents_kept fs fs'"
  by (auto simp: make_private_parent_def set_dir_owner_only_permissions_def then_do_def io_def
      dest!: both_facts split: option.splits prod.splits sum.splits
      intro: same_setting_trans contents_kept_trans)

lemma generate_parent_eq:
  "(case parent p of None \<Rightarrow> (Inr (), fs)
    | Some d \<Rightarrow> then_do (io (create_dir_all d fs))
        (\<lambda>_ fs. keygen_set_dir_owner_only_permissions d fs)) = make_private_parent p fs"
  by (simp add: make_private_parent_def set_dir_owner_only_permissions_def
      keygen_set_dir_owner_only_permissions_def cong: option.case_cong)

lemma seed_public_key_InrD: "seed_public_key kg s = Inr k \<Longrightarrow> k = kg s \<and> length s = 32"
  by (auto simp: seed_public_key_def split: if_splits)

lemma ensure_fresh_InrD:
  assumes "\<not> exists p fs" "ensure_client_keypair fresh kg p fs = (Inr k, fs')"
  obtains fs1 where "make_private_parent p fs = (Inr (), fs1)"
    "write_seed_owner_only p fresh fs1 = (Inr (), fs')" "k = kg fresh" "length fresh = 32"
  using assms
  by (auto simp: ensure_client_keypair_def elim!: then_do_InrE dest!: seed_public_key_InrD)

text \<open>
  The first run creates the client's identity so that the same path then loads: the stored
  seed is the one the returned public key belongs to, it passes the permission check of the
  client, and every later run returns the same public key and changes nothing.
\<close>

lemma ensure_client_keypair_stable:
  assumes "ensure_client_keypair fresh kg p fs = (Inr k, fs')" "\<not> exists p fs"
    and "fs_check Stat p fs = None" "fs_check ReadFile p fs = None"
  shows "load_signing_key p fs' = Inr fresh \<and> k = kg fresh
    \<and> ensure_client_keypair fresh' kg p fs' = (Inr k, fs')"
proof -
  obtain fs1 where fs1: "make_private_parent p fs = (Inr (), fs1)"
      "write_seed_owner_only p fresh fs1 = (Inr (), fs')" "k = kg fresh" "length fresh = 32"
    using assms(2,1) by (rule ensure_fresh_InrD)
  have "same_setting fs fs1" using make_private_parent_keeps [OF fs1(1)] by simp
  then have "fs_check Stat p fs1 = None" "fs_check ReadFile p fs1 = None"
    using assms(3,4) by (simp_all add: same_settingD)
  from seed_file.stored [OF fs1(2) this] fs1(3,4) show ?thesis
    by (simp add: load_signing_key_def ensure_client_keypair_def seed_public_key_def)
qed

text \<open>
  Whatever fails on the way (permissions, a full disk, a short write), making sure of the
  client's identity never changes the contents of a file that was there.
\<close>

lemma ensure_client_keypair_keeps_files:
  "contents_kept fs (snd (ensure_client_keypair fresh kg p fs))"
proof (cases "exists p fs")
  case False
  obtain r1 fs1 where 1: "make_private_parent p fs = (r1, fs1)" by (cases "make_private_parent p fs")
  obtain r2 fs2 where 2: "write_seed_owner_only p fresh fs1 = (r2, fs2)"
    by (cases "write_seed_owner_only p fresh fs1")
  have "contents_kept fs fs1" using make_private_parent_keeps [OF 1] by simp
  moreover from this have "contents_kept fs fs2"
    using seed_file.store_keeps [OF 2] contents_kept_trans by blast
  ultimately show ?thesis
    using False 1 2 by (cases r1; cases r2) (simp_all add: ensure_client_keypair_def)
qed (simp add: ensure_client_keypair_def)

text \<open>
  The line \<^verbatim>\<open>sqsh-keygen\<close> prints for a new key is a valid authorized-keys entry of exactly
  the public key of the seed on disk, and printing the key again later gives the same line.
\<close>

lemma keygen_line_authorizes:
  assumes "generate fresh kg encode env host p fs = (Inr line, fs')"
    and "fs_check Stat p fs = None" "fs_check ReadFile p fs = None"
    and "base64_laws encode decode" "kg fresh \<noteq> []" "NL \<notin> set (user_at_host env host)"
  shows "parse_authorized_keys decode (line @ [NL]) = [kg fresh]
    \<and> read p fs' = Inr fresh \<and> print_pubkey kg encode env host p fs' = Inr line"
proof -
  obtain fs1 where fs1: "make_private_parent p fs = (Inr (), fs1)"
      "keygen_write_seed_owner_only p fresh fs1 = (Inr (), fs')"
      and len: "length fresh = 32"
      and line: "line = format_authorized_key encode (kg fresh) (user_at_host env host)"
    using assms(1) unfolding generate_def generate_parent_eq
    by (auto split: if_splits elim!: then_do_InrE simp: res_bind_Inr_iff dest!: seed_public_key_InrD)
  have "same_setting fs fs1" using make_private_parent_keeps [OF fs1(1)] by simp
  then have "fs_check Stat p fs1 = None" "fs_check ReadFile p fs1 = None"
    using assms(2,3) by (simp_all add: same_settingD)
  from keygen_file.stored [OF fs1(2) this]
  have "keygen_validate_private_key_permissions p fs' = Inr ()" "read p fs' = Inr fresh" by simp_all
  then have "print_pubkey kg encode env host p fs' = Inr line" "read p fs' = Inr fresh"
    by (simp_all add: print_pubkey_def seed_public_key_def len line)
  moreover have "parse_authorized_keys decode (line @ [NL]) = [kg fresh]"
    using parse_authorized_keys_line [OF assms(4,5,6), of "[]"]
    by (simp add: line parse_authorized_keys_def map_filter_simps)
  ultimately show ?thesis by simp
qed

text \<open>A directory tree for the witnesses: the root and a home directory.\<close>

definition demo_dir :: "u32 \<Rightarrow> fnode" where
  "demo_dir uid = \<lparr>nd_kind = Directory, nd_uid = uid, nd_mode = 0x1ED, nd_data = []\<rparr>"

definition demo_fs :: fsys where
  "demo_fs = \<lparr>nodes = [[] \<mapsto> demo_dir 0, [''home''] \<mapsto> demo_dir 1000], cwd = [''home''],
     proc_uid = 1000, umask = 0x12, fault = (\<lambda>_ _. None), disk = None\<rparr>"

definition demo_identity :: path where
  "demo_identity = Path True [''home'', ''.config'', ''id'']"

lemmas demo_fs_simps = demo_fs_def demo_dir_def demo_identity_def fs_check_def empty_path_def
  metadata_def exists_def resolve_def

lemmas fs_eval = demo_fs_simps create_dir_all_def is_dir_def mkdir_def set_permissions_def
  create_new_def file_write_all_def parent_is_dir_def put_node_def new_file_def

lemma demo_ensure:
  "\<exists>fs'. ensure_client_keypair (replicate 32 7) rev demo_identity demo_fs
     = (Inr (replicate 32 7), fs')"
  by (simp add: fs_eval ensure_client_keypair_def make_private_parent_def Let_def
      set_dir_owner_only_permissions_def write_seed_owner_only_def seed_public_key_def)

lemma ensure_client_keypair_stable_instance:
  "\<exists>fs'. load_signing_key demo_identity fs' = Inr (replicate 32 7)
     \<and> ensure_client_keypair [] rev demo_identity fs' = (Inr (replicate 32 7), fs')"
proof -
  obtain fs' where e: "ensure_client_keypair (replicate 32 7) rev demo_identity demo_fs
      = (Inr (replicate 32 7), fs')" using demo_ensure by blast
  have "\<not> exists demo_identity demo_fs" "fs_check Stat demo_identity demo_fs = None"
    "fs_check ReadFile demo_identity demo_fs = None" by (simp_all add: demo_fs_simps)
  from ensure_client_keypair_stable [OF e this, of "[]"] show ?thesis by blast
qed

text \<open>The key generator of the witnesses; its line is evaluated by the theorem it witnesses.\<close>

definition demo_env :: environment where
  "demo_env = [''USER'' \<mapsto> ''alice'']"

lemma demo_generate:
  "\<exists>line fs'. generate (replicate 32 7) rev demo_encode demo_env None demo_identity demo_fs
     = (Inr line, fs')"
  by (simp add: fs_eval generate_def Let_def keygen_set_dir_owner_only_permissions_def
      keygen_write_seed_owner_only_def seed_public_key_def)

lemma keygen_line_authorizes_instance:
  "\<exists>line fs'. generate (replicate 32 7) rev demo_encode demo_env None demo_identity demo_fs
       = (Inr line, fs')
     \<and> parse_authorized_keys demo_decode (line @ [NL]) = [replicate 32 7]"
proof -
  obtain line fs' where g: "generate (replicate 32 7) rev demo_encode demo_env None demo_identity
      demo_fs = (Inr line, fs')" using demo_generate by blast
  have "fs_check Stat demo_identity demo_fs = None"
    "fs_check ReadFile demo_identity demo_fs = None" by (simp_all add: demo_fs_simps)
  moreover have "NL \<notin> set (user_at_host demo_env None)"
    by (simp add: user_at_host_def user_at_host_with_def demo_env_def resolve_hostname_def)
  ultimately show ?thesis
    using keygen_line_authorizes [OF g _ _ demo_base64_laws] g by simp
qed

text \<open>
  \<^verbatim>\<open>sqsh-keygen -f name\<close> with a bare file name never creates a key: the parent is the
  empty path, which \<^verbatim>\<open>create_dir_all\<close> accepts and the change of its mode then refuses.
\<close>

lemma keygen_bare_name_fails:
  assumes "\<not> exists (Path False [name]) fs"
  shows "generate fresh kg encode env host (Path False [name]) fs = (Inl (FileIo NotFound), fs)"
  using assms
  by (simp add: generate_def create_dir_all_def empty_path_def set_permissions_def fs_check_def
      keygen_set_dir_owner_only_permissions_def)

lemma keygen_bare_name_fails_instance:
  "fst (generate [] rev demo_encode demo_env None (Path False [''mykey'']) demo_fs)
     = Inl (FileIo NotFound)"
  by (subst keygen_bare_name_fails) (simp_all add: demo_fs_simps)

section \<open>The server's identity across restarts\<close>

definition pem_laws :: "('c, 'k) pem_library \<Rightarrow> ('c, 'k) tls_identity \<Rightarrow> bool" where
  "pem_laws lib g \<longleftrightarrow> private_key lib (key_pem g) = Inr (Some (key_der g))
     \<and> first_cert lib (cert_pem g) = Some (Inr (cert_der g))
     \<and> ascii_text (key_pem g) \<and> ascii_text (cert_pem g)"

text \<open>What the two files must allow: distinct nodes, and no refusal to look at or read them.\<close>

definition readable_pair :: "path \<Rightarrow> path \<Rightarrow> fsys \<Rightarrow> bool" where
  "readable_pair p q fs \<longleftrightarrow> resolve fs p \<noteq> resolve fs q
     \<and> fs_check Stat p fs = None \<and> fs_check ReadFile p fs = None
     \<and> fs_check Stat q fs = None \<and> fs_check ReadFile q fs = None"

lemma readable_pair_cong: "same_setting fs fs' \<Longrightarrow> readable_pair p q fs' = readable_pair p q fs"
  by (simp add: readable_pair_def same_settingD)

lemma restrictive_dir_setting:
  "create_restrictive_dir_if_missing d fs = (r, fs') \<Longrightarrow> same_setting fs fs'"
  by (auto simp: create_restrictive_dir_if_missing_def then_do_def io_def dest!: both_facts
      split: if_splits prod.splits sum.splits intro: same_setting_trans)

lemma write_file_InrD:
  assumes "write_file p bs fs = (Inr (), fs')"
  shows "\<exists>n. nodes fs' = (nodes fs)(resolve fs p \<mapsto> n) \<and> nd_data n = bs \<and> nd_kind n = RegularFile"
proof -
  obtain fs1 where c: "create_truncate p 0x1B6 fs = (Inr (), fs1)"
      "file_write_all p bs fs1 = (Inr (), fs')"
    using assms by (auto simp: write_file_def split: prod.splits sum.splits)
  obtain n where n: "nodes fs1 = (nodes fs)(resolve fs p \<mapsto> n)" "nd_data n = []"
      "nd_kind n = RegularFile" using create_truncate_InrD [OF c(1)] by blast
  have "resolve fs1 p = resolve fs p" using create_truncate_setting [OF c(1)] by (rule same_settingD)
  with n file_write_all_InrD [OF c(2), of n] show ?thesis
    by (intro exI [of _ "n\<lparr>nd_data := bs\<rparr>"]) simp
qed

lemma generated_identity_reloads:
  assumes "load_or_generate_tls_identity lib (Inr g) kp cp fs = (Inr (cert, key), fs')"
    and "\<not> (exists kp fs \<and> exists cp fs)"
    and "readable_pair kp cp fs" "pem_laws lib g"
  shows "load_or_generate_tls_identity lib other kp cp fs' = (Inr (cert, key), fs')"
proof -
  obtain fs1 fs2 where dir: "(case parent kp of None \<Rightarrow> (Inr (), fs)
        | Some d \<Rightarrow> create_restrictive_dir_if_missing d fs) = (Inr (), fs1)"
      and c: "write_file cp (str_bytes (cert_pem g)) fs1 = (Inr (), fs2)"
      and k: "write_private_key_owner_only kp (key_pem g) fs2 = (Inr (), fs')"
      and res: "cert = cert_der g" "key = key_der g"
    using assms(1,2)
    by (auto simp: load_or_generate_tls_identity_def elim!: then_do_InrE dest!: io_InrD)
  have s1: "same_setting fs fs1" using dir by (auto split: option.splits dest: restrictive_dir_setting)
  have s2: "same_setting fs1 fs2" using c by (rule write_file_setting)
  have s3: "same_setting fs2 fs'" using k by (rule host_key_file.store_setting)
  have r2: "readable_pair kp cp fs2" and r': "readable_pair kp cp fs'"
    using assms(3) readable_pair_cong [OF s1] readable_pair_cong [OF s2] readable_pair_cong [OF s3]
    by simp_all
  have kf: "host_validate_private_key_permissions kp fs' = Inr ()"
      "read kp fs' = Inr (str_bytes (key_pem g))" "exists kp fs'"
    using host_key_file.stored [OF k] r2 by (simp_all add: readable_pair_def)
  obtain n where n: "nodes fs2 (resolve fs1 cp) = Some n" "nd_data n = str_bytes (cert_pem g)"
      "nd_kind n = RegularFile" using write_file_InrD [OF c] by auto
  have "resolve fs1 cp = resolve fs' cp" by (simp add: same_settingD [OF s2] same_settingD [OF s3])
  moreover have "nodes fs' (resolve fs' cp) = nodes fs2 (resolve fs' cp)"
    using r2 by (intro host_key_file.stored_others [OF k])
      (auto simp: readable_pair_def same_settingD [OF s3])
  ultimately have cn: "nodes fs' (resolve fs' cp) = Some n" using n(1) by simp
  then have "exists cp fs'" "read cp fs' = Inr (str_bytes (cert_pem g))"
    using r' n(2,3) by (simp_all add: readable_pair_def exists_def metadata_Some read_Some)
  with kf assms(4) res show ?thesis
    by (simp add: load_or_generate_tls_identity_def load_tls_identity_def read_to_string_def
        pem_laws_def utf8_valid_ascii)
qed

text \<open>
  C37: the identity the server generates is the one every later start loads: same certificate
  (so the fingerprint clients pinned stays) and same key, which is private on disk.
\<close>

theorem host_identity_survives_restart:
  assumes "load_or_generate_tls_identity lib (Inr g) kp cp fs = (Inr (cert, key), fs')"
    and "\<not> (exists kp fs \<and> exists cp fs)"
    and "readable_pair kp cp fs" "pem_laws lib g"
  shows "load_or_generate_tls_identity lib other kp cp fs' = (Inr (cert, key), fs')"
  using assms by (rule generated_identity_reloads)

definition demo_pem :: "(string, string) pem_library" where
  "demo_pem = \<lparr>private_key = (\<lambda>s. Inr (Some (''K'' @ s))), first_cert = (\<lambda>s. Some (Inr (''C'' @ s)))\<rparr>"

definition demo_tls :: "(string, string) tls_identity" where
  "demo_tls = \<lparr>key_pem = ''k'', cert_pem = ''c'', key_der = ''Kk'', cert_der = ''Cc''\<rparr>"

definition demo_host_key :: path where
  "demo_host_key = Path True [''home'', ''host.key'']"

definition demo_host_cert :: path where
  "demo_host_cert = Path True [''home'', ''host.cert'']"

lemmas host_eval = fs_eval demo_host_key_def demo_host_cert_def demo_tls_def demo_pem_def
  load_or_generate_tls_identity_def create_restrictive_dir_if_missing_def write_file_def
  create_truncate_def write_private_key_owner_only_def

theorem host_identity_survives_restart_witness:
  "\<exists>fs'. load_or_generate_tls_identity demo_pem (Inl ''unused'') demo_host_key demo_host_cert fs'
     = (Inr (''Cc'', ''Kk''), fs')"
proof -
  obtain fs' where g: "load_or_generate_tls_identity demo_pem (Inr demo_tls) demo_host_key
      demo_host_cert demo_fs = (Inr (''Cc'', ''Kk''), fs')"
    by (simp add: host_eval)
  have "\<not> (exists demo_host_key demo_fs \<and> exists demo_host_cert demo_fs)"
    "readable_pair demo_host_key demo_host_cert demo_fs" "pem_laws demo_pem demo_tls"
    by (simp_all add: demo_fs_simps demo_host_key_def demo_host_cert_def readable_pair_def
        pem_laws_def demo_pem_def demo_tls_def code_def)
  from host_identity_survives_restart [OF g this, of "Inl ''unused''"] show ?thesis by blast
qed

text \<open>
  When only the host key file is there, the start fails, but not before a new certificate has
  been put beside the old key: every later start loads the certificate of one key pair with the
  private key of another.
\<close>

lemma host_identity_mixed_after_failure:
  assumes "load_or_generate_tls_identity lib (Inr g) kp cp fs = (r, fs')"
    and "nodes fs (resolve fs kp) = Some n" "nodes fs (resolve fs cp) = None"
    and "nd_kind n = RegularFile" "nd_mode n AND mask_077 = 0" "nd_data n = str_bytes old_pem"
    and "parent kp = Some d" "exists d fs" "parent_is_dir cp fs" "disk fs = None"
    and "readable_pair kp cp fs" "fs_check OpenWrite cp fs = None" "fs_check OpenWrite kp fs = None"
    and "ascii_text old_pem" "private_key lib old_pem = Inr (Some old_key)" "pem_laws lib g"
  shows "r = Inl (FileIo AlreadyExists)
    \<and> load_or_generate_tls_identity lib other kp cp fs' = (Inr (cert_der g, old_key), fs')"
proof -
  have ne: "resolve fs kp \<noteq> resolve fs cp" using assms(11) by (simp add: readable_pair_def)
  let ?c = "(new_file 0x1B6 fs)\<lparr>nd_data := str_bytes (cert_pem g)\<rparr>"
  let ?fs1 = "put_node cp (new_file 0x1B6 fs) fs"
  let ?fs2 = "put_node cp ?c ?fs1"
  have w: "write_file cp (str_bytes (cert_pem g)) fs = (Inr (), ?fs2)"
    using assms(3,9,10,12)
    by (simp add: write_file_def create_truncate_def file_write_all_def)
  have "write_private_key_owner_only kp (key_pem g) ?fs2 = (Inl (FileIo AlreadyExists), ?fs2)"
    using assms(2,13) ne
    by (simp add: write_private_key_owner_only_def create_new_def)
  with w assms(1,3,7,8) have r: "r = Inl (FileIo AlreadyExists)" "fs' = ?fs2"
    using assms(11)
    by (simp_all add: load_or_generate_tls_identity_def create_restrictive_dir_if_missing_def
        exists_def metadata_def readable_pair_def)
  have "metadata kp ?fs2 = Inr n" "metadata cp ?fs2 = Inr ?c" "read kp ?fs2 = Inr (nd_data n)"
      "read cp ?fs2 = Inr (nd_data ?c)"
    using assms(2,4,11) ne
    by (simp_all add: metadata_def read_def readable_pair_def)
  then have "load_or_generate_tls_identity lib other kp cp ?fs2 = (Inr (cert_der g, old_key), ?fs2)"
    using assms(5,6,14,15,16)
    by (simp add: load_or_generate_tls_identity_def load_tls_identity_def read_to_string_def
        exists_def host_validate_private_key_permissions_def pem_laws_def utf8_valid_ascii)
  with r show ?thesis by simp
qed

definition demo_half_fs :: fsys where
  "demo_half_fs = put_node demo_host_key
     \<lparr>nd_kind = RegularFile, nd_uid = 0, nd_mode = mode_600, nd_data = str_bytes ''old''\<rparr> demo_fs"

lemma host_identity_mixed_after_failure_instance:
  "\<exists>fs'. load_or_generate_tls_identity demo_pem (Inl ''unused'') demo_host_key demo_host_cert fs'
     = (Inr (''Cc'', ''Kold''), fs')"
proof -
  obtain r fs' where l: "load_or_generate_tls_identity demo_pem (Inr demo_tls) demo_host_key
      demo_host_cert demo_half_fs = (r, fs')" by fastforce
  show ?thesis
    using host_identity_mixed_after_failure [OF l, of
        "\<lparr>nd_kind = RegularFile, nd_uid = 0, nd_mode = mode_600, nd_data = str_bytes ''old''\<rparr>"
        "''old''" "Path True [''home'']" "''Kold''" "Inl ''unused''"]
    by (auto simp: demo_half_fs_def fs_eval demo_host_key_def demo_host_cert_def readable_pair_def
        pem_laws_def demo_pem_def demo_tls_def code_def)
qed

end
