(* ===== verification/Release.thy ===== *)
theory Release
  imports Key_Files
begin

text \<open>
  Fetching the server's binary, \<^verbatim>\<open>sqsh/src/bootstrap/mod.rs\<close>: the version and the addresses of the
  release, the signed list of checksums, and the download, verification and unpacking of the archive.
  SHA-256, hex, minisign and the processes that are run (curl, wget, tar) are arguments.
\<close>

datatype release_error =
    ReleaseIo io_kind
  | EmptyVersion
  | BadVersion string
  | NoAsset string
  | NoDownloader
  | NotSpawned "string list"
  | DownloadFailed string
  | BadSigningKey
  | BadSignature
  | SignatureMismatch
  | BadChecksum string
  | DuplicateChecksum string
  | MissingChecksum string
  | ChecksumMismatch string string
  | ExtractFailed
  | NoBinary

section \<open>Names\<close>

datatype os_kind = Linux | MacOs

definition release_target :: "os_kind \<Rightarrow> string \<Rightarrow> release_error + string" where
  "release_target os arch = (case os of
      Linux \<Rightarrow>
        if arch = ''x86_64'' then Inr ''x86_64-unknown-linux-gnu''
        else if arch = ''aarch64'' then Inr ''aarch64-unknown-linux-gnu'' else Inl (NoAsset arch)
    | MacOs \<Rightarrow>
        if arch = ''arm64'' \<or> arch = ''aarch64'' then Inr ''aarch64-apple-darwin''
        else if arch = ''x86_64'' then Inr ''x86_64-apple-darwin'' else Inl (NoAsset arch))"

definition is_ascii_alphanumeric :: "char \<Rightarrow> bool" where
  "is_ascii_alphanumeric c \<longleftrightarrow> is_ascii_digit c \<or> is_ascii_upper c \<or> (97 \<le> code c \<and> code c \<le> 122)"

definition version_char :: "char \<Rightarrow> bool" where
  "version_char c \<longleftrightarrow> is_ascii_alphanumeric c \<or> c = CHR ''.'' \<or> c = CHR ''+'' \<or> c = CHR ''-''"

definition validate_version :: "string \<Rightarrow> release_error + unit" where
  "validate_version v =
     (if v = [] then Inl EmptyVersion
      else if \<not> is_ascii_digit (hd v) then Inl (BadVersion v)
      else if \<not> list_all version_char v then Inl (BadVersion v)
      else Inr ())"

definition GITHUB_REPO :: string where
  "GITHUB_REPO = ''alexclewontin/squish''"

definition RELEASE_CHECKSUMS_NAME :: string where
  "RELEASE_CHECKSUMS_NAME = ''SHA256SUMS''"

definition RELEASE_CHECKSUMS_SIG_NAME :: string where
  "RELEASE_CHECKSUMS_SIG_NAME = ''SHA256SUMS.minisig''"

definition RELEASE_SIGNING_PUBLIC_KEY :: string where
  "RELEASE_SIGNING_PUBLIC_KEY = ''RWRbIET4r585mncP/VNFFujSlXXfvb+SzyZQrfnbBMYC89BK6Lj9Oyxt''"

definition release_archive_name :: "string \<Rightarrow> string" where
  "release_archive_name target = ''squish-'' @ target @ ''.tar.gz''"

definition release_asset_url :: "string option \<Rightarrow> string \<Rightarrow> string" where
  "release_asset_url version asset = (case version of
      Some v \<Rightarrow> ''https://github.com/'' @ GITHUB_REPO @ ''/releases/download/v'' @ v @ ''/'' @ asset
    | None \<Rightarrow> ''https://github.com/'' @ GITHUB_REPO @ ''/releases/latest/download/'' @ asset)"

section \<open>The list of checksums\<close>

text \<open>
  What an entry's second word names: the source takes a leading \<^verbatim>\<open>./\<close> off and then a star, but
  where there is no star it falls back to the whole word, not to what the first step left.
\<close>

definition entry_asset :: "string \<Rightarrow> string" where
  "entry_asset word =
     (let w = (case strip_prefix ''./'' word of Some r \<Rightarrow> r | None \<Rightarrow> word)
      in case strip_prefix ''*'' w of Some r \<Rightarrow> r | None \<Rightarrow> word)"

definition is_ascii_hexdigit :: "char \<Rightarrow> bool" where
  "is_ascii_hexdigit c \<longleftrightarrow> is_ascii_digit c \<or> (65 \<le> code c \<and> code c \<le> 70) \<or> (97 \<le> code c \<and> code c \<le> 102)"

fun checksum_from :: "string \<Rightarrow> string option \<Rightarrow> string list \<Rightarrow> release_error + string" where
  "checksum_from asset_name found [] = ok_or (MissingChecksum asset_name) found"
| "checksum_from asset_name found (line # ls) =
     (case split_whitespace (trim line) of
        checksum # asset # rest \<Rightarrow>
          if entry_asset asset \<noteq> asset_name then checksum_from asset_name found ls
          else if \<not> list_all is_ascii_hexdigit checksum \<or> length checksum \<noteq> 64
            then Inl (BadChecksum asset_name)
          else if found \<noteq> None then Inl (DuplicateChecksum asset_name)
          else checksum_from asset_name (Some (ascii_lower checksum)) ls
      | _ \<Rightarrow> checksum_from asset_name found ls)"

definition checksum_for_asset :: "string \<Rightarrow> string \<Rightarrow> release_error + string" where
  "checksum_for_asset checksums asset_name = checksum_from asset_name None (lines checksums)"

section \<open>Verification\<close>

text \<open>The hash of a file is taken over reads of at most 8192 bytes, up to an empty one.\<close>

function hash_reads :: "byte list \<Rightarrow> byte list \<Rightarrow> byte list" where
  "hash_reads fed rest =
     (let buf = take 8192 rest in
      if length buf = 0 then fed else hash_reads (fed @ buf) (drop 8192 rest))"
  by pat_completeness auto
termination
  by (relation "measure (\<lambda>(fed, rest). length rest)") (auto simp: Let_def)

declare hash_reads.simps [simp del]

record ('pk, 'sg) release_library =
  rl_sha256 :: "byte list \<Rightarrow> byte list"
  rl_hex :: "byte list \<Rightarrow> string"
  rl_key :: "string \<Rightarrow> 'pk option"
  rl_signature :: "string \<Rightarrow> 'sg option"
  rl_verify :: "'pk \<Rightarrow> byte list \<Rightarrow> 'sg \<Rightarrow> bool"

definition sha256_file_hex :: "('pk, 'sg) release_library \<Rightarrow> path \<Rightarrow> fsys \<Rightarrow> release_error + string" where
  "sha256_file_hex lib p fs = (case read p fs of
      Inl e \<Rightarrow> Inl (ReleaseIo e)
    | Inr bs \<Rightarrow> Inr (rl_hex lib (rl_sha256 lib (hash_reads [] bs))))"

definition verify_signed_checksum_manifest ::
  "('pk, 'sg) release_library \<Rightarrow> string \<Rightarrow> string \<Rightarrow> release_error + unit" where
  "verify_signed_checksum_manifest lib checksums signature_text =
     res_bind (ok_or BadSigningKey (rl_key lib RELEASE_SIGNING_PUBLIC_KEY)) (\<lambda>pk.
     res_bind (ok_or BadSignature (rl_signature lib signature_text)) (\<lambda>sg.
       if rl_verify lib pk (str_bytes checksums) sg then Inr () else Inl SignatureMismatch))"

definition rel_io :: "io_kind + 'a \<Rightarrow> release_error + 'a" where
  "rel_io r = (case r of Inl e \<Rightarrow> Inl (ReleaseIo e) | Inr a \<Rightarrow> Inr a)"

definition verify_release_artifact ::
  "('pk, 'sg) release_library \<Rightarrow> path \<Rightarrow> path \<Rightarrow> path \<Rightarrow> string \<Rightarrow> fsys \<Rightarrow> release_error + unit" where
  "verify_release_artifact lib archive checksums_path signature_path asset_name fs =
     res_bind (rel_io (read_to_string checksums_path fs)) (\<lambda>checksums.
     res_bind (rel_io (read_to_string signature_path fs)) (\<lambda>signature_text.
     res_bind (verify_signed_checksum_manifest lib checksums signature_text) (\<lambda>_.
     res_bind (checksum_for_asset checksums asset_name) (\<lambda>expected.
     res_bind (sha256_file_hex lib archive fs) (\<lambda>actual.
       if actual \<noteq> expected then Inl (ChecksumMismatch expected actual) else Inr ())))))"

section \<open>Download and unpacking\<close>

text \<open>
  A process that is run: its words, and what it does to the files; \<open>None\<close> when it could not be
  started, and otherwise whether it succeeded.
\<close>

type_synonym process_world = "string list \<Rightarrow> fsys \<Rightarrow> bool option \<times> fsys"

definition is_file :: "path \<Rightarrow> fsys \<Rightarrow> bool" where
  "is_file p fs \<longleftrightarrow> (case metadata p fs of Inl e \<Rightarrow> False | Inr n \<Rightarrow> nd_kind n = RegularFile)"

definition command_on_path :: "environment \<Rightarrow> fsys \<Rightarrow> string \<Rightarrow> bool" where
  "command_on_path env fs name = (case env ''PATH'' of
      None \<Rightarrow> False
    | Some dirs \<Rightarrow> list_ex (\<lambda>d. is_file (path_join (path_of_string d) name) fs) (split_all CHR '':'' dirs))"

definition download_to_path ::
  "environment \<Rightarrow> process_world \<Rightarrow> string \<Rightarrow> path \<Rightarrow> fsys \<Rightarrow> (release_error + unit) \<times> fsys" where
  "download_to_path env exec url destination fs =
     (let finish = (\<lambda>words. case exec words fs of
          (None, fs1) \<Rightarrow> (Inl (NotSpawned words), fs1)
        | (Some ok, fs1) \<Rightarrow> (if ok then Inr () else Inl (DownloadFailed url), fs1))
      in if command_on_path env fs ''curl''
         then finish [''curl'', ''-fsSL'', ''-o'', path_text destination, url]
         else if command_on_path env fs ''wget''
         then finish [''wget'', ''-qO'', path_text destination, url]
         else (Inl NoDownloader, fs))"

definition extract_sqshd_binary ::
  "process_world \<Rightarrow> path \<Rightarrow> path \<Rightarrow> fsys \<Rightarrow> (release_error + path) \<times> fsys" where
  "extract_sqshd_binary exec archive output_dir fs =
     (let words = [''tar'', ''xzf'', path_text archive, ''-C'', path_text output_dir, ''sqshd''];
          sqshd = path_join output_dir ''sqshd''
      in case exec words fs of
           (None, fs1) \<Rightarrow> (Inl (NotSpawned words), fs1)
         | (Some ok, fs1) \<Rightarrow>
             (if \<not> ok then Inl ExtractFailed
              else if \<not> is_file sqshd fs1 then Inl NoBinary else Inr sqshd, fs1))"

text \<open>\<open>staging\<close> is the fresh directory \<^verbatim>\<open>TempDir\<close> made, or the error of making it.\<close>

definition download_and_verify_sqshd_release ::
  "('pk, 'sg) release_library \<Rightarrow> environment \<Rightarrow> process_world \<Rightarrow> io_kind + path \<Rightarrow> string option
    \<Rightarrow> string \<Rightarrow> fsys \<Rightarrow> (release_error + path) \<times> fsys" where
  "download_and_verify_sqshd_release lib env exec staging version target fs = (case staging of
      Inl e \<Rightarrow> (Inl (ReleaseIo e), fs)
    | Inr dir \<Rightarrow>
        (let asset_name = release_archive_name target;
             archive = path_join dir asset_name;
             checksums = path_join dir RELEASE_CHECKSUMS_NAME;
             signature = path_join dir RELEASE_CHECKSUMS_SIG_NAME
         in then_do (download_to_path env exec (release_asset_url version asset_name) archive fs) (\<lambda>_ fs.
            then_do (download_to_path env exec
              (release_asset_url version RELEASE_CHECKSUMS_NAME) checksums fs) (\<lambda>_ fs.
            then_do (download_to_path env exec
              (release_asset_url version RELEASE_CHECKSUMS_SIG_NAME) signature fs) (\<lambda>_ fs.
            then_do (verify_release_artifact lib archive checksums signature asset_name fs, fs) (\<lambda>_ fs.
              extract_sqshd_binary exec archive dir fs))))))"

section \<open>Lemmas\<close>

lemma hash_reads_all: "hash_reads fed rest = fed @ rest"
proof (induction fed rest rule: hash_reads.induct)
  case (1 fed rest)
  then show ?case by (cases "rest = []") (simp_all add: hash_reads.simps [of fed rest] hash_reads.simps [of fed "[]"] Let_def)
qed

text \<open>The specification of the list: the first words of the lines whose second word names the asset.\<close>

definition entries_for :: "string \<Rightarrow> string list \<Rightarrow> string list" where
  "entries_for asset_name ls = concat (map (\<lambda>l. case split_whitespace (trim l) of
     checksum # asset # rest \<Rightarrow> if entry_asset asset = asset_name then [checksum] else []
   | _ \<Rightarrow> []) ls)"

definition sha256_hex :: "string \<Rightarrow> bool" where
  "sha256_hex c \<longleftrightarrow> list_all is_ascii_hexdigit c \<and> length c = 64"

lemma entries_for_Cons:
  "entries_for a (l # ls) = (case split_whitespace (trim l) of
     checksum # asset # rest \<Rightarrow> if entry_asset asset = a then checksum # entries_for a ls else entries_for a ls
   | _ \<Rightarrow> entries_for a ls)"
  by (simp add: entries_for_def split: list.split)

lemma checksum_from_iff:
  "checksum_from a found ls = Inr h \<longleftrightarrow>
     (case found of
        None \<Rightarrow> (\<exists>c. entries_for a ls = [c] \<and> sha256_hex c \<and> h = ascii_lower c)
      | Some f \<Rightarrow> entries_for a ls = [] \<and> h = f)"
proof (induction ls arbitrary: found)
  case Nil
  then show ?case by (auto simp: entries_for_def split: option.split)
next
  case (Cons l ls)
  then show ?case
    by (auto simp: entries_for_Cons sha256_hex_def split: list.split option.split)
qed

lemma checksum_for_asset_iff:
  "checksum_for_asset checksums a = Inr h \<longleftrightarrow>
     (\<exists>c. entries_for a (lines checksums) = [c] \<and> sha256_hex c \<and> h = ascii_lower c)"
  by (simp add: checksum_for_asset_def checksum_from_iff)

lemma verify_release_artifactD:
  assumes "verify_release_artifact lib archive cp sp a fs = Inr ()"
  obtains data checksums signature_text pk sg c where
    "read archive fs = Inr data" "read_to_string cp fs = Inr checksums"
    "rl_key lib RELEASE_SIGNING_PUBLIC_KEY = Some pk" "rl_signature lib signature_text = Some sg"
    "rl_verify lib pk (str_bytes checksums) sg"
    "entries_for a (lines checksums) = [c]" "ascii_lower c = rl_hex lib (rl_sha256 lib data)"
  using assms
  by (fastforce simp: verify_release_artifact_def verify_signed_checksum_manifest_def res_bind_def
      rel_io_def ok_or_def sha256_file_hex_def hash_reads_all checksum_for_asset_iff
      split: sum.splits option.splits if_splits)

section \<open>Properties\<close>

text \<open>
  C24: only a signed binary is unpacked. When the download succeeds, tar was run on an archive whose
  SHA-256 is the one entry for it in a list that the project's release key has signed, in exactly the
  files that were checked: nothing is run between the check and tar.
\<close>

theorem unpacked_release_is_signed:
  assumes "download_and_verify_sqshd_release lib env exec staging version target fs = (Inr binary, fs')"
  shows "\<exists>dir fs2 data checksums signature_text pk sg c. staging = Inr dir
    \<and> read (path_join dir (release_archive_name target)) fs2 = Inr data
    \<and> rl_key lib RELEASE_SIGNING_PUBLIC_KEY = Some pk \<and> rl_signature lib signature_text = Some sg
    \<and> rl_verify lib pk (str_bytes checksums) sg
    \<and> entries_for (release_archive_name target) (lines checksums) = [c]
    \<and> ascii_lower c = rl_hex lib (rl_sha256 lib data)
    \<and> exec [''tar'', ''xzf'', path_text (path_join dir (release_archive_name target)), ''-C'', path_text dir,
         ''sqshd''] fs2 = (Some True, fs')"
proof -
  obtain dir where dir: "staging = Inr dir"
    using assms by (cases staging) (simp_all add: download_and_verify_sqshd_release_def)
  let ?a = "release_archive_name target"
  obtain fs2 where v: "verify_release_artifact lib (path_join dir ?a) (path_join dir RELEASE_CHECKSUMS_NAME)
        (path_join dir RELEASE_CHECKSUMS_SIG_NAME) ?a fs2 = Inr ()"
      and x: "extract_sqshd_binary exec (path_join dir ?a) dir fs2 = (Inr binary, fs')"
    using assms by (auto simp: download_and_verify_sqshd_release_def dir Let_def elim!: then_do_InrE)
  have "exec [''tar'', ''xzf'', path_text (path_join dir ?a), ''-C'', path_text dir, ''sqshd''] fs2 = (Some True, fs')"
    using x by (auto simp: extract_sqshd_binary_def Let_def split: prod.splits option.splits if_splits)
  with v dir show ?thesis by (elim verify_release_artifactD) blast
qed

definition demo_release :: "(byte list, byte list) release_library" where
  "demo_release = \<lparr>rl_sha256 = (\<lambda>_. []), rl_hex = (\<lambda>_. replicate 64 CHR ''a''), rl_key = (\<lambda>s. Some (str_bytes s)),
     rl_signature = (\<lambda>s. Some (str_bytes s)), rl_verify = (\<lambda>_ _ sg. sg = str_bytes ''ok'')\<rparr>"

definition demo_target :: string where
  "demo_target = ''x86_64-apple-darwin''"

definition demo_manifest :: string where
  "demo_manifest = replicate 64 CHR ''A'' @ '' '' @ release_archive_name demo_target"

lemma one_line_manifest:
  assumes "plain d" "d \<noteq> []" "plain w" "w \<noteq> []"
  shows "checksum_for_asset (d @ '' '' @ w) a =
    (if entry_asset w \<noteq> a then Inl (MissingChecksum a)
     else if sha256_hex d then Inr (ascii_lower d) else Inl (BadChecksum a))"
proof -
  have "NL \<notin> set (d @ '' '' @ w)" "d @ '' '' @ w \<noteq> []"
    using plain_no_separators(1) assms(1,3) by auto
  then have "lines (d @ '' '' @ w) = [d @ '' '' @ w]" by (rule lines_last)
  moreover have "plain_char (hd d)" "plain_char (last w)"
    using assms by (simp_all add: plain_def list_all_iff)
  then have "trim (d @ '' '' @ w) = d @ '' '' @ w" using assms(2,4) by (intro trim_fixed) auto
  moreover have "split_whitespace (d @ '' '' @ w) = [d, w]"
    using assms by (simp add: split_whitespace_plain)
  ultimately show ?thesis by (auto simp: checksum_for_asset_def sha256_hex_def)
qed

lemma demo_words:
  "plain (replicate 64 CHR ''A'')" "sha256_hex (replicate 64 CHR ''A'')"
  "plain (release_archive_name demo_target)" "release_archive_name demo_target \<noteq> []"
  "entry_asset (release_archive_name demo_target) = release_archive_name demo_target"
  "entry_asset (''./'' @ release_archive_name demo_target) = ''./'' @ release_archive_name demo_target"
  by (simp_all add: plain_def list_all_iff plain_char_def code_def sha256_hex_def is_ascii_hexdigit_def
      is_ascii_digit_def release_archive_name_def demo_target_def entry_asset_def)

lemma demo_lower: "ascii_lower (replicate 64 CHR ''A'') = replicate 64 CHR ''a''"
  by code_simp

lemma demo_manifest_eval:
  "checksum_for_asset demo_manifest (release_archive_name demo_target) = Inr (replicate 64 CHR ''a'')"
  unfolding demo_manifest_def by (subst one_line_manifest) (simp_all add: demo_words demo_lower)

text \<open>A world in which everything is already in place.\<close>

definition demo_exec :: process_world where
  "demo_exec ws fs = (Some True, fs)"

definition demo_file :: "byte list \<Rightarrow> fnode" where
  "demo_file bs = \<lparr>nd_kind = RegularFile, nd_uid = 0, nd_mode = 0x1A4, nd_data = bs\<rparr>"

definition demo_tools :: fsys where
  "demo_tools = demo_fs\<lparr>nodes := (nodes demo_fs)([''bin'', ''curl''] \<mapsto> demo_file [],
     [''home'', release_archive_name demo_target] \<mapsto> demo_file [1, 2, 3],
     [''home'', ''SHA256SUMS''] \<mapsto> demo_file (str_bytes demo_manifest),
     [''home'', ''SHA256SUMS.minisig''] \<mapsto> demo_file (str_bytes ''ok''),
     [''home'', ''sqshd''] \<mapsto> demo_file [4])\<rparr>"

lemma demo_curl: "command_on_path [''PATH'' \<mapsto> ''/bin''] demo_tools ''curl''"
  by (simp add: command_on_path_def is_file_def metadata_def fs_check_def empty_path_def path_of_string_def
      path_join_def starts_with_def resolve_def demo_tools_def demo_fs_def demo_file_def)

lemma demo_paths:
  "path_join (Path True [''home'']) (release_archive_name demo_target)
     = Path True [''home'', release_archive_name demo_target]"
  "path_join (Path True [''home'']) RELEASE_CHECKSUMS_NAME = Path True [''home'', ''SHA256SUMS'']"
  "path_join (Path True [''home'']) RELEASE_CHECKSUMS_SIG_NAME = Path True [''home'', ''SHA256SUMS.minisig'']"
  "path_join (Path True [''home'']) ''sqshd'' = Path True [''home'', ''sqshd'']"
  "release_archive_name demo_target \<noteq> ''.''" "release_archive_name demo_target \<notin> {''SHA256SUMS'', ''SHA256SUMS.minisig'', ''sqshd''}"
  by (simp_all add: release_archive_name_def demo_target_def RELEASE_CHECKSUMS_NAME_def
      RELEASE_CHECKSUMS_SIG_NAME_def path_join_def path_of_string_def starts_with_def)

lemma demo_reads:
  "read (Path True [''home'', release_archive_name demo_target]) demo_tools = Inr [1, 2, 3]"
  "read_to_string (Path True [''home'', ''SHA256SUMS'']) demo_tools = Inr demo_manifest"
  "read_to_string (Path True [''home'', ''SHA256SUMS.minisig'']) demo_tools = Inr ''ok''"
  "is_file (Path True [''home'', ''sqshd'']) demo_tools"
proof -
  have "plain demo_manifest \<or> ascii_text demo_manifest"
    using demo_words(1,3)[THEN ascii_text_plain] by (simp add: demo_manifest_def code_def)
  then have "utf8_valid (str_bytes demo_manifest)" "utf8_valid (str_bytes ''ok'')"
    using utf8_valid_ascii ascii_text_plain by (auto simp: code_def intro!: utf8_valid_ascii)
  then show "read_to_string (Path True [''home'', ''SHA256SUMS'']) demo_tools = Inr demo_manifest"
    "read_to_string (Path True [''home'', ''SHA256SUMS.minisig'']) demo_tools = Inr ''ok''"
    "read (Path True [''home'', release_archive_name demo_target]) demo_tools = Inr [1, 2, 3]"
    "is_file (Path True [''home'', ''sqshd'']) demo_tools"
    using demo_paths(5,6)
    by (simp_all add: read_to_string_def read_def is_file_def metadata_def fs_check_def empty_path_def
        resolve_def demo_tools_def demo_fs_def demo_file_def)
qed

lemma demo_download:
  "download_and_verify_sqshd_release demo_release [''PATH'' \<mapsto> ''/bin''] demo_exec
     (Inr (Path True [''home''])) version demo_target demo_tools
   = (Inr (Path True [''home'', ''sqshd'']), demo_tools)"
proof -
  have "verify_release_artifact demo_release (Path True [''home'', release_archive_name demo_target])
      (Path True [''home'', ''SHA256SUMS'']) (Path True [''home'', ''SHA256SUMS.minisig''])
      (release_archive_name demo_target) demo_tools = Inr ()"
    by (simp add: verify_release_artifact_def demo_reads rel_io_def verify_signed_checksum_manifest_def
        demo_manifest_eval sha256_file_hex_def)
      (simp add: demo_release_def)
  then show ?thesis
    by (simp add: download_and_verify_sqshd_release_def demo_paths download_to_path_def demo_curl
        demo_exec_def extract_sqshd_binary_def demo_reads)
qed

section \<open>Properties of the names\<close>

text \<open>
  A version stays in its place. A version that passes leaves the address with the same segments,
  and carries no character that ends a segment, a path or a word of a shell.
\<close>

lemma version_stays_in_path:
  assumes "validate_version v = Inr ()" "CHR ''/'' \<notin> set asset"
  shows "split_all CHR ''/'' (release_asset_url (Some v) asset)
      = [''https:'', [], ''github.com'', ''alexclewontin'', ''squish'', ''releases'', ''download'', CHR ''v'' # v, asset]
    \<and> (\<forall>c \<in> set ''/?#%&;|$ `<>()'' \<union> {CHR 0x27, CHR 0x22, CHR 0x5C, NL}. c \<notin> set v)"
proof -
  have v: "list_all version_char v"
    using assms(1) by (auto simp: validate_version_def split: if_splits)
  have no: "c \<notin> set v" if "\<not> version_char c" for c
    using v that by (auto simp: list_all_iff)
  have "CHR ''/'' \<notin> set v" by (rule no) (simp add: version_char_def is_ascii_alphanumeric_def
      is_ascii_digit_def is_ascii_upper_def code_def)
  then have "split_all CHR ''/'' (v @ CHR ''/'' # asset) = [v, asset]"
    by (simp add: split_all_append split_all_no_sep assms(2))
  then show ?thesis
    by (auto simp: release_asset_url_def GITHUB_REPO_def intro!: no)
      (simp_all add: version_char_def is_ascii_alphanumeric_def is_ascii_digit_def is_ascii_upper_def code_def)
qed

lemma version_stays_in_path_instance:
  "validate_version ''0.1.0-rc.1'' = Inr () \<and> CHR '' '' \<notin> set ''0.1.0-rc.1''"
proof -
  have "validate_version ''0.1.0-rc.1'' = Inr ()" by code_simp
  from version_stays_in_path [OF this, of "''a''"] this show ?thesis by simp
qed

lemma entry_asset_iff:
  assumes "\<not> starts_with ''*'' a" "\<not> starts_with ''./'' a"
  shows "entry_asset w = a \<longleftrightarrow> w \<in> {a, ''*'' @ a, ''./*'' @ a}"
  using assms
  by (auto simp: entry_asset_def Let_def starts_with_def strip_prefix_Some_iff split: option.splits)

text \<open>
  A checksum comes from the one entry for the archive. It is found exactly when a single line of the
  list names the archive, as it is, with a star, or with both a dot-slash and a star, and its first word
  is 64 hexadecimal digits. An entry that has the dot-slash alone is not one.
\<close>

lemma checksum_is_the_one_entry:
  "checksum_for_asset checksums (release_archive_name target) = Inr h \<longleftrightarrow>
     (\<exists>c. concat (map (\<lambda>l. case split_whitespace (trim l) of
          d # w # rest \<Rightarrow> if w \<in> {release_archive_name target, ''*'' @ release_archive_name target,
            ''./*'' @ release_archive_name target} then [d] else []
        | _ \<Rightarrow> []) (lines checksums)) = [c] \<and> sha256_hex c \<and> h = ascii_lower c)"
proof -
  have "\<not> starts_with ''*'' (release_archive_name target)" "\<not> starts_with ''./'' (release_archive_name target)"
    by (simp_all add: release_archive_name_def starts_with_def)
  note e = entry_asset_iff [OF this]
  show ?thesis by (simp only: checksum_for_asset_iff entries_for_def e cong: list.case_cong)
qed

text \<open>The list that \<^verbatim>\<open>sha256sum ./*\<close> writes is not read.\<close>

lemma dot_slash_entry_missed:
  assumes "plain d" "d \<noteq> []" "plain (release_archive_name target)"
  shows "checksum_for_asset (d @ '' '' @ ''./'' @ release_archive_name target) (release_archive_name target)
    = Inl (MissingChecksum (release_archive_name target))"
proof -
  have "plain (''./'' @ release_archive_name target)" using assms(3) by (simp add: plain_char_def code_def)
  moreover have "entry_asset (''./'' @ release_archive_name target) \<noteq> release_archive_name target"
    by (simp add: entry_asset_def release_archive_name_def)
  ultimately show ?thesis using assms(1,2) by (subst one_line_manifest) simp_all
qed

theorem unpacked_release_is_signed_witness:
  "\<exists>data c. read (Path True [''home'', release_archive_name demo_target]) demo_tools = Inr data
     \<and> entries_for (release_archive_name demo_target) (lines demo_manifest) = [c]
     \<and> ascii_lower c = rl_hex demo_release (rl_sha256 demo_release data)"
  using unpacked_release_is_signed [OF demo_download [of None]] demo_paths(1) demo_reads(1) demo_manifest_eval
  by (auto simp: demo_exec_def checksum_for_asset_iff demo_release_def)

end
