(* ===== verification/Server_Config.thy ===== *)
theory Server_Config
  imports Key_Files
begin

text \<open>
  \<^verbatim>\<open>sqshd/src/config.rs\<close> and the forwarding policy of \<^verbatim>\<open>sqshd/src/connection.rs\<close>. The TOML
  parser is an argument; what serde makes of a missing field is modelled. The standard library's
  \<^verbatim>\<open>IpAddr\<close> parser, which decides what a loopback bind address is, is written out.
\<close>

section \<open>The configuration\<close>

record server_config =
  sc_bind_addr :: string
  sc_port :: u16
  host_key :: path
  host_cert :: path
  max_connections :: nat
  idle_timeout_secs :: u64
  direct_tcpip_allowlist :: "string list"
  remote_forward_allowlist :: "string list"
  max_channels_per_connection :: nat
  max_remote_forwards_per_connection :: nat
  accept_env :: "string list"
  subsystems :: "string \<Rightarrow> string option"
  live_cert_fingerprint :: "byte list"

definition default_bind_addr :: string where
  "default_bind_addr = ''0.0.0.0''"

definition default_port :: u16 where
  "default_port = 2222"

definition default_max_connections :: nat where
  "default_max_connections = 100"

definition default_idle_timeout :: u64 where
  "default_idle_timeout = 300"

definition default_max_channels_per_connection :: nat where
  "default_max_channels_per_connection = 32"

definition default_max_remote_forwards_per_connection :: nat where
  "default_max_remote_forwards_per_connection = 8"

definition default_accept_env :: "string list" where
  "default_accept_env = [''LANG'', ''LC_*'']"

text \<open>The fields a TOML document gives; all but the two paths may be missing.\<close>

record toml_config =
  t_bind_addr :: "string option"
  t_port :: "u16 option"
  t_host_key :: path
  t_host_cert :: path
  t_max_connections :: "nat option"
  t_idle_timeout_secs :: "u64 option"
  t_direct_tcpip_allowlist :: "string list option"
  t_remote_forward_allowlist :: "string list option"
  t_max_channels_per_connection :: "nat option"
  t_max_remote_forwards_per_connection :: "nat option"
  t_accept_env :: "string list option"
  t_subsystems :: "(string \<Rightarrow> string option) option"

fun or_default :: "'a \<Rightarrow> 'a option \<Rightarrow> 'a" where
  "or_default d None = d"
| "or_default d (Some a) = a"

definition with_defaults :: "toml_config \<Rightarrow> server_config" where
  "with_defaults t =
     \<lparr>sc_bind_addr = or_default default_bind_addr (t_bind_addr t),
      sc_port = or_default default_port (t_port t),
      host_key = t_host_key t,
      host_cert = t_host_cert t,
      max_connections = or_default default_max_connections (t_max_connections t),
      idle_timeout_secs = or_default default_idle_timeout (t_idle_timeout_secs t),
      direct_tcpip_allowlist = or_default [] (t_direct_tcpip_allowlist t),
      remote_forward_allowlist = or_default [] (t_remote_forward_allowlist t),
      max_channels_per_connection =
        or_default default_max_channels_per_connection (t_max_channels_per_connection t),
      max_remote_forwards_per_connection =
        or_default default_max_remote_forwards_per_connection
          (t_max_remote_forwards_per_connection t),
      accept_env = or_default default_accept_env (t_accept_env t),
      subsystems = or_default (\<lambda>_. None) (t_subsystems t),
      live_cert_fingerprint = replicate 32 0\<rparr>"

definition load_config ::
  "(string \<Rightarrow> string + toml_config) \<Rightarrow> string \<Rightarrow> fsys \<Rightarrow> file_error + server_config" where
  "load_config from_str p fs =
     res_bind (io_res (read_to_string (path_of_string p) fs)) (\<lambda>contents.
       case from_str contents of Inl e \<Rightarrow> Inl (Library e) | Inr t \<Rightarrow> Inr (with_defaults t))"

definition env_accepted :: "server_config \<Rightarrow> string \<Rightarrow> bool" where
  "env_accepted cfg name =
     list_ex (\<lambda>pat. case strip_suffix ''*'' pat of
         Some pre \<Rightarrow> starts_with pre name
       | None \<Rightarrow> pat = name) (accept_env cfg)"

definition sftp_server_paths :: "string list" where
  "sftp_server_paths =
     [''/usr/lib/openssh/sftp-server'', ''/usr/libexec/openssh/sftp-server'',
      ''/usr/libexec/sftp-server'', ''/usr/lib/ssh/sftp-server'']"

definition resolve_subsystem :: "server_config \<Rightarrow> fsys \<Rightarrow> string \<Rightarrow> string option" where
  "resolve_subsystem cfg fs name = (case subsystems cfg name of
      Some cmd \<Rightarrow> Some cmd
    | None \<Rightarrow>
        if name = ''sftp'' then find (\<lambda>p. exists (path_of_string p) fs) sftp_server_paths
        else None)"

section \<open>IP addresses\<close>

text \<open>
  \<^verbatim>\<open>core::net::parser\<close>. A reader returns what it read and the rest, or \<open>None\<close> with nothing
  consumed.
\<close>

datatype ip_addr = V4 "nat list" | V6 "nat list"

fun read_digits :: "nat \<Rightarrow> string \<Rightarrow> nat list \<times> string" where
  "read_digits radix [] = ([], [])"
| "read_digits radix (c # s) = (case to_digit radix c of
      None \<Rightarrow> ([], c # s)
    | Some d \<Rightarrow> (let (ds, r) = read_digits radix s in (d # ds, r)))"

definition read_number ::
  "nat \<Rightarrow> nat \<Rightarrow> bool \<Rightarrow> nat \<Rightarrow> string \<Rightarrow> (nat \<times> string) option" where
  "read_number radix max_digits allow_zero_prefix bound s =
     (let (ds, r) = read_digits radix s;
          v = foldl (\<lambda>acc d. acc * radix + d) 0 ds
      in if max_digits < length ds \<or> ds = [] then None
         else if \<not> allow_zero_prefix \<and> hd ds = 0 \<and> 1 < length ds then None
         else if bound \<le> v then None else Some (v, r))"

definition read_separator ::
  "char \<Rightarrow> nat \<Rightarrow> (string \<Rightarrow> ('a \<times> string) option) \<Rightarrow> string \<Rightarrow> ('a \<times> string) option" where
  "read_separator sep index inner s =
     (if index = 0 then inner s
      else case s of [] \<Rightarrow> None | c # r \<Rightarrow> if c = sep then inner r else None)"

fun read_v4_from :: "nat \<Rightarrow> nat \<Rightarrow> string \<Rightarrow> (nat list \<times> string) option" where
  "read_v4_from 0 i s = Some ([], s)"
| "read_v4_from (Suc n) i s =
     (case read_separator CHR ''.'' i (read_number 10 3 False 256) s of
        None \<Rightarrow> None
      | Some (a, r) \<Rightarrow> (case read_v4_from n (Suc i) r of
          None \<Rightarrow> None
        | Some (as, r') \<Rightarrow> Some (a # as, r')))"

definition read_ipv4_addr :: "string \<Rightarrow> (nat list \<times> string) option" where
  "read_ipv4_addr s = read_v4_from 4 0 s"

text \<open>\<open>read_groups\<close> on the \<open>n\<close> slots from index \<open>i\<close>: the groups, whether they end in an IPv4 part.\<close>

fun read_groups :: "nat \<Rightarrow> nat \<Rightarrow> string \<Rightarrow> nat list \<times> bool \<times> string" where
  "read_groups 0 i s = ([], False, s)"
| "read_groups (Suc n) i s =
     (case (if n = 0 then None else read_separator CHR '':'' i read_ipv4_addr s) of
        Some (v4, r) \<Rightarrow> ([v4 ! 0 * 256 + v4 ! 1, v4 ! 2 * 256 + v4 ! 3], True, r)
      | None \<Rightarrow> (case read_separator CHR '':'' i (read_number 16 4 True 65536) s of
          None \<Rightarrow> ([], False, s)
        | Some (g, r) \<Rightarrow> (let (gs, v4, r') = read_groups n (Suc i) r in (g # gs, v4, r'))))"

definition read_ipv6_addr :: "string \<Rightarrow> (nat list \<times> string) option" where
  "read_ipv6_addr s =
     (let (head, head_ipv4, r) = read_groups 8 0 s in
      if length head = 8 then Some (head, r)
      else if head_ipv4 then None
      else case strip_prefix ''::'' r of
          None \<Rightarrow> None
        | Some r1 \<Rightarrow>
            let (tail, _, r2) = read_groups (8 - (length head + 1)) 0 r1
            in Some (head @ replicate (8 - length head - length tail) 0 @ tail, r2))"

definition parse_ip_addr :: "string \<Rightarrow> ip_addr option" where
  "parse_ip_addr s =
     (case (case read_ipv4_addr s of
          Some (a, r) \<Rightarrow> Some (V4 a, r)
        | None \<Rightarrow> map_option (\<lambda>(a, r). (V6 a, r)) (read_ipv6_addr s)) of
        None \<Rightarrow> None
      | Some (a, r) \<Rightarrow> if r = [] then Some a else None)"

fun is_loopback :: "ip_addr \<Rightarrow> bool" where
  "is_loopback (V4 a) = (hd a = 127)"
| "is_loopback (V6 a) = (a = [0, 0, 0, 0, 0, 0, 0, 1])"

section \<open>The forwarding policy\<close>

definition exact_host_port_match :: "string \<Rightarrow> string \<Rightarrow> u16 \<Rightarrow> bool" where
  "exact_host_port_match entry host port = (case rsplit_once CHR '':'' entry of
      None \<Rightarrow> False
    | Some (entry_host, entry_port) \<Rightarrow> (case parse_u16 entry_port of
        None \<Rightarrow> False
      | Some parsed_port \<Rightarrow> entry_host = host \<and> parsed_port = port))"

definition direct_tcpip_allowed :: "string \<Rightarrow> u16 \<Rightarrow> string list \<Rightarrow> bool" where
  "direct_tcpip_allowed host port allowlist =
     list_ex (\<lambda>entry. exact_host_port_match entry host port) allowlist"

definition is_loopback_bind_addr :: "string \<Rightarrow> bool" where
  "is_loopback_bind_addr addr =
     (eq_ignore_ascii_case addr ''localhost''
      \<or> (case parse_ip_addr addr of None \<Rightarrow> False | Some ip \<Rightarrow> is_loopback ip))"

definition remote_forward_allowed :: "string \<Rightarrow> u16 \<Rightarrow> string list \<Rightarrow> bool" where
  "remote_forward_allowed addr port allowlist =
     (is_loopback_bind_addr addr
      \<or> list_ex (\<lambda>entry. exact_host_port_match entry addr port) allowlist)"

section \<open>Lemmas\<close>

text \<open>An allowlist entry written as the documentation has it.\<close>

definition host_port :: "string \<times> u16 \<Rightarrow> string" where
  "host_port hp = fst hp @ '':'' @ show_u16 (snd hp)"

lemma exact_match_host_port [simp]:
  "exact_host_port_match (host_port hp) host port \<longleftrightarrow> hp = (host, port)"
proof -
  have "rsplit_once CHR '':'' (fst hp @ CHR '':'' # show_u16 (snd hp))
      = Some (fst hp, show_u16 (snd hp))" by (rule rsplit_once_append) simp
  then show ?thesis by (cases hp) (simp add: exact_host_port_match_def host_port_def)
qed

lemma exact_match_any_allowed:
  "list_ex (\<lambda>entry. exact_host_port_match entry h p) (map host_port hps) \<longleftrightarrow> (h, p) \<in> set hps"
  by (induction hps) auto

text \<open>The decimal digits of a number below a thousand, as printed.\<close>

definition digits3 :: "nat \<Rightarrow> nat list" where
  "digits3 n = (if n < 10 then [n] else if n < 100 then [n div 10, n mod 10]
     else [n div 100, n div 10 mod 10, n mod 10])"

lemma show_nat_digits3: "n < 1000 \<Longrightarrow> show_nat n = map digit_char (digits3 n)"
proof -
  assume n: "n < 1000"
  consider "n < 10" | "10 \<le> n" "n < 100" | "100 \<le> n" by linarith
  then show ?thesis
  proof cases
    case 1
    then show ?thesis by (simp add: show_nat.simps [of n] digits3_def)
  next
    case 2
    then have "n div 10 < 10" by simp
    with 2 show ?thesis
      by (simp add: show_nat.simps [of n] show_nat.simps [of "n div 10"] digits3_def)
  next
    case 3
    with n have "n div 100 < 10" "10 \<le> n div 10" "n div 10 div 10 = n div 100"
      by (simp_all flip: div_mult2_eq)
    with 3 show ?thesis
      by (simp add: show_nat.simps [of n] show_nat.simps [of "n div 10"]
          show_nat.simps [of "n div 100"] digits3_def)
  qed
qed

lemma read_digits_digits:
  "list_all (\<lambda>d. d < 10) ds \<Longrightarrow> r = [] \<or> to_digit 10 (hd r) = None \<Longrightarrow>
     read_digits 10 (map digit_char ds @ r) = (ds, r)"
  by (induction ds) (cases r; simp)+

lemma digits3_value: "n < 1000 \<Longrightarrow> foldl (\<lambda>acc d. acc * 10 + d) 0 (digits3 n) = n"
proof -
  have e: "(n div 100 * 10 + n div 10 mod 10) * 10 + n mod 10 = n"
  proof -
    have "n div 100 = n div 10 div 10" by (simp flip: div_mult2_eq)
    then show ?thesis
      using div_mult_mod_eq [of "n div 10" 10] div_mult_mod_eq [of n 10] by (simp only:)
  qed
  then show ?thesis by (simp add: digits3_def)
qed

lemma read_number_show:
  assumes "n < 256" "r = [] \<or> to_digit 10 (hd r) = None"
  shows "read_number 10 3 False 256 (show_nat n @ r) = Some (n, r)"
proof -
  have d: "list_all (\<lambda>d. d < 10) (digits3 n)" using assms(1)
    by (auto simp: digits3_def less_mult_imp_div_less)
  have h: "digits3 n \<noteq> []" "length (digits3 n) \<le> 3" "\<not> (hd (digits3 n) = 0 \<and> 1 < length (digits3 n))"
    by (simp_all add: digits3_def div_greater_zero_iff)
  have "read_digits 10 (show_nat n @ r) = (digits3 n, r)"
    using assms read_digits_digits [OF d] by (simp add: show_nat_digits3)
  with assms(1) h show ?thesis by (simp add: read_number_def digits3_value)
qed

definition show_ipv4 :: "nat \<Rightarrow> nat \<Rightarrow> nat \<Rightarrow> nat \<Rightarrow> string" where
  "show_ipv4 a b c d =
     show_nat a @ ''.'' @ show_nat b @ ''.'' @ show_nat c @ ''.'' @ show_nat d"

lemma read_ipv4_addr_unfold:
  "read_ipv4_addr s = read_v4_from (Suc (Suc (Suc (Suc 0)))) 0 s"
  by (simp add: read_ipv4_addr_def eval_nat_numeral)

lemma parse_show_ipv4:
  assumes "a < 256" "b < 256" "c < 256" "d < 256"
  shows "parse_ip_addr (show_ipv4 a b c d) = Some (V4 [a, b, c, d])"
proof -
  have dot: "to_digit 10 CHR ''.'' = None" by (simp add: to_digit_def code_def)
  have "read_ipv4_addr (show_ipv4 a b c d) = Some ([a, b, c, d], [])"
    using assms read_number_show [of d "[]"] dot
    by (simp add: read_ipv4_addr_unfold show_ipv4_def read_separator_def read_number_show)
  then show ?thesis by (simp add: parse_ip_addr_def)
qed

lemma show_ipv4_not_localhost: "\<not> eq_ignore_ascii_case (show_ipv4 a b c d) ''localhost''"
proof -
  obtain x xs where x: "show_nat a = x # xs" by (cases "show_nat a") auto
  then have "is_ascii_digit x" using show_nat_digits [of x a] by simp
  then have "code x \<le> 57" by (simp add: is_ascii_digit_def)
  then have "ascii_lower_char x \<noteq> CHR ''l''"
    by (auto simp: ascii_lower_char_def is_ascii_upper_def code_def)
  then show ?thesis
    by (simp add: x show_ipv4_def eq_ignore_ascii_case_def ascii_lower_def)
      (simp add: ascii_lower_char_def is_ascii_upper_def code_def)
qed

section \<open>Properties\<close>

text \<open>
  C40: the port-forwarding allowlists are exact: with entries written \<open>host:port\<close>, a direct
  connection is allowed for exactly the listed pairs and for nothing when the list is empty, and
  a remote listener for those and for loopback addresses, whatever characters the hosts have.
\<close>

theorem forwarding_policy_exact:
  "(direct_tcpip_allowed host port (map host_port listed) \<longleftrightarrow> (host, port) \<in> set listed)
   \<and> (remote_forward_allowed host port (map host_port listed)
        \<longleftrightarrow> is_loopback_bind_addr host \<or> (host, port) \<in> set listed)"
  by (simp add: direct_tcpip_allowed_def remote_forward_allowed_def exact_match_any_allowed)

text \<open>
  A dotted IPv4 bind address is loopback exactly when its first number is 127; so by default
  a client cannot open a listener on the wildcard address or on any other interface.
\<close>

lemma ipv4_loopback_only:
  assumes "a < 256" "b < 256" "c < 256" "d < 256"
  shows "remote_forward_allowed (show_ipv4 a b c d) port [] \<longleftrightarrow> a = 127"
  using assms
  by (simp add: remote_forward_allowed_def is_loopback_bind_addr_def parse_show_ipv4
      show_ipv4_not_localhost)

lemma ipv4_loopback_only_instance:
  "\<not> remote_forward_allowed (show_ipv4 0 0 0 0) 8080 []
     \<and> remote_forward_allowed (show_ipv4 127 0 0 1) 8080 []"
  by (simp add: ipv4_loopback_only)

text \<open>
  With the default configuration the only client-supplied variables that reach a child are
  \<open>LANG\<close> and those starting with \<open>LC_\<close>.
\<close>

lemma default_env_accepted:
  assumes "t_accept_env t = None"
  shows "env_accepted (with_defaults t) name \<longleftrightarrow> name = ''LANG'' \<or> (\<exists>s. name = ''LC_'' @ s)"
  using assms
  by (auto simp: env_accepted_def with_defaults_def default_accept_env_def strip_suffix_def
      starts_with_iff)

definition demo_toml :: toml_config where
  "demo_toml = \<lparr>t_bind_addr = None, t_port = Some 2200, t_host_key = demo_host_key,
     t_host_cert = demo_host_cert, t_max_connections = None, t_idle_timeout_secs = None,
     t_direct_tcpip_allowlist = None, t_remote_forward_allowlist = None,
     t_max_channels_per_connection = Some 2, t_max_remote_forwards_per_connection = None,
     t_accept_env = None, t_subsystems = None\<rparr>"

lemma default_env_accepted_instance:
  "\<not> env_accepted (with_defaults demo_toml) ''LD_PRELOAD''
     \<and> env_accepted (with_defaults demo_toml) ''LC_ALL''"
proof -
  have t: "t_accept_env demo_toml = None" by (simp add: demo_toml_def)
  show ?thesis by (simp add: default_env_accepted [OF t])
qed

end
