(* ===== verification/Server_Auth.thy ===== *)
theory Server_Auth
  imports Server_Config
begin

text \<open>
  User authentication, \<^verbatim>\<open>authenticate\<close> and \<^verbatim>\<open>load_user_authorized_keys\<close> of
  \<^verbatim>\<open>sqshd/src/connection.rs\<close>. The user database (nix), the hash, base64 and ML-DSA are a record
  of functions; the nonce the random generator gave is an argument.
\<close>

section \<open>What the server is given\<close>

record user =
  u_name :: string
  u_uid :: u32
  u_gid :: u32
  u_dir :: path
  u_shell :: path

record ('vk, 'sig) auth_library =
  from_name :: "string \<Rightarrow> io_kind + user option"
  base64_decode :: "string \<Rightarrow> byte list option"
  sha512 :: "byte list \<Rightarrow> byte list"
  decode_verifying_key :: "byte list \<Rightarrow> 'vk option"
  decode_signature :: "byte list \<Rightarrow> 'sig option"
  verifies :: "'vk \<Rightarrow> byte list \<Rightarrow> 'sig \<Rightarrow> bool"

datatype server_error =
    StreamEnded
  | SendFailed
  | VersionMismatch u16
  | UnexpectedControl control_message
  | UserLookup io_kind
  | KeysIo io_kind
  | KeysOwner u32
  | KeysWritable u32
  | AuthFailedFor string
  | BadVerifyingKey
  | BadSignature
  | VerificationFailure
  | Panicked

section \<open>The user's keys\<close>

definition authorized_keys_path :: "user \<Rightarrow> path" where
  "authorized_keys_path u = path_join (path_join (u_dir u) ''.squish'') ''authorized_keys''"

definition load_user_authorized_keys ::
  "('vk, 'sig) auth_library \<Rightarrow> fsys \<Rightarrow> user \<Rightarrow> server_error + byte list list" where
  "load_user_authorized_keys lib fs u =
     (let p = authorized_keys_path u in
      case metadata p fs of
        Inl e \<Rightarrow> if e = NotFound then Inr [] else Inl (KeysIo e)
      | Inr meta \<Rightarrow>
          if nd_uid meta \<noteq> u_uid u \<and> nd_uid meta \<noteq> 0 then Inl (KeysOwner (nd_uid meta))
          else if nd_mode meta AND mask_022 \<noteq> 0 then Inl (KeysWritable (nd_mode meta AND 0x1FF))
          else (case read_to_string p fs of
              Inl e \<Rightarrow> Inl (KeysIo e)
            | Inr contents \<Rightarrow> Inr (parse_authorized_keys (base64_decode lib) contents)))"

section \<open>The exchange\<close>

type_synonym control_run = "(server_error + string) \<times> control_message list \<times> control_message sink"

definition check_response ::
  "('vk, 'sig) auth_library \<Rightarrow> server_config \<Rightarrow> byte list \<Rightarrow> string \<Rightarrow> user option
    \<Rightarrow> byte list list \<Rightarrow> byte list \<Rightarrow> byte list \<Rightarrow> control_message list
    \<Rightarrow> control_message sink \<Rightarrow> control_run" where
  "check_response lib cfg nonce username usr authorized pubkey sig_bytes msgs k =
     (if usr = None \<or> pubkey \<notin> set authorized
      then (Inl (AuthFailedFor username), msgs, send_quietly (AuthResult Failure) k)
      else case build_challenge_payload (sha512 lib) nonce (live_cert_fingerprint cfg) username of
          None \<Rightarrow> (Inl Panicked, msgs, k)
        | Some payload \<Rightarrow>
            (case decode_verifying_key lib pubkey of
               None \<Rightarrow> (Inl BadVerifyingKey, msgs, k)
             | Some vk \<Rightarrow>
                 (case decode_signature lib sig_bytes of
                    None \<Rightarrow> (Inl BadSignature, msgs, k)
                  | Some sg \<Rightarrow>
                      if \<not> verifies lib vk payload sg
                      then (Inl VerificationFailure, msgs, send_quietly (AuthResult Failure) k)
                      else send_or (AuthResult Success) k
                        (\<lambda>k1. (Inl SendFailed, msgs, k1)) (\<lambda>k1. (Inr username, msgs, k1)))))"

definition challenge_user ::
  "('vk, 'sig) auth_library \<Rightarrow> server_config \<Rightarrow> fsys \<Rightarrow> byte list \<Rightarrow> string
    \<Rightarrow> control_message list \<Rightarrow> control_message sink \<Rightarrow> control_run" where
  "challenge_user lib cfg fs nonce username msgs k =
     (case from_name lib username of
        Inl e \<Rightarrow> (Inl (UserLookup e), msgs, k)
      | Inr usr \<Rightarrow>
          (case (case usr of Some u \<Rightarrow> load_user_authorized_keys lib fs u | None \<Rightarrow> Inr []) of
             Inl e \<Rightarrow> (Inl e, msgs, k)
           | Inr authorized \<Rightarrow>
               send_or (AuthChallenge nonce) k (\<lambda>k1. (Inl SendFailed, msgs, k1)) (\<lambda>k1.
                 case msgs of
                   [] \<Rightarrow> (Inl StreamEnded, [], k1)
                 | AuthResponse pubkey sig_bytes # rest \<Rightarrow>
                     check_response lib cfg nonce username usr authorized pubkey sig_bytes rest k1
                 | m # rest \<Rightarrow> (Inl (UnexpectedControl m), rest, k1))))"

definition authenticate ::
  "('vk, 'sig) auth_library \<Rightarrow> server_config \<Rightarrow> fsys \<Rightarrow> byte list \<Rightarrow> control_message list
    \<Rightarrow> control_message sink \<Rightarrow> control_run" where
  "authenticate lib cfg fs nonce msgs k = (case msgs of
      [] \<Rightarrow> (Inl StreamEnded, [], k)
    | ClientHello version username # rest \<Rightarrow>
        if version \<noteq> PROTOCOL_VERSION
        then (Inl (VersionMismatch version), rest,
          send_quietly (Disconnect ProtocolError (''unsupported version '' @ show_u16 version
            @ '', expected '' @ show_u16 PROTOCOL_VERSION)) k)
        else challenge_user lib cfg fs nonce username rest k
    | m # rest \<Rightarrow> (Inl (UnexpectedControl m), rest, k))"

section \<open>Lemmas\<close>

lemma send_or_run_InrD:
  assumes "send_or m k (\<lambda>k1. (Inl e, ms, k1)) cont = (Inr u, ms', k')"
  obtains k1 where "sent k1 = sent k @ [m]" "cont k1 = (Inr u, ms', k')"
  using assms by (cases rule: send_or_cases [of m k "\<lambda>k1. (Inl e, ms, k1)" cont]) auto

definition trusted_keys_file :: "user \<Rightarrow> fsys \<Rightarrow> bool" where
  "trusted_keys_file u fs \<longleftrightarrow> (\<exists>meta. metadata (authorized_keys_path u) fs = Inr meta
     \<and> (nd_uid meta = u_uid u \<or> nd_uid meta = 0) \<and> nd_mode meta AND mask_022 = 0)"

lemma loaded_key_trusted:
  assumes "load_user_authorized_keys lib fs u = Inr ks" "k \<in> set ks"
  shows "trusted_keys_file u fs"
  using assms
  by (auto simp: load_user_authorized_keys_def Let_def trusted_keys_file_def
      split: sum.splits if_splits)

lemma check_response_InrD:
  assumes "check_response lib cfg nonce u usr ks pk sb ms k = (Inr name, ms', k')"
  shows "name = u \<and> ms' = ms \<and> usr \<noteq> None \<and> pk \<in> set ks \<and> sent k' = sent k @ [AuthResult Success]
    \<and> (\<exists>d vk sg. build_challenge_payload (sha512 lib) nonce (live_cert_fingerprint cfg) u = Some d
        \<and> decode_verifying_key lib pk = Some vk \<and> decode_signature lib sb = Some sg
        \<and> verifies lib vk d sg)"
  using assms
  by (auto simp: check_response_def split: if_splits option.splits elim!: send_or_run_InrD)

lemma challenge_user_InrD:
  assumes "challenge_user lib cfg fs nonce u ms k = (Inr name, ms', k')"
  obtains usr ks pk sb rest k1 where "from_name lib u = Inr usr"
    "(case usr of Some u \<Rightarrow> load_user_authorized_keys lib fs u | None \<Rightarrow> Inr []) = Inr ks"
    "sent k1 = sent k @ [AuthChallenge nonce]" "ms = AuthResponse pk sb # rest"
    "check_response lib cfg nonce u usr ks pk sb rest k1 = (Inr name, ms', k')"
  using assms
  by (auto simp: challenge_user_def split: sum.splits list.splits control_message.splits
      elim!: send_or_run_InrD)

lemma authenticate_InrD:
  assumes "authenticate lib cfg fs nonce ms k = (Inr name, ms', k')"
  obtains rest where "ms = ClientHello PROTOCOL_VERSION name # rest"
    "challenge_user lib cfg fs nonce name rest k = (Inr name, ms', k')"
proof -
  obtain v u rest where ms: "ms = ClientHello v u # rest" "v = PROTOCOL_VERSION"
      "challenge_user lib cfg fs nonce u rest k = (Inr name, ms', k')"
    using assms by (auto simp: authenticate_def split: list.splits control_message.splits if_splits)
  moreover from ms(3) have "name = u" by (auto elim!: challenge_user_InrD dest!: check_response_InrD)
  ultimately show ?thesis using that by simp
qed

lemma authenticated_by_key:
  assumes "authenticate lib cfg fs nonce ms k = (Inr name, ms', k')"
  shows "\<exists>usr ks pk sb d vk sg.
    ms = ClientHello PROTOCOL_VERSION name # AuthResponse pk sb # ms'
    \<and> from_name lib name = Inr (Some usr)
    \<and> load_user_authorized_keys lib fs usr = Inr ks \<and> pk \<in> set ks \<and> trusted_keys_file usr fs
    \<and> build_challenge_payload (sha512 lib) nonce (live_cert_fingerprint cfg) name = Some d
    \<and> decode_verifying_key lib pk = Some vk \<and> decode_signature lib sb = Some sg
    \<and> verifies lib vk d sg
    \<and> sent k' = sent k @ [AuthChallenge nonce, AuthResult Success]"
proof -
  obtain rest where ms: "ms = ClientHello PROTOCOL_VERSION name # rest"
      and c: "challenge_user lib cfg fs nonce name rest k = (Inr name, ms', k')"
    using assms by (rule authenticate_InrD)
  obtain usr ks pk sb r1 k1 where u: "from_name lib name = Inr usr"
      "(case usr of Some u \<Rightarrow> load_user_authorized_keys lib fs u | None \<Rightarrow> Inr []) = Inr ks"
      "sent k1 = sent k @ [AuthChallenge nonce]" "rest = AuthResponse pk sb # r1"
      "check_response lib cfg nonce name usr ks pk sb r1 k1 = (Inr name, ms', k')"
    using c by (rule challenge_user_InrD)
  from check_response_InrD [OF u(5)] obtain usr' where usr: "usr = Some usr'" by auto
  with u(2) have ks: "load_user_authorized_keys lib fs usr' = Inr ks" by simp
  then have "trusted_keys_file usr' fs"
    using check_response_InrD [OF u(5)] by (auto intro: loaded_key_trusted)
  with ms u usr ks check_response_InrD [OF u(5)] show ?thesis by auto
qed

section \<open>Properties\<close>

text \<open>
  C1: whoever is let in as \<open>name\<close> sent a hello of this protocol version, exists, and answered the
  challenge with a public key from that user's own file (owned by the user or root, writable by
  nobody else) and a signature of it over this nonce, this server's certificate and this name;
  the client has been told so, and nothing past the answer has been consumed.
\<close>

theorem authenticate_sound:
  assumes "authenticate lib cfg fs nonce ms k = (Inr name, ms', k')"
  shows "\<exists>usr ks pk sb d vk sg.
    ms = ClientHello PROTOCOL_VERSION name # AuthResponse pk sb # ms'
    \<and> from_name lib name = Inr (Some usr)
    \<and> load_user_authorized_keys lib fs usr = Inr ks \<and> pk \<in> set ks \<and> trusted_keys_file usr fs
    \<and> build_challenge_payload (sha512 lib) nonce (live_cert_fingerprint cfg) name = Some d
    \<and> decode_verifying_key lib pk = Some vk \<and> decode_signature lib sb = Some sg
    \<and> verifies lib vk d sg
    \<and> sent k' = sent k @ [AuthChallenge nonce, AuthResult Success]"
using assms by (rule authenticated_by_key)

text \<open>
  The holders of the given public keys signed only challenges of the given sessions (nonce,
  certificate, user), and nobody else can make a signature these keys accept.
\<close>

definition unforgeable ::
  "('vk, 'sig) auth_library \<Rightarrow> byte list set \<Rightarrow> (byte list \<times> byte list \<times> string) set \<Rightarrow> bool" where
  "unforgeable lib keys sessions \<longleftrightarrow>
     (\<forall>pk vk d sg. pk \<in> keys \<and> decode_verifying_key lib pk = Some vk \<and> verifies lib vk d sg \<longrightarrow>
        (\<exists>(n, f, u) \<in> sessions. d = sha512 lib (challenge_transcript n f u)
           \<and> length n = 32 \<and> length f = 32))"

definition transcripts :: "(byte list \<times> byte list \<times> string) set \<Rightarrow> byte list set" where
  "transcripts sessions = (\<lambda>(n, f, u). challenge_transcript n f u) ` sessions"

lemma transcripts_insert:
  "transcripts (insert (n, f, u) s) = insert (challenge_transcript n f u) (transcripts s)"
  by (simp add: transcripts_def)

text \<open>
  C5: no replay and no confused deputy. If the holders of the user's authorized keys have signed
  only challenges for the sessions in \<open>sessions\<close> (and the hash does not collide on those
  transcripts and this one), then whoever is let in holds a signature made for exactly this
  session: this nonce, the certificate this server presents, and this user name.
\<close>

theorem authenticate_session_bound:
  assumes "authenticate lib cfg fs nonce ms k = (Inr name, ms', k')"
    and "from_name lib name = Inr (Some usr)" "load_user_authorized_keys lib fs usr = Inr ks"
    and "unforgeable lib (set ks) sessions"
    and "inj_on (sha512 lib)
      (transcripts (insert (nonce, live_cert_fingerprint cfg, name) sessions))"
    and "length nonce = 32" "length (live_cert_fingerprint cfg) = 32"
  shows "(nonce, live_cert_fingerprint cfg, name) \<in> sessions"
proof -
  obtain pk d vk sg where key: "pk \<in> set ks" "decode_verifying_key lib pk = Some vk"
      and d: "build_challenge_payload (sha512 lib) nonce (live_cert_fingerprint cfg) name = Some d"
      and v: "verifies lib vk d sg"
    using authenticated_by_key [OF assms(1)] assms(2,3) by auto
  obtain n f u where s: "(n, f, u) \<in> sessions" "length n = 32" "length f = 32"
      "d = sha512 lib (challenge_transcript n f u)"
    using assms(4) key v unfolding unforgeable_def by fast
  have "d = sha512 lib (challenge_transcript nonce (live_cert_fingerprint cfg) name)"
    using d by (simp add: build_challenge_payload_def split: if_splits)
  moreover have "challenge_transcript n f u \<in> transcripts sessions"
    using s(1) by (force simp: transcripts_def)
  ultimately have "challenge_transcript nonce (live_cert_fingerprint cfg) name = challenge_transcript n f u"
    using s(4) by - (rule inj_onD [OF assms(5)], simp, simp_all only: transcripts_insert insertI1 insertI2)
  from challenge_transcript_parts [OF this assms(6) s(2) assms(7) s(3)] s(1) show ?thesis by simp
qed

text \<open>
  In the encoding of a hello the name takes its bytes, and its variant, version and length at least
  one byte each.
\<close>

definition compact_hello :: "(byte list \<Rightarrow> string + control_message) \<Rightarrow> bool" where
  "compact_hello de \<longleftrightarrow> (\<forall>buf v u. de buf = Inr (ClientHello v u) \<longrightarrow> length u + 3 \<le> length buf)"

text \<open>
  No client can crash the authentication: a hello that came off the wire names a user short
  enough for the challenge, whatever the frames hold.
\<close>

lemma authentication_never_panics:
  assumes "read_message de r = Inr (hello, rest)" "compact_hello de"
  shows "fst (authenticate lib cfg fs nonce (hello # ms) k) \<noteq> Inl Panicked"
proof -
  obtain buf where buf: "take_frame r = Inr (buf, rest)" "de buf = Inr hello"
    using assms(1) by (auto simp: read_message_def split: sum.splits)
  have c: "fst (check_response lib cfg nonce u usr ks pk sb ms' k') \<noteq> Inl Panicked"
    if "length u < 65536" for u usr ks pk sb ms' k'
    using that by (auto simp: check_response_def build_challenge_payload_def send_or_def
        split: option.split prod.split bool.split)
  have l: "load_user_authorized_keys lib fs u \<noteq> Inl Panicked" for u
    by (auto simp: load_user_authorized_keys_def Let_def split: sum.split)
  have ch: "fst (challenge_user lib cfg fs nonce u ms k) \<noteq> Inl Panicked" if "length u < 65536" for u
    using c [OF that] l
    by (auto simp: challenge_user_def send_or_def split: sum.split option.split prod.split
        bool.split list.split control_message.split)
  show ?thesis
  proof (cases hello)
    case (ClientHello v u)
    then have "length u + 3 \<le> length buf" using assms(2) buf(2) by (auto simp: compact_hello_def)
    moreover have "length buf \<le> 65536" using take_frame_InrD(1) [OF buf(1)] by (simp add: fits_def)
    ultimately have "length u < 65536" by simp
    with ch ClientHello show ?thesis by (simp add: authenticate_def)
  qed (simp_all add: authenticate_def)
qed


section \<open>Witnesses\<close>

definition demo_alice :: user where
  "demo_alice = \<lparr>u_name = ''alice'', u_uid = 1000, u_gid = 1000,
     u_dir = Path True [''home''], u_shell = Path True [''bin'', ''sh'']\<rparr>"

definition demo_keys_path :: "string list" where
  "demo_keys_path = [''home'', ''.squish'', ''authorized_keys'']"

definition demo_auth_fs :: fsys where
  "demo_auth_fs = demo_fs\<lparr>nodes := (nodes demo_fs)(demo_keys_path \<mapsto>
     \<lparr>nd_kind = RegularFile, nd_uid = 1000, nd_mode = 0x1A4,
      nd_data = str_bytes (format_authorized_key demo_encode [1, 2] ''laptop'' @ [NL])\<rparr>)\<rparr>"

definition demo_auth :: "byte list set \<Rightarrow> (byte list, byte list) auth_library" where
  "demo_auth signed_payloads =
     \<lparr>from_name = (\<lambda>n. Inr (if n = ''alice'' then Some demo_alice else None)),
      base64_decode = demo_decode, sha512 = id,
      decode_verifying_key = Some, decode_signature = Some,
      verifies = (\<lambda>vk d sg. d \<in> signed_payloads \<and> sg = [9])\<rparr>"

definition demo_config :: server_config where
  "demo_config = with_defaults demo_toml"

definition demo_nonce :: "byte list" where
  "demo_nonce = replicate 32 5"

definition demo_challenge :: "byte list" where
  "demo_challenge = challenge_transcript demo_nonce (live_cert_fingerprint demo_config) ''alice''"

lemma demo_keys_path_eq: "authorized_keys_path demo_alice = Path True demo_keys_path"
  by (simp add: authorized_keys_path_def path_join_def path_of_string_def demo_alice_def
      demo_keys_path_def starts_with_def)

lemma demo_load_keys:
  "load_user_authorized_keys (demo_auth s) demo_auth_fs demo_alice = Inr [[1, 2]]"
proof -
  let ?line = "format_authorized_key demo_encode [1, 2] ''laptop''"
  have "parse_authorized_keys demo_decode (?line @ [NL]) = [[1, 2]]"
    using parse_authorized_keys_line [OF demo_base64_laws, of "[1, 2]" "''laptop''" "[]"]
    by (simp add: parse_authorized_keys_def map_filter_simps)
  moreover have "ascii_text (?line @ [NL])"
    by (simp add: format_authorized_key_def KEY_TYPE_def demo_encode_def code_def)
  then have "utf8_valid (str_bytes (?line @ [NL]))" by (rule utf8_valid_ascii)
  ultimately show ?thesis
    unfolding load_user_authorized_keys_def demo_keys_path_eq Let_def
    by (simp add: demo_auth_fs_def demo_auth_def
        demo_alice_def read_to_string_def read_def demo_fs_simps demo_keys_path_def)
qed

lemma demo_authenticate:
  "authenticate (demo_auth {demo_challenge}) demo_config demo_auth_fs demo_nonce
     [ClientHello 1 ''alice'', AuthResponse [1, 2] [9], KeepAlive 3] open_sink
   = (Inr ''alice'', [KeepAlive 3],
      open_sink\<lparr>sent := [AuthChallenge demo_nonce, AuthResult Success]\<rparr>)"
  using demo_load_keys [of "{demo_challenge}"]
  by (simp add: authenticate_def PROTOCOL_VERSION_def challenge_user_def check_response_def
      demo_auth_def build_challenge_payload_def demo_challenge_def)

theorem authenticate_sound_witness:
  "from_name (demo_auth {demo_challenge}) ''alice'' \<noteq> Inr None"
  using authenticate_sound [OF demo_authenticate] by auto

theorem authenticate_session_bound_witness:
  "(demo_nonce, live_cert_fingerprint demo_config, ''alice'')
     \<in> {(demo_nonce, live_cert_fingerprint demo_config, ''alice'')}"
proof (rule authenticate_session_bound [OF demo_authenticate])
  show "from_name (demo_auth {demo_challenge}) ''alice'' = Inr (Some demo_alice)"
    by (simp add: demo_auth_def)
  show "load_user_authorized_keys (demo_auth {demo_challenge}) demo_auth_fs demo_alice = Inr [[1, 2]]"
    by (rule demo_load_keys)
  show "length demo_nonce = 32" "length (live_cert_fingerprint demo_config) = 32"
    by (simp_all add: demo_nonce_def demo_config_def with_defaults_def)
  then show "unforgeable (demo_auth {demo_challenge}) (set [[1, 2]])
      {(demo_nonce, live_cert_fingerprint demo_config, ''alice'')}"
    by (simp add: unforgeable_def demo_auth_def demo_challenge_def)
qed (simp add: demo_auth_def)


definition demo_hello_de :: "byte list \<Rightarrow> string + control_message" where
  "demo_hello_de buf =
     (if 3 \<le> length buf then Inr (ClientHello 1 (bytes_str (drop 3 buf))) else Inl ''short'')"

lemma authentication_never_panics_instance:
  "fst (authenticate (demo_auth {}) demo_config demo_auth_fs demo_nonce
     [ClientHello 1 (bytes_str [97])] open_sink) \<noteq> Inl Panicked"
proof (rule authentication_never_panics)
  show "read_message demo_hello_de (frame [0, 1, 1, 97] @ [])
      = Inr (ClientHello 1 (bytes_str [97]), [])"
    by (rule read_message_frame) (simp_all add: fits_def demo_hello_de_def numeral_3_eq_3)
  show "compact_hello demo_hello_de"
    by (auto simp: compact_hello_def demo_hello_de_def bytes_str_def split: if_splits)
qed

end
