(* ===== verification/Server_Session.thy ===== *)
theory Server_Session
  imports Server_Auth
begin

text \<open>
  \<^verbatim>\<open>sqshd/src/channel/session.rs\<close>: the requests of a session channel, the set-up of the child
  process with its privilege drop, the terminal pump and the subsystem pump. A \<^verbatim>\<open>select!\<close> loop is
  a step function over the events its branches deliver, in the order the scheduler takes them; an
  event of a disabled branch is ignored. The operating system's answers are arguments.
\<close>

section \<open>Data\<close>

record winsize =
  ws_row :: u16
  ws_col :: u16
  ws_xpixel :: u16
  ws_ypixel :: u16

definition winsize_of_pty :: "pty_req_params \<Rightarrow> winsize" where
  "winsize_of_pty p = \<lparr>ws_row = ucast (pr_height_rows p), ws_col = ucast (pr_width_cols p),
     ws_xpixel = ucast (pr_width_px p), ws_ypixel = ucast (pr_height_px p)\<rparr>"

definition winsize_of_change :: "window_change_params \<Rightarrow> winsize" where
  "winsize_of_change w = \<lparr>ws_row = ucast (wc_height_rows w), ws_col = ucast (wc_width_cols w),
     ws_xpixel = ucast (wc_width_px w), ws_ypixel = ucast (wc_height_px w)\<rparr>"

text \<open>What \<^verbatim>\<open>wait\<close> reports: an exit code (an \<open>i32\<close>) or the signal that ended the child.\<close>

datatype exit_status = Exited "32 word" | Signaled nat

fun exit_code_from_status :: "exit_status \<Rightarrow> u32" where
  "exit_code_from_status (Exited c) = c"
| "exit_code_from_status (Signaled sig) = 128 + word_of_nat sig"

datatype signal = SIGHUP | SIGINT | SIGQUIT | SIGKILL | SIGTERM | SIGUSR1 | SIGUSR2

text \<open>
  \<open>to_uppercase\<close> as far as it can produce the names below: ASCII letters, and the two other
  characters whose upper case is an ASCII letter, the long s and the dotless i.
\<close>

fun to_uppercase :: "string \<Rightarrow> string" where
  "to_uppercase [] = []"
| "to_uppercase [c] =
     [if 97 \<le> code c \<and> code c \<le> 122 then char_of (code c - 32) else c]"
| "to_uppercase (c # d # s) =
     (if code c = 0xC5 \<and> code d = 0xBF then CHR ''S'' # to_uppercase s
      else if code c = 0xC4 \<and> code d = 0xB1 then CHR ''I'' # to_uppercase s
      else (if 97 \<le> code c \<and> code c \<le> 122 then char_of (code c - 32) else c)
        # to_uppercase (d # s))"

definition signal_names :: "(string \<times> signal) list" where
  "signal_names =
     [(''HUP'', SIGHUP), (''INT'', SIGINT), (''QUIT'', SIGQUIT), (''KILL'', SIGKILL),
      (''TERM'', SIGTERM), (''USR1'', SIGUSR1), (''USR2'', SIGUSR2)]"

definition parse_signal :: "string \<Rightarrow> signal option" where
  "parse_signal name = map_of
     (concat (map (\<lambda>(n, s). [(n, s), (''SIG'' @ n, s)]) signal_names)) (to_uppercase name)"

datatype session_error =
    SessionSend
  | RequestStreamEnded
  | SessionUserLookup io_kind
  | UserGone
  | OpenPtyFailed
  | FdFailed
  | NotRoot u32
  | NulInUsername
  | SpawnFailed
  | MissingPipe
  | PtyReadFailed
  | PtyWriteFailed
  | WaitFailed

section \<open>The child's environment and credentials\<close>

record credentials =
  c_uid :: u32
  c_gid :: u32
  c_groups :: "u32 set"

datatype pre_exec_step =
    InitGroups string u32
  | SetGid u32
  | SetUid u32
  | SetSid
  | SetControllingTty

record child_command =
  program :: path
  arg0 :: "string option"
  args :: "string list"
  envs :: "(string \<times> string) list"
  current_dir :: path
  pre_exec :: "pre_exec_step list"

definition command_new :: "path \<Rightarrow> child_command" where
  "command_new p = \<lparr>program = p, arg0 = None, args = [], envs = [],
     current_dir = Path False [], pre_exec = []\<rparr>"

text \<open>A path as the child's environment sees it.\<close>

definition show_path :: "path \<Rightarrow> string" where
  "show_path p = (if absolute p then ''/'' else []) @ join_with ''/'' (comps p)"

definition identity_env :: "user \<Rightarrow> (string \<times> string) list" where
  "identity_env u =
     [(''USER'', u_name u), (''LOGNAME'', u_name u), (''HOME'', show_path (u_dir u)),
      (''SHELL'', show_path (u_shell u)), (''PATH'', ''/usr/local/bin:/usr/bin:/bin'')]"

definition configure_child ::
  "u32 \<Rightarrow> child_command \<Rightarrow> user \<Rightarrow> (string \<times> string) list \<Rightarrow> string option \<Rightarrow> bool
    \<Rightarrow> session_error + child_command" where
  "configure_child euid cmd u env trm tty =
     (let needs_drop = euid \<noteq> u_uid u in
      if needs_drop \<and> euid \<noteq> 0 then Inl (NotRoot euid)
      else if CHR 0x00 \<in> set (u_name u) then Inl NulInUsername
      else Inr (cmd\<lparr>
        envs := envs cmd @ env @ (case trm of None \<Rightarrow> [] | Some t \<Rightarrow> [(''TERM'', t)])
          @ identity_env u,
        current_dir := u_dir u,
        pre_exec := (if needs_drop
            then [InitGroups (u_name u) (u_gid u), SetGid (u_gid u), SetUid (u_uid u)] else [])
          @ [SetSid] @ (if tty then [SetControllingTty] else [])\<rparr>))"

text \<open>
  \<^verbatim>\<open>Command::env\<close> sets variables over the inherited ones; a later setting of a name replaces an
  earlier one.
\<close>

definition child_env :: "environment \<Rightarrow> child_command \<Rightarrow> environment" where
  "child_env inherited cmd = inherited ++ map_of (rev (envs cmd))"

text \<open>
  \<^verbatim>\<open>spawn\<close> passes C strings to the kernel: it refuses a command in which a NUL occurs, before it forks.
\<close>

definition command_strings :: "child_command \<Rightarrow> string list" where
  "command_strings cmd = show_path (program cmd) # show_path (current_dir cmd)
     # (case arg0 cmd of None \<Rightarrow> [] | Some a \<Rightarrow> [a]) @ args cmd @ map fst (envs cmd) @ map snd (envs cmd)"

definition nul_free :: "child_command \<Rightarrow> bool" where
  "nul_free cmd \<longleftrightarrow> list_all (\<lambda>s. CHR 0x00 \<notin> set s) (command_strings cmd)"

text \<open>
  The kernel's rules for the calls before exec: only root may change groups or become another
  user or group. \<open>groups_of\<close> is the group database.
\<close>

definition pre_exec_step_run ::
  "(string \<Rightarrow> u32 set) \<Rightarrow> pre_exec_step \<Rightarrow> credentials \<Rightarrow> credentials option" where
  "pre_exec_step_run groups_of st c = (case st of
      InitGroups n g \<Rightarrow> if c_uid c = 0 then Some (c\<lparr>c_groups := insert g (groups_of n)\<rparr>) else None
    | SetGid g \<Rightarrow> if c_uid c = 0 \<or> c_gid c = g then Some (c\<lparr>c_gid := g\<rparr>) else None
    | SetUid u \<Rightarrow> if c_uid c = 0 \<or> c_uid c = u then Some (c\<lparr>c_uid := u\<rparr>) else None
    | SetSid \<Rightarrow> Some c
    | SetControllingTty \<Rightarrow> Some c)"

fun run_pre_exec ::
  "(string \<Rightarrow> u32 set) \<Rightarrow> pre_exec_step list \<Rightarrow> credentials \<Rightarrow> credentials option" where
  "run_pre_exec groups_of [] c = Some c"
| "run_pre_exec groups_of (st # sts) c = (case pre_exec_step_run groups_of st c of
      None \<Rightarrow> None
    | Some c' \<Rightarrow> run_pre_exec groups_of sts c')"

section \<open>The terminal pump\<close>

datatype write_attempt = Wrote nat | WouldBlock | WriteError

datatype write_outcome = AllWritten | WriteFailed | WriteBlocked

text \<open>
  \<^verbatim>\<open>write_all_to_fd\<close>: the attempts are what the terminal answers to each write, in order; the
  bytes it took and the attempts left are returned with the outcome.
\<close>

fun write_all_to_fd ::
  "write_attempt list \<Rightarrow> byte list \<Rightarrow> write_outcome \<times> byte list \<times> write_attempt list" where
  "write_all_to_fd attempts [] = (AllWritten, [], attempts)"
| "write_all_to_fd [] (b # bs) = (WriteBlocked, [], [])"
| "write_all_to_fd (WouldBlock # ats) (b # bs) = write_all_to_fd ats (b # bs)"
| "write_all_to_fd (WriteError # ats) (b # bs) = (WriteFailed, [], ats)"
| "write_all_to_fd (Wrote n # ats) (b # bs) =
     (case write_all_to_fd ats (drop n (b # bs)) of
        (r, w, ats') \<Rightarrow> (r, take n (b # bs) @ w, ats'))"

datatype pty_read = ReadBytes "byte list" | ReadEof | ReadEio | ReadError | ReadWouldBlock

text \<open>\<open>None\<close> from the client is a receive that failed.\<close>

datatype pump_event =
    PtyReadable pty_read
  | FromClient "channel_message option"
  | ChildExited "exit_status option"

datatype 'r loop_status = Running | Left | Returned 'r | Stuck

record pump =
  p_sink :: "channel_message sink"
  p_tty_in :: "byte list"
  p_attempts :: "write_attempt list"
  p_winsize :: "winsize option"
  p_resize_ok :: bool
  p_signals :: "signal list"
  p_killed :: bool
  p_status :: "(session_error + u32) loop_status"

definition reply_quietly :: "bool \<Rightarrow> channel_message \<Rightarrow> pump \<Rightarrow> pump" where
  "reply_quietly want_reply m s =
     (if want_reply then s\<lparr>p_sink := send_quietly m (p_sink s)\<rparr> else s)"

definition pump_read :: "pty_read \<Rightarrow> pump \<Rightarrow> pump" where
  "pump_read r s = (case r of
      ReadBytes d \<Rightarrow> send_or (Data d) (p_sink s)
        (\<lambda>k. s\<lparr>p_sink := k, p_status := Left\<rparr>) (\<lambda>k. s\<lparr>p_sink := k\<rparr>)
    | ReadEof \<Rightarrow> s\<lparr>p_status := Left\<rparr>
    | ReadEio \<Rightarrow> s\<lparr>p_status := Left\<rparr>
    | ReadError \<Rightarrow> s\<lparr>p_status := Returned (Inl PtyReadFailed)\<rparr>
    | ReadWouldBlock \<Rightarrow> s)"

definition pump_write :: "byte list \<Rightarrow> pump \<Rightarrow> pump" where
  "pump_write d s = (case write_all_to_fd (p_attempts s) d of
      (r, w, ats) \<Rightarrow>
        s\<lparr>p_tty_in := p_tty_in s @ w, p_attempts := ats,
          p_status := (case r of AllWritten \<Rightarrow> p_status s
            | WriteFailed \<Rightarrow> Returned (Inl PtyWriteFailed) | WriteBlocked \<Rightarrow> Stuck)\<rparr>)"

definition pump_request :: "request_type \<Rightarrow> bool \<Rightarrow> pump \<Rightarrow> pump" where
  "pump_request rt want_reply s = (case rt of
      WindowChange wc \<Rightarrow>
        reply_quietly want_reply (if p_resize_ok s then RequestSuccess else RequestFailure)
          (if p_resize_ok s then s\<lparr>p_winsize := Some (winsize_of_change wc)\<rparr> else s)
    | Signal name \<Rightarrow>
        reply_quietly want_reply RequestSuccess
          (case parse_signal name of None \<Rightarrow> s | Some g \<Rightarrow> s\<lparr>p_signals := p_signals s @ [g]\<rparr>)
    | _ \<Rightarrow> reply_quietly want_reply RequestFailure s)"

definition pump_client :: "channel_message option \<Rightarrow> pump \<Rightarrow> pump" where
  "pump_client m s = (case m of
      None \<Rightarrow> s\<lparr>p_killed := True, p_status := Left\<rparr>
    | Some (Data d) \<Rightarrow> pump_write d s
    | Some (Request rt want_reply) \<Rightarrow> pump_request rt want_reply s
    | Some Close \<Rightarrow> s\<lparr>p_killed := True, p_status := Left\<rparr>
    | Some _ \<Rightarrow> s)"

definition pump_exited :: "exit_status option \<Rightarrow> pump \<Rightarrow> pump" where
  "pump_exited st s = s\<lparr>p_status := Returned (case st of
      None \<Rightarrow> Inl WaitFailed
    | Some e \<Rightarrow> Inr (exit_code_from_status e))\<rparr>"

definition pump_step :: "pump \<Rightarrow> pump_event \<Rightarrow> pump" where
  "pump_step s e = (case p_status s of
      Running \<Rightarrow> (case e of
          PtyReadable r \<Rightarrow> pump_read r s
        | FromClient m \<Rightarrow> pump_client m s
        | ChildExited st \<Rightarrow> pump_exited st s)
    | _ \<Rightarrow> s)"

text \<open>
  After the loop is left: at most five seconds for the child, then a kill and the code 255.
  \<open>None\<close> is a loop that has not ended with the events given.
\<close>

datatype final_wait = WaitOk exit_status | WaitErr | WaitTimeout

definition io_pump :: "final_wait \<Rightarrow> pump_event list \<Rightarrow> pump \<Rightarrow> ((session_error + u32) \<times> pump) option"
where
  "io_pump fw es s =
     (let s1 = foldl pump_step s es in
      case p_status s1 of
        Returned r \<Rightarrow> Some (r, s1)
      | Left \<Rightarrow> (case fw of
            WaitOk st \<Rightarrow> Some (Inr (exit_code_from_status st), s1)
          | WaitErr \<Rightarrow> Some (Inl WaitFailed, s1)
          | WaitTimeout \<Rightarrow> Some (Inr 255, s1\<lparr>p_killed := True\<rparr>))
      | _ \<Rightarrow> None)"

section \<open>A shell or a command on a terminal\<close>

text \<open>What the operating system does for one child.\<close>

record child_os =
  os_euid :: u32
  pty_opens :: bool
  fds_work :: bool
  spawns :: bool
  async_fd_works :: bool
  resize_works :: bool
  tty_attempts :: "write_attempt list"
  at_end :: final_wait

datatype session_end =
    SessionOk
  | SessionErr session_error
  | SessionPending

definition file_name :: "path \<Rightarrow> string option" where
  "file_name p = (if comps p = [] \<or> last (comps p) = ''..'' then None else Some (last (comps p)))"

definition child_command_line :: "user \<Rightarrow> string option \<Rightarrow> child_command" where
  "child_command_line u exec =
     (let cmd = command_new (u_shell u) in
      case exec of
        Some command \<Rightarrow> cmd\<lparr>args := [''-c'', command]\<rparr>
      | None \<Rightarrow> cmd\<lparr>arg0 := Some (''-'' @
          (case file_name (u_shell u) of Some b \<Rightarrow> b | None \<Rightarrow> ''sh''))\<rparr>)"

text \<open>\<open>Eof\<close>, the status and \<open>Close\<close>, each sent whatever became of the one before.\<close>

definition send_exit :: "u32 \<Rightarrow> channel_message sink \<Rightarrow> channel_message sink" where
  "send_exit st k = send_quietly Close (send_quietly (ExitStatus st) (send_quietly Eof k))"

definition start_pump ::
  "child_os \<Rightarrow> pty_req_params option \<Rightarrow> channel_message sink \<Rightarrow> pump" where
  "start_pump os pty k =
     \<lparr>p_sink = k, p_tty_in = [], p_attempts = tty_attempts os,
      p_winsize = map_option winsize_of_pty pty, p_resize_ok = resize_works os, p_signals = [],
      p_killed = False, p_status = Running\<rparr>"

text \<open>
  The result has the command that was set up, when it came to that. \<open>es\<close> are the events of the
  pump.
\<close>

definition run_child ::
  "child_os \<Rightarrow> pump_event list \<Rightarrow> user \<Rightarrow> string option \<Rightarrow> pty_req_params option
    \<Rightarrow> (string \<times> string) list \<Rightarrow> channel_message sink
    \<Rightarrow> session_end \<times> child_command option \<times> channel_message sink" where
  "run_child os es u exec pty env k =
     (if \<not> pty_opens os then (SessionErr OpenPtyFailed, None, k)
      else if \<not> fds_work os then (SessionErr FdFailed, None, k)
      else let trm = (case pty of Some p \<Rightarrow> pr_term p | None \<Rightarrow> ''xterm'') in
        case configure_child (os_euid os) (child_command_line u exec) u env (Some trm) True of
          Inl e \<Rightarrow> (SessionErr e, None, k)
        | Inr cmd \<Rightarrow>
            if \<not> (nul_free cmd \<and> spawns os) then (SessionErr SpawnFailed, Some cmd, k)
            else if \<not> async_fd_works os then (SessionErr FdFailed, Some cmd, k)
            else (case io_pump (at_end os) es (start_pump os pty k) of
                None \<Rightarrow> (SessionPending, Some cmd, p_sink (foldl pump_step (start_pump os pty k) es))
              | Some (Inl e, s) \<Rightarrow> (SessionErr e, Some cmd, p_sink s)
              | Some (Inr st, s) \<Rightarrow> (SessionOk, Some cmd, send_exit st (p_sink s))))"

section \<open>A subsystem on pipes\<close>

datatype pipe_read = PipeBytes "byte list" | PipeEnd

datatype sub_event =
    StdoutRead pipe_read
  | StderrRead pipe_read
  | SubClient "channel_message option"
  | SubExited "exit_status option"

record sub =
  s_sink :: "channel_message sink"
  s_stdin_open :: bool
  s_stdin_room :: "nat option"
  s_stdin_bytes :: "byte list"
  s_stderr_done :: bool
  s_exit :: "exit_status option"
  s_sub_killed :: bool
  s_left :: bool

text \<open>
  \<open>s_stdin_open\<close> ends when the pipe to the child is closed; \<open>s_stdin_room\<close> is how many bytes
  the child still takes before a write fails.
\<close>

definition sub_write :: "byte list \<Rightarrow> sub \<Rightarrow> sub" where
  "sub_write d s =
     (if \<not> s_stdin_open s then s
      else case s_stdin_room s of
        None \<Rightarrow> s\<lparr>s_stdin_bytes := s_stdin_bytes s @ d\<rparr>
      | Some n \<Rightarrow>
          if length d \<le> n
          then s\<lparr>s_stdin_bytes := s_stdin_bytes s @ d, s_stdin_room := Some (n - length d)\<rparr>
          else s\<lparr>s_stdin_bytes := s_stdin_bytes s @ take n d, s_stdin_room := Some 0,
                 s_stdin_open := False\<rparr>)"

definition sub_client :: "channel_message option \<Rightarrow> sub \<Rightarrow> sub" where
  "sub_client m s = (case m of
      Some (Data d) \<Rightarrow> sub_write d s
    | Some Eof \<Rightarrow> s\<lparr>s_stdin_open := False\<rparr>
    | Some Close \<Rightarrow> s\<lparr>s_sub_killed := True, s_left := True\<rparr>
    | None \<Rightarrow> s\<lparr>s_sub_killed := True, s_left := True\<rparr>
    | Some _ \<Rightarrow> s)"

definition sub_step :: "sub \<Rightarrow> sub_event \<Rightarrow> sub" where
  "sub_step s e =
     (if s_left s then s
      else case e of
        StdoutRead PipeEnd \<Rightarrow> s\<lparr>s_left := True\<rparr>
      | StdoutRead (PipeBytes d) \<Rightarrow> send_or (Data d) (s_sink s)
          (\<lambda>k. s\<lparr>s_sink := k, s_left := True\<rparr>) (\<lambda>k. s\<lparr>s_sink := k\<rparr>)
      | StderrRead r \<Rightarrow>
          if s_stderr_done s then s
          else (case r of
              PipeEnd \<Rightarrow> s\<lparr>s_stderr_done := True\<rparr>
            | PipeBytes d \<Rightarrow> s\<lparr>s_sink := send_quietly (ExtendedData 1 d) (s_sink s)\<rparr>)
      | SubClient m \<Rightarrow> sub_client m s
      | SubExited st \<Rightarrow> if s_exit s = None then s\<lparr>s_exit := st\<rparr> else s)"

definition start_sub :: "nat option \<Rightarrow> channel_message sink \<Rightarrow> sub" where
  "start_sub stdin_cap k =
     \<lparr>s_sink = k, s_stdin_open = True, s_stdin_room = stdin_cap, s_stdin_bytes = [],
      s_stderr_done = False, s_exit = None, s_sub_killed = False, s_left = False\<rparr>"

text \<open>\<open>late_wait\<close> is what waiting for the child after the loop reports.\<close>

definition run_subsystem ::
  "child_os \<Rightarrow> sub_event list \<Rightarrow> nat option \<Rightarrow> exit_status option \<Rightarrow> user \<Rightarrow> string
    \<Rightarrow> (string \<times> string) list \<Rightarrow> channel_message sink
    \<Rightarrow> session_end \<times> child_command option \<times> channel_message sink" where
  "run_subsystem os es stdin_room late_wait u command env k =
     (case configure_child (os_euid os) ((command_new (u_shell u))\<lparr>args := [''-c'', command]\<rparr>)
         u env None False of
        Inl e \<Rightarrow> (SessionErr e, None, k)
      | Inr cmd \<Rightarrow>
          if \<not> (nul_free cmd \<and> spawns os) then (SessionErr SpawnFailed, Some cmd, k)
          else let s = foldl sub_step (start_sub stdin_room k) es in
            if \<not> s_left s then (SessionPending, Some cmd, s_sink s)
            else (SessionOk, Some cmd, send_exit
              (case s_exit s of
                 Some st \<Rightarrow> exit_code_from_status st
               | None \<Rightarrow> (case late_wait of Some st \<Rightarrow> exit_code_from_status st | None \<Rightarrow> 255))
              (s_sink s)))"

section \<open>The requests before the child\<close>

record requests =
  r_pty :: "pty_req_params option"
  r_env :: "(string \<times> string) list"

datatype launch =
    LaunchChild "string option" requests
  | LaunchSubsystem string requests
  | NoLaunch session_end

definition reply_then ::
  "bool \<Rightarrow> channel_message \<Rightarrow> channel_message sink
    \<Rightarrow> (channel_message sink \<Rightarrow> launch \<times> channel_message list \<times> channel_message sink)
    \<Rightarrow> channel_message list \<Rightarrow> launch \<times> channel_message list \<times> channel_message sink" where
  "reply_then want_reply m k cont ms =
     (if want_reply
      then send_or m k (\<lambda>k1. (NoLaunch (SessionErr SessionSend), ms, k1)) cont
      else cont k)"

definition add_env :: "server_config \<Rightarrow> string \<Rightarrow> string \<Rightarrow> requests \<Rightarrow> requests" where
  "add_env cfg name value r =
     (if env_accepted cfg name \<and> length (r_env r) < 64
      then r\<lparr>r_env := r_env r @ [(name, value)]\<rparr> else r)"

text \<open>The receiving end of the stream that is left goes to the child's pump.\<close>

fun session_requests ::
  "server_config \<Rightarrow> fsys \<Rightarrow> requests \<Rightarrow> channel_message list \<Rightarrow> channel_message sink
    \<Rightarrow> launch \<times> channel_message list \<times> channel_message sink" where
  "session_requests cfg fs r [] k = (NoLaunch (SessionErr RequestStreamEnded), [], k)"
| "session_requests cfg fs r (m # ms) k = (case m of
      Request rt want_reply \<Rightarrow> (case rt of
          PtyReq p \<Rightarrow> reply_then want_reply RequestSuccess k
            (session_requests cfg fs (r\<lparr>r_pty := Some p\<rparr>) ms) ms
        | Shell \<Rightarrow> reply_then want_reply RequestSuccess k
            (\<lambda>k1. (LaunchChild None r, ms, k1)) ms
        | Exec command \<Rightarrow> reply_then want_reply RequestSuccess k
            (\<lambda>k1. (LaunchChild (Some command) r, ms, k1)) ms
        | WindowChange wc \<Rightarrow> reply_then want_reply RequestSuccess k
            (session_requests cfg fs r ms) ms
        | Env name value \<Rightarrow> reply_then want_reply RequestSuccess k
            (session_requests cfg fs (add_env cfg name value r) ms) ms
        | Subsystem name \<Rightarrow> (case resolve_subsystem cfg fs name of
              Some command \<Rightarrow> reply_then want_reply RequestSuccess k
                (\<lambda>k1. (LaunchSubsystem command r, ms, k1)) ms
            | None \<Rightarrow> reply_then want_reply RequestFailure k
                (\<lambda>k1. send_or Close k1 (\<lambda>k2. (NoLaunch (SessionErr SessionSend), ms, k2))
                   (\<lambda>k2. (NoLaunch SessionOk, ms, k2))) ms)
        | _ \<Rightarrow> reply_then want_reply RequestFailure k (session_requests cfg fs r ms) ms)
    | Close \<Rightarrow> send_or Close k (\<lambda>k1. (NoLaunch (SessionErr SessionSend), ms, k1))
        (\<lambda>k1. (NoLaunch SessionOk, ms, k1))
    | Eof \<Rightarrow> send_or Close k (\<lambda>k1. (NoLaunch (SessionErr SessionSend), ms, k1))
        (\<lambda>k1. (NoLaunch SessionOk, ms, k1))
    | _ \<Rightarrow> session_requests cfg fs r ms k)"

definition no_requests :: requests where
  "no_requests = \<lparr>r_pty = None, r_env = []\<rparr>"

text \<open>
  The whole channel: \<open>pump_of\<close> and \<open>sub_of\<close> turn the messages still to come and what the child does
  into the events of its pump, in the scheduler's order.
\<close>

record schedule =
  pump_of :: "channel_message list \<Rightarrow> pump_event list"
  sub_of :: "channel_message list \<Rightarrow> sub_event list"
  sch_stdin_room :: "nat option"
  sch_late_wait :: "exit_status option"

definition session_handle ::
  "('vk, 'sig) auth_library \<Rightarrow> server_config \<Rightarrow> fsys \<Rightarrow> child_os \<Rightarrow> schedule \<Rightarrow> string
    \<Rightarrow> channel_message list \<Rightarrow> channel_message sink
    \<Rightarrow> session_end \<times> child_command option \<times> channel_message sink" where
  "session_handle lib cfg fs os sch username ms k =
     (case from_name lib username of
        Inl e \<Rightarrow> (SessionErr (SessionUserLookup e), None, k)
      | Inr None \<Rightarrow> (SessionErr UserGone, None, k)
      | Inr (Some u) \<Rightarrow> (case session_requests cfg fs no_requests ms k of
            (LaunchChild exec r, rest, k1) \<Rightarrow>
              run_child os (pump_of sch rest) u exec (r_pty r) (r_env r) k1
          | (LaunchSubsystem command r, rest, k1) \<Rightarrow>
              run_subsystem os (sub_of sch rest) (sch_stdin_room sch) (sch_late_wait sch) u command
                (r_env r) k1
          | (NoLaunch e, rest, k1) \<Rightarrow> (e, None, k1)))"

section \<open>Lemmas on the requests\<close>

fun launched :: "launch \<Rightarrow> requests option" where
  "launched (LaunchChild exec r) = Some r"
| "launched (LaunchSubsystem command r) = Some r"
| "launched (NoLaunch e) = None"

definition env_ok :: "server_config \<Rightarrow> (string \<times> string) list \<Rightarrow> bool" where
  "env_ok cfg env \<longleftrightarrow> length env \<le> 64 \<and> (\<forall>(n, v) \<in> set env. env_accepted cfg n)"

lemma env_ok_add: "env_ok cfg (r_env r) \<Longrightarrow> env_ok cfg (r_env (add_env cfg n v r))"
  by (auto simp: env_ok_def add_env_def)

lemma reply_then_launchedE:
  assumes "reply_then w m k cont ms = (l, rest, k')" "launched l = Some r"
  obtains k1 where "cont k1 = (l, rest, k')"
proof (cases w)
  case True
  with assms that show ?thesis
    by (cases rule: send_or_cases [of m k "\<lambda>k1. (NoLaunch (SessionErr SessionSend), ms, k1)" cont])
      (auto simp: reply_then_def)
qed (use assms that in \<open>simp add: reply_then_def\<close>)

lemma send_or_NoLaunch:
  "send_or m k (\<lambda>k1. (NoLaunch e, ms, k1)) (\<lambda>k1. (NoLaunch e', ms, k1)) = (l, rest, k') \<Longrightarrow>
     launched l = None"
  by (cases rule: send_or_cases [of m k "\<lambda>k1. (NoLaunch e, ms, k1)" "\<lambda>k1. (NoLaunch e', ms, k1)"])
    auto

lemma session_requests_env:
  assumes "session_requests cfg fs r ms k = (l, rest, k')" "launched l = Some r'"
    and "env_ok cfg (r_env r)"
  shows "env_ok cfg (r_env r')"
  using assms
proof (induction ms arbitrary: r k)
  case (Cons m ms)
  note IH = Cons.IH [OF _ Cons.prems(2)]
  show ?case
    using Cons.prems
    by (auto split: channel_message.splits request_type.splits option.splits
        elim!: reply_then_launchedE dest: send_or_NoLaunch IH intro: env_ok_add)
qed auto

section \<open>Lemmas on the child's identity\<close>

lemma identity_env_map: "(n, v) \<in> set (identity_env u) \<Longrightarrow> map_of (rev (identity_env u)) n = Some v"
  by (auto simp: identity_env_def)

lemma identity_env_dom: "map_of (rev (identity_env u)) n = None \<longleftrightarrow> n \<notin> fst ` set (identity_env u)"
  by (auto simp: identity_env_def)

definition identity_names :: "string list" where
  "identity_names = [''USER'', ''LOGNAME'', ''HOME'', ''SHELL'', ''PATH'']"

lemma identity_names_eq: "map fst (identity_env u) = identity_names"
  by (simp add: identity_env_def identity_names_def)

lemma configure_child_InrD:
  assumes "configure_child euid cmd u env trm tty = Inr cmd'"
  shows "envs cmd' = envs cmd @ env @ (case trm of None \<Rightarrow> [] | Some t \<Rightarrow> [(''TERM'', t)]) @ identity_env u"
    and "euid = u_uid u \<or> euid = 0"
    and "pre_exec cmd' = (if euid \<noteq> u_uid u
            then [InitGroups (u_name u) (u_gid u), SetGid (u_gid u), SetUid (u_uid u)] else [])
          @ [SetSid] @ (if tty then [SetControllingTty] else [])"
    and "program cmd' = program cmd"
  using assms by (auto simp: configure_child_def Let_def split: if_splits)

lemma child_env_identity:
  assumes "configure_child euid cmd u env trm tty = Inr cmd'" "(n, v) \<in> set (identity_env u)"
  shows "child_env inherited cmd' n = Some v"
proof -
  have "map_of (rev (envs cmd')) n = Some v"
    using identity_env_map [OF assms(2)]
    by (simp add: configure_child_InrD(1) [OF assms(1)] map_of_append map_add_Some_iff)
  then show ?thesis by (simp add: child_env_def map_add_Some_iff)
qed

lemma child_env_sources:
  assumes "configure_child euid cmd u env trm tty = Inr cmd'" "envs cmd = []"
    and "child_env inherited cmd' n \<noteq> inherited n"
  shows "n \<in> fst ` set env \<or> n = ''TERM'' \<or> n \<in> set identity_names"
proof -
  have "map_of (rev (envs cmd')) n \<noteq> None"
    using assms(3) by (auto simp: child_env_def map_add_def split: option.splits)
  then have "n \<in> fst ` set (envs cmd')" by (simp add: map_of_eq_None_iff)
  moreover have "fst ` set (identity_env u) = set identity_names"
    by (metis identity_names_eq set_map)
  ultimately show ?thesis
    using assms(2) by (auto simp: configure_child_InrD(1) [OF assms(1)] split: option.splits)
qed

lemma run_pre_exec_drop:
  assumes "configure_child euid cmd u env trm tty = Inr cmd'" "c_uid c = euid"
    and "run_pre_exec groups_of (pre_exec cmd') c = Some c'"
  shows "c_uid c' = u_uid u \<and> (euid \<noteq> u_uid u \<longrightarrow>
    c_gid c' = u_gid u \<and> c_groups c' = insert (u_gid u) (groups_of (u_name u)))"
  using assms(2,3) configure_child_InrD(2) [OF assms(1)]
  by (auto simp: configure_child_InrD(3) [OF assms(1)] pre_exec_step_run_def split: if_splits)

section \<open>Lemmas on the pumps\<close>

text \<open>The bytes the events take from the terminal, and those the client sends to it.\<close>

fun tty_output :: "pump_event \<Rightarrow> byte list" where
  "tty_output (PtyReadable (ReadBytes d)) = d"
| "tty_output _ = []"

fun client_input :: "pump_event \<Rightarrow> byte list" where
  "client_input (FromClient (Some (Data d))) = d"
| "client_input _ = []"

lemma write_all_to_fd_written: "write_all_to_fd ats d = (AllWritten, w, ats') \<Longrightarrow> w = d"
proof (induction ats d arbitrary: w ats' rule: write_all_to_fd.induct)
  case (5 n ats b bs)
  then show ?case by (auto split: prod.splits)
qed auto

lemma pump_step_stopped [simp]: "p_status s \<noteq> Running \<Longrightarrow> pump_step s e = s"
  by (cases "p_status s") (simp_all add: pump_step_def)

lemma pump_run_stopped: "p_status s \<noteq> Running \<Longrightarrow> foldl pump_step s es = s"
  by (induction es) simp_all

lemma reply_quietly_room [simp]:
  "room (p_sink s) = None \<Longrightarrow> room (p_sink (reply_quietly w m s)) = None"
  by (simp add: reply_quietly_def)

lemma pump_step_room: "room (p_sink s) = None \<Longrightarrow> room (p_sink (pump_step s e)) = None"
  by (auto simp: pump_step_def pump_read_def pump_client_def pump_write_def pump_request_def
      pump_exited_def split: loop_status.splits pump_event.splits pty_read.splits option.splits
      channel_message.splits request_type.splits prod.splits)

lemma reply_quietly_streams [simp]:
  "p_tty_in (reply_quietly w m s) = p_tty_in s" "p_status (reply_quietly w m s) = p_status s"
  "room (p_sink s) = None \<Longrightarrow> data_of m = [] \<Longrightarrow>
     data_stream (sent (p_sink (reply_quietly w m s))) = data_stream (sent (p_sink s))"
  by (simp_all add: reply_quietly_def)

lemma pump_step_relays:
  assumes "room (p_sink s) = None" "p_status (pump_step s e) = Running"
  shows "p_status s = Running
    \<and> data_stream (sent (p_sink (pump_step s e))) = data_stream (sent (p_sink s)) @ tty_output e
    \<and> p_tty_in (pump_step s e) = p_tty_in s @ client_input e"
proof -
  have run: "p_status s = Running"
    using assms(2) by (cases "p_status s = Running") (simp_all add: pump_step_stopped)
  show ?thesis
  proof (cases e)
    case (PtyReadable r)
    with run assms show ?thesis
      by (cases r) (simp_all add: pump_step_def pump_read_def)
  next
    case (ChildExited st)
    with run assms(2) show ?thesis by (simp add: pump_step_def pump_exited_def)
  next
    case (FromClient m)
    with run assms have p: "pump_step s e = pump_client m s" by (simp add: pump_step_def)
    show ?thesis
      using run assms FromClient unfolding p
      by (auto simp: pump_client_def pump_write_def pump_request_def
          dest: write_all_to_fd_written split: option.splits channel_message.splits
          request_type.splits prod.splits write_outcome.splits)
  qed
qed

interpretation terminal: ordered_relay pump_step "\<lambda>s. room (p_sink s) = None"
  "\<lambda>s. p_status s = Running" "\<lambda>s. data_stream (sent (p_sink s))" p_tty_in tty_output client_input
  by unfold_locales (erule pump_step_room, erule (1) pump_step_relays)

text \<open>The same for a subsystem, whose loop ends with its standard output.\<close>

fun stdout_bytes :: "sub_event \<Rightarrow> byte list" where
  "stdout_bytes (StdoutRead (PipeBytes d)) = d"
| "stdout_bytes _ = []"

fun sub_stays :: "sub_event \<Rightarrow> bool" where
  "sub_stays (StdoutRead PipeEnd) \<longleftrightarrow> False"
| "sub_stays (SubClient None) \<longleftrightarrow> False"
| "sub_stays (SubClient (Some Close)) \<longleftrightarrow> False"
| "sub_stays _ \<longleftrightarrow> True"

fun first_exit :: "sub_event list \<Rightarrow> exit_status option" where
  "first_exit [] = None"
| "first_exit (SubExited (Some st) # es) = Some st"
| "first_exit (e # es) = first_exit es"

lemma sub_write_frame [simp]:
  "s_sink (sub_write d s) = s_sink s" "s_left (sub_write d s) = s_left s"
  "s_exit (sub_write d s) = s_exit s"
  by (simp_all add: sub_write_def split: option.split)

lemma sub_step_stays:
  assumes "sub_stays e" "\<not> s_left s" "room (s_sink s) = None"
  shows "\<not> s_left (sub_step s e) \<and> room (s_sink (sub_step s e)) = None
    \<and> data_stream (sent (s_sink (sub_step s e))) = data_stream (sent (s_sink s)) @ stdout_bytes e
    \<and> s_exit (sub_step s e) = (if s_exit s = None then first_exit [e] else s_exit s)"
proof (cases e)
  case (StdoutRead r)
  with assms show ?thesis by (cases r) (auto simp: sub_step_def)
next
  case (StderrRead r)
  with assms show ?thesis by (cases r) (auto simp: sub_step_def)
next
  case (SubClient m)
  with assms show ?thesis
    by (auto simp: sub_step_def sub_client_def split: option.splits channel_message.splits)
next
  case (SubExited st)
  with assms show ?thesis by (cases st) (auto simp: sub_step_def)
qed

lemma first_exit_Cons: "first_exit (e # es) = (case first_exit [e] of None \<Rightarrow> first_exit es | st \<Rightarrow> st)"
  by (cases "e # es" rule: first_exit.cases) auto

lemma sub_run_stays:
  assumes "list_all sub_stays es" "\<not> s_left s" "room (s_sink s) = None"
  shows "\<not> s_left (foldl sub_step s es) \<and> room (s_sink (foldl sub_step s es)) = None
    \<and> data_stream (sent (s_sink (foldl sub_step s es)))
        = data_stream (sent (s_sink s)) @ concat (map stdout_bytes es)
    \<and> s_exit (foldl sub_step s es) = (if s_exit s = None then first_exit es else s_exit s)"
  using assms
proof (induction es arbitrary: s)
  case (Cons e es)
  have "sub_stays e" using Cons.prems(1) by simp
  from sub_step_stays [OF this Cons.prems(2,3)] Cons.IH [of "sub_step s e"] Cons.prems(1)
  show ?case by (auto simp: first_exit_Cons [of e es] split: option.split)
qed simp

lemma sub_run_left: "s_left s \<Longrightarrow> foldl sub_step s es = s"
  by (induction es) (simp_all add: sub_step_def)

lemma send_exit_unbounded [simp]:
  "room k = None \<Longrightarrow> sent (send_exit st k) = sent k @ [Eof, ExitStatus st, Close]"
  by (simp add: send_exit_def)

lemma run_child_command:
  assumes "run_child os es u exec pty env k = (e, Some cmd, k')"
  shows "\<exists>trm. configure_child (os_euid os) (child_command_line u exec) u env (Some trm) True = Inr cmd"
  using assms
  by (auto simp: run_child_def Let_def split: if_splits sum.splits option.splits prod.splits)

lemma run_subsystem_command:
  assumes "run_subsystem os es sr lw u command env k = (e, Some cmd, k')"
  shows "configure_child (os_euid os) ((command_new (u_shell u))\<lparr>args := [''-c'', command]\<rparr>)
    u env None False = Inr cmd"
  using assms by (auto simp: run_subsystem_def Let_def split: if_splits sum.splits)

lemma run_child_nul: "run_child os es u exec pty env k = (e, Some cmd, k') \<Longrightarrow> e = SessionErr SpawnFailed \<or> nul_free cmd"
  by (auto simp: run_child_def Let_def split: if_splits sum.splits option.splits prod.splits)

lemma run_subsystem_nul:
  "run_subsystem os es sr lw u command env k = (e, Some cmd, k') \<Longrightarrow> e = SessionErr SpawnFailed \<or> nul_free cmd"
  by (auto simp: run_subsystem_def Let_def split: if_splits sum.splits)

lemma session_nul:
  assumes "session_handle lib cfg fs os sch name ms k = (e, Some cmd, k')"
  shows "e = SessionErr SpawnFailed \<or> nul_free cmd"
  using assms
  by (auto simp: session_handle_def split: sum.splits option.splits prod.splits launch.splits
      dest: run_child_nul run_subsystem_nul)

lemma child_command_line_envs [simp]: "envs (child_command_line u exec) = []"
  by (simp add: child_command_line_def command_new_def Let_def split: option.split)

lemma session_child:
  assumes "session_handle lib cfg fs os sch name ms k = (e, Some cmd, k')"
  obtains u env base trm tty where "from_name lib name = Inr (Some u)" "env_ok cfg env"
    "envs base = []" "configure_child (os_euid os) base u env trm tty = Inr cmd"
proof -
  obtain u where u: "from_name lib name = Inr (Some u)"
    using assms by (auto simp: session_handle_def split: sum.splits option.splits)
  obtain l rest k1 where l: "session_requests cfg fs no_requests ms k = (l, rest, k1)"
    by (cases "session_requests cfg fs no_requests ms k") auto
  have start: "env_ok cfg (r_env no_requests)" by (simp add: env_ok_def no_requests_def)
  show ?thesis
  proof (cases l)
    case (LaunchChild exec r)
    with assms u l have "run_child os (pump_of sch rest) u exec (r_pty r) (r_env r) k1
        = (e, Some cmd, k')" by (simp add: session_handle_def)
    from run_child_command [OF this] session_requests_env [OF l _ start] u LaunchChild that
    show ?thesis by fastforce
  next
    case (LaunchSubsystem command r)
    with assms u l have "run_subsystem os (sub_of sch rest) (sch_stdin_room sch)
        (sch_late_wait sch) u command (r_env r) k1 = (e, Some cmd, k')"
      by (simp add: session_handle_def)
    from run_subsystem_command [OF this] session_requests_env [OF l _ start] u LaunchSubsystem that
    show ?thesis by (fastforce simp: command_new_def)
  qed (use assms u l in \<open>simp add: session_handle_def\<close>)
qed

section \<open>Properties\<close>

text \<open>
  C7: whatever requests a client sends, the child of its session runs as its user: it is only set
  up for a user that exists, its identity variables are the user's, any variable that differs
  from the daemon's own environment passed the policy or is \<open>TERM\<close> or an identity variable, and
  once the calls before exec have succeeded the process has the user's id and, when the daemon
  had to change users, the user's group and exactly the user's groups. No child starts with a NUL in its
  command or environment.
\<close>

theorem session_child_confined:
  assumes "session_handle lib cfg fs os sch name ms k = (e, Some cmd, k')"
  shows "\<exists>u. from_name lib name = Inr (Some u)
    \<and> (\<forall>(n, v) \<in> set (identity_env u). child_env inherited cmd n = Some v)
    \<and> (\<forall>n. child_env inherited cmd n \<noteq> inherited n \<longrightarrow>
          env_accepted cfg n \<or> n = ''TERM'' \<or> n \<in> set identity_names)
    \<and> (\<forall>c c'. c_uid c = os_euid os \<and> run_pre_exec groups_of (pre_exec cmd) c = Some c' \<longrightarrow>
          c_uid c' = u_uid u \<and> (os_euid os \<noteq> u_uid u \<longrightarrow>
            c_gid c' = u_gid u \<and> c_groups c' = insert (u_gid u) (groups_of (u_name u))))
    \<and> length (envs cmd) \<le> 70 \<and> (e = SessionErr SpawnFailed \<or> nul_free cmd)"
proof -
  obtain u env base trm tty where c: "from_name lib name = Inr (Some u)" "env_ok cfg env"
    "envs base = []" "configure_child (os_euid os) base u env trm tty = Inr cmd"
    using assms by (rule session_child)
  have acc: "env_accepted cfg n" if "n \<in> fst ` set env" for n
    using c(2) that by (auto simp: env_ok_def)
  have 1: "\<forall>(n, v) \<in> set (identity_env u). child_env inherited cmd n = Some v"
    using child_env_identity [OF c(4)] by blast
  have 2: "\<forall>n. child_env inherited cmd n \<noteq> inherited n \<longrightarrow>
      env_accepted cfg n \<or> n = ''TERM'' \<or> n \<in> set identity_names"
    using child_env_sources [OF c(4,3)] acc by metis
  have 3: "length (envs cmd) \<le> 70"
    using c(2,3) by (simp add: configure_child_InrD(1) [OF c(4)] env_ok_def identity_env_def
        split: option.split)
  show ?thesis using c(1) 1 2 3 run_pre_exec_drop [OF c(4)] session_nul [OF assms] by blast
qed

text \<open>
  The order of the calls before exec works for a daemon running as root: groups, group and
  user change without being refused. (Were the user changed first, the group change would fail.)
\<close>

lemma root_drop_succeeds:
  assumes "configure_child 0 cmd u env trm tty = Inr cmd'" "c_uid c = 0"
  shows "\<exists>c'. run_pre_exec groups_of (pre_exec cmd') c = Some c' \<and> c_uid c' = u_uid u"
  using assms(2)
  by (auto simp: configure_child_InrD(3) [OF assms(1)] pre_exec_step_run_def)


text \<open>
  Output can be lost at the end of a terminal session. Once the branch that waits for the
  child is taken, what the terminal still holds (\<open>rest\<close>) is never read: the client is sent the
  end of the session without it.
\<close>

lemma terminal_output_lost_at_exit:
  assumes "room k = None" "pty_opens os" "fds_work os" "spawns os" "async_fd_works os"
    and "configure_child (os_euid os) (child_command_line u exec) u env
      (Some (case pty of Some p \<Rightarrow> pr_term p | None \<Rightarrow> ''xterm'')) True = Inr cmd"
    and "p_status (foldl pump_step (start_pump os pty k) es) = Running"
    and "nul_free cmd"
  shows "\<exists>k'. run_child os (es @ ChildExited (Some st) # rest) u exec pty env k
      = (SessionOk, Some cmd, k')
    \<and> data_stream (sent k') = data_stream (sent k) @ concat (map tty_output es)
    \<and> (\<exists>ms. sent k' = ms @ [Eof, ExitStatus (exit_code_from_status st), Close])"
proof -
  let ?s = "foldl pump_step (start_pump os pty k) es"
  have r: "room (p_sink ?s) = None"
    using assms(1) by (intro terminal.inv_run) (simp add: start_pump_def)
  have "data_stream (sent (p_sink ?s)) = data_stream (sent k) @ concat (map tty_output es)"
    using terminal.relay_run [OF _ assms(7)] assms(1) by (simp add: start_pump_def)
  moreover have "pump_step ?s (ChildExited (Some st)) = pump_exited (Some st) ?s"
    using assms(7) by (simp add: pump_step_def)
  ultimately show ?thesis
    using assms r
    by (simp add: run_child_def io_pump_def pump_exited_def pump_run_stopped Let_def)
qed

text \<open>
  A subsystem's output is drained. Whatever the order of its exit, its reads and the client's
  messages, as long as the client does not close, everything read from its standard output has
  been sent before the end of the session is, with the exit status it was first reported with.
\<close>

lemma subsystem_output_drained:
  assumes "list_all sub_stays es" "room k = None" "spawns os"
    and "configure_child (os_euid os) ((command_new (u_shell u))\<lparr>args := [''-c'', command]\<rparr>)
      u env None False = Inr cmd"
    and "first_exit es = Some st" "nul_free cmd"
  shows "\<exists>k' ms. run_subsystem os (es @ StdoutRead PipeEnd # rest) cap lw u command env k
      = (SessionOk, Some cmd, k')
    \<and> sent k' = ms @ [Eof, ExitStatus (exit_code_from_status st), Close]
    \<and> data_stream ms = data_stream (sent k) @ concat (map stdout_bytes es)"
proof -
  let ?s = "foldl sub_step (start_sub cap k) es"
  have s: "\<not> s_left ?s" "room (s_sink ?s) = None" "s_exit ?s = Some st"
      "data_stream (sent (s_sink ?s)) = data_stream (sent k) @ concat (map stdout_bytes es)"
    using sub_run_stays [OF assms(1), of "start_sub cap k"] assms(2,5)
    by (simp_all add: start_sub_def)
  have "sub_step ?s (StdoutRead PipeEnd) = ?s\<lparr>s_left := True\<rparr>" using s(1) by (simp add: sub_step_def)
  with s assms(3,4,6) show ?thesis
    by (simp add: run_subsystem_def Let_def sub_run_left)
qed

section \<open>Witnesses\<close>

definition demo_os :: child_os where
  "demo_os = \<lparr>os_euid = 0, pty_opens = True, fds_work = True, spawns = True,
     async_fd_works = True, resize_works = True, tty_attempts = [WouldBlock, Wrote 1, Wrote 5],
     at_end = WaitOk (Exited 0)\<rparr>"

definition demo_schedule :: schedule where
  "demo_schedule = \<lparr>pump_of = (\<lambda>ms. map (\<lambda>m. FromClient (Some m)) ms
       @ [PtyReadable (ReadBytes [65]), ChildExited (Some (Signaled 9))]),
     sub_of = (\<lambda>ms. []), sch_stdin_room = None, sch_late_wait = None\<rparr>"

definition demo_child :: child_command where
  "demo_child = (command_new (u_shell demo_alice))\<lparr>args := [''-c'', ''id''],
     envs := [(''LANG'', ''C''), (''TERM'', ''xterm'')] @ identity_env demo_alice,
     current_dir := u_dir demo_alice,
     pre_exec := [InitGroups ''alice'' 1000, SetGid 1000, SetUid 1000, SetSid, SetControllingTty]\<rparr>"

lemma demo_env_accepted:
  "\<not> env_accepted demo_config ''LD_PRELOAD''" "env_accepted demo_config ''LANG''"
  by (simp_all add: demo_config_def demo_toml_def env_accepted_def with_defaults_def
      default_accept_env_def strip_suffix_def starts_with_def)

lemma demo_configure:
  "configure_child 0 (child_command_line demo_alice (Some ''id'')) demo_alice [(''LANG'', ''C'')]
     (Some ''xterm'') True = Inr demo_child"
  by (simp add: configure_child_def child_command_line_def command_new_def demo_alice_def
      demo_child_def Let_def)

lemma demo_nul_free [simp]: "nul_free demo_child"
  by (simp add: nul_free_def command_strings_def demo_child_def command_new_def identity_env_def demo_alice_def
      show_path_def)

lemma demo_session:
  "\<exists>k'. session_handle (demo_auth {}) demo_config demo_auth_fs demo_os demo_schedule ''alice''
     [Request (Env ''LD_PRELOAD'' ''evil.so'') False, Request (Env ''LANG'' ''C'') False,
      Request (Exec ''id'') True, Data [104, 105]] open_sink
   = (SessionOk, Some demo_child, k')"
proof -
  have "session_requests demo_config demo_auth_fs no_requests
     [Request (Env ''LD_PRELOAD'' ''evil.so'') False, Request (Env ''LANG'' ''C'') False,
      Request (Exec ''id'') True, Data [104, 105]] open_sink
    = (LaunchChild (Some ''id'') \<lparr>r_pty = None, r_env = [(''LANG'', ''C'')]\<rparr>, [Data [104, 105]],
       open_sink\<lparr>sent := [RequestSuccess]\<rparr>)"
    by (simp add: reply_then_def add_env_def demo_env_accepted no_requests_def)
  then show ?thesis
    by (simp add: session_handle_def demo_auth_def run_child_def demo_os_def demo_configure
        demo_schedule_def io_pump_def start_pump_def pump_step_def pump_client_def pump_write_def
        pump_read_def pump_exited_def Let_def)
qed

theorem session_child_confined_witness:
  "child_env (\<lambda>_. None) demo_child ''USER'' = Some ''alice''"
proof -
  obtain k' where "session_handle (demo_auth {}) demo_config demo_auth_fs demo_os demo_schedule
     ''alice'' [Request (Env ''LD_PRELOAD'' ''evil.so'') False, Request (Env ''LANG'' ''C'') False,
      Request (Exec ''id'') True, Data [104, 105]] open_sink = (SessionOk, Some demo_child, k')"
    using demo_session by blast
  from session_child_confined [OF this, of "\<lambda>_. None"] show ?thesis
    by (auto simp: demo_auth_def identity_env_def demo_alice_def)
qed

lemma root_drop_succeeds_instance:
  "\<exists>c'. run_pre_exec (\<lambda>_. {27}) (pre_exec demo_child)
     \<lparr>c_uid = 0, c_gid = 0, c_groups = {0}\<rparr> = Some c' \<and> c_uid c' = 1000"
  using root_drop_succeeds [OF demo_configure, of "\<lparr>c_uid = 0, c_gid = 0, c_groups = {0}\<rparr>"]
  by (simp add: demo_alice_def)


lemma terminal_output_lost_at_exit_instance:
  "\<exists>k'. run_child demo_os ([] @ ChildExited (Some (Exited 0)) # [PtyReadable (ReadBytes [65])])
       demo_alice (Some ''id'') None [(''LANG'', ''C'')] open_sink = (SessionOk, Some demo_child, k')
     \<and> data_stream (sent k') = []"
  using terminal_output_lost_at_exit [of open_sink demo_os demo_alice "Some ''id''"
      "[(''LANG'', ''C'')]" None demo_child "[]" "Exited 0" "[PtyReadable (ReadBytes [65])]"]
    demo_configure
  by (auto simp: demo_os_def start_pump_def)

lemma subsystem_output_drained_instance:
  "\<exists>cmd k' ms. run_subsystem demo_os ([SubExited (Some (Exited 3)), StdoutRead (PipeBytes [65])]
       @ StdoutRead PipeEnd # []) None None demo_alice ''sftp'' [] open_sink
       = (SessionOk, Some cmd, k')
     \<and> sent k' = ms @ [Eof, ExitStatus 3, Close] \<and> data_stream ms = [65]"
proof -
  obtain cmd where c: "configure_child (os_euid demo_os)
      ((command_new (u_shell demo_alice))\<lparr>args := [''-c'', ''sftp'']\<rparr>) demo_alice [] None False = Inr cmd" "nul_free cmd"
    by (simp add: configure_child_def demo_os_def demo_alice_def nul_free_def command_strings_def command_new_def
        identity_env_def show_path_def)
  have es: "list_all sub_stays [SubExited (Some (Exited 3)), StdoutRead (PipeBytes [65])]"
    "first_exit [SubExited (Some (Exited 3)), StdoutRead (PipeBytes [65])] = Some (Exited 3)"
    by simp_all
  have "spawns demo_os" by (simp add: demo_os_def)
  from subsystem_output_drained [OF es(1) _ this c(1) es(2) c(2), of open_sink "[]" None None]
  show ?thesis by auto
qed

end
