(* ===== verification/Client_Config.thy ===== *)
theory Client_Config
  imports Files
begin

text \<open>
  What the client makes of its arguments and files: \<^verbatim>\<open>sqsh/src/target.rs\<close> and
  \<^verbatim>\<open>sqsh/src/config.rs\<close> (targets, forward specifications, persistence, the reader of
  \<^verbatim>\<open>~/.ssh/config\<close> and the resolution of all of them). SHA-256 is an argument.
\<close>

datatype config_error =
    EmptyTarget
  | EmptyUser
  | UnclosedBracket
  | ExpectedPort
  | BadPort
  | EmptyHost
  | BadForward string
  | BadDuration string
  | BadUnit string
  | ConfigIo io_kind

definition parse_port :: "string \<Rightarrow> config_error + u16" where
  "parse_port s = ok_or BadPort (parse_u16 s)"

section \<open>Targets (target.rs)\<close>

record target =
  tg_user :: "string option"
  tg_host :: string
  tg_port :: "u16 option"

definition parse_target_user :: "string \<Rightarrow> config_error + string option \<times> string" where
  "parse_target_user input = (case split_once CHR ''@'' input of
      Some (u, r) \<Rightarrow> if u \<noteq> [] then Inr (Some u, r) else Inl EmptyUser
    | None \<Rightarrow> Inr (None, input))"

definition parse_target_address :: "string \<Rightarrow> config_error + string \<times> u16 option" where
  "parse_target_address rest = (case strip_prefix ''['' rest of
      Some stripped \<Rightarrow> (case split_once CHR '']'' stripped of
          None \<Rightarrow> Inl UnclosedBracket
        | Some (host, after) \<Rightarrow>
            if after = [] then Inr (host, None)
            else (case strip_prefix '':'' after of
                None \<Rightarrow> Inl ExpectedPort
              | Some p \<Rightarrow> res_bind (parse_port p) (\<lambda>n. Inr (host, Some n))))
    | None \<Rightarrow> (case rsplit_once CHR '':'' rest of
          Some (h, p) \<Rightarrow>
            if h \<noteq> [] then res_bind (parse_port p) (\<lambda>n. Inr (h, Some n)) else Inr (rest, None)
        | None \<Rightarrow> Inr (rest, None)))"

definition parse_target :: "string \<Rightarrow> config_error + target" where
  "parse_target input =
     (if input = [] then Inl EmptyTarget
      else res_bind (parse_target_user input) (\<lambda>(user, rest).
           res_bind (parse_target_address rest) (\<lambda>(host, port).
             if host = [] then Inl EmptyHost
             else Inr \<lparr>tg_user = user, tg_host = host, tg_port = port\<rparr>)))"

section \<open>ControlPersist\<close>

text \<open>A timeout is its whole seconds; a product too large saturates.\<close>

datatype control_persist = Disabled | Forever | PersistFor u64

definition persist_units :: "(string \<times> nat) list" where
  "persist_units =
     map (\<lambda>u. (u, 1)) [[], ''s'', ''sec'', ''secs'', ''second'', ''seconds'']
     @ map (\<lambda>u. (u, 60)) [''m'', ''min'', ''mins'', ''minute'', ''minutes'']
     @ map (\<lambda>u. (u, 3600)) [''h'', ''hr'', ''hrs'', ''hour'', ''hours'']"

definition saturating_mul_u64 :: "nat \<Rightarrow> nat \<Rightarrow> u64" where
  "saturating_mul_u64 a b = word_of_nat (min (2 ^ 64 - 1) (a * b))"

definition parse_duration :: "string \<Rightarrow> config_error + u64" where
  "parse_duration v =
     (let n = length (takeWhile is_ascii_digit v);
          digits = take n (trim v); unit = drop n (trim v)
      in if digits = [] then Inl (BadDuration v)
         else case parse_uint (2 ^ 64) digits of
             None \<Rightarrow> Inl (BadDuration v)
           | Some amount \<Rightarrow> (case map_of persist_units unit of
               None \<Rightarrow> Inl (BadUnit unit)
             | Some multiplier \<Rightarrow> Inr (saturating_mul_u64 amount multiplier)))"

definition parse_control_persist :: "string option \<Rightarrow> config_error + control_persist" where
  "parse_control_persist v = (case v of
      None \<Rightarrow> Inr Disabled
    | Some s \<Rightarrow>
        let t = ascii_lower (trim s) in
        if t \<in> {[], ''yes'', ''true''} then Inr Forever
        else if t \<in> {''no'', ''false''} then Inr Disabled
        else res_bind (parse_duration t) (\<lambda>d. Inr (PersistFor d)))"

definition persist_is_enabled :: "control_persist \<Rightarrow> bool" where
  "persist_is_enabled p \<longleftrightarrow> p \<noteq> Disabled"

fun persist_as_arg :: "control_persist \<Rightarrow> string option" where
  "persist_as_arg Disabled = None"
| "persist_as_arg Forever = Some ''yes''"
| "persist_as_arg (PersistFor d) = Some (show_nat (unat d))"

fun persist_idle_timeout :: "control_persist \<Rightarrow> u64 option" where
  "persist_idle_timeout (PersistFor d) = Some d"
| "persist_idle_timeout _ = None"

section \<open>The words of a configuration line\<close>

text \<open>
  \<open>cur\<close> is the word so far in reverse. Quotes keep white space, equal signs and hashes; a
  backslash takes the next character as it is, in quotes too.
\<close>

function tokenize_from :: "char option \<Rightarrow> bool \<Rightarrow> string \<Rightarrow> string \<Rightarrow> string list" where
  "tokenize_from quote escaped cur s =
     (case s of
        [] \<Rightarrow> (if cur = [] then [] else [rev cur])
      | ch # r \<Rightarrow>
          if escaped then tokenize_from quote False (ch # cur) r
          else if ch = CHR 0x5C then tokenize_from quote True cur r
          else if (ch = CHR 0x27 \<or> ch = CHR 0x22) \<and> quote = Some ch
            then tokenize_from None False cur r
          else if (ch = CHR 0x27 \<or> ch = CHR 0x22) \<and> quote = None
            then tokenize_from (Some ch) False cur r
          else if ch = CHR ''#'' \<and> quote = None then (if cur = [] then [] else [rev cur])
          else if ch = CHR ''='' \<and> quote = None
            then (if cur = [] then [] else [rev cur]) @ tokenize_from quote False [] r
          else if ws_len s \<noteq> 0 \<and> quote = None
            then (if cur = [] then [] else [rev cur])
              @ tokenize_from quote False [] (drop (ws_len s) s)
          else tokenize_from quote False (ch # cur) r)"
  by pat_completeness auto
termination
  by (relation "measure (\<lambda>(q, e, cur, s). length s)") (auto simp: diff_less)

declare tokenize_from.simps [simp del]

definition tokenize_config_line :: "string \<Rightarrow> string list" where
  "tokenize_config_line line = tokenize_from None False [] line"

section \<open>Forward specifications\<close>

record forward_spec =
  fw_bind_addr :: string
  fw_bind_port :: u16
  fw_target_host :: string
  fw_target_port :: u16

definition forward_of :: "string \<Rightarrow> string \<Rightarrow> string \<Rightarrow> string \<Rightarrow> config_error + forward_spec" where
  "forward_of addr bport host tport =
     res_bind (parse_port bport) (\<lambda>b. res_bind (parse_port tport) (\<lambda>t.
       Inr \<lparr>fw_bind_addr = addr, fw_bind_port = b, fw_target_host = host, fw_target_port = t\<rparr>))"

definition parse_forward :: "string \<Rightarrow> config_error + forward_spec" where
  "parse_forward s = (case split_all CHR '':'' s of
      [bport, host, tport] \<Rightarrow> forward_of ''127.0.0.1'' bport host tport
    | [addr, bport, host, tport] \<Rightarrow> forward_of addr bport host tport
    | _ \<Rightarrow> Inl (BadForward s))"

definition parse_forward_ssh :: "string \<Rightarrow> config_error + forward_spec" where
  "parse_forward_ssh v = (case tokenize_config_line v of
      [single] \<Rightarrow> parse_forward single
    | [listen, tgt] \<Rightarrow> parse_forward (listen @ '':'' @ tgt)
    | _ \<Rightarrow> Inl (BadForward v))"

section \<open>Host patterns\<close>

fun wildcard_match :: "string \<Rightarrow> string \<Rightarrow> bool" where
  "wildcard_match [] v \<longleftrightarrow> v = []"
| "wildcard_match (c # pat) [] \<longleftrightarrow> c = CHR ''*'' \<and> wildcard_match pat []"
| "wildcard_match (c # pat) (x # v) \<longleftrightarrow>
     (if c = CHR ''*'' then wildcard_match pat (x # v) \<or> wildcard_match (c # pat) v
      else if c = CHR ''?'' then wildcard_match pat v
      else ascii_lower_char c = ascii_lower_char x \<and> wildcard_match pat v)"

fun host_patterns_from :: "bool \<Rightarrow> string list \<Rightarrow> string \<Rightarrow> bool" where
  "host_patterns_from matched [] host = matched"
| "host_patterns_from matched (p # ps) host = (case strip_prefix ''!'' p of
      Some q \<Rightarrow> if wildcard_match q host then False else host_patterns_from matched ps host
    | None \<Rightarrow> host_patterns_from (matched \<or> wildcard_match p host) ps host)"

definition host_patterns_match :: "string list \<Rightarrow> string \<Rightarrow> bool" where
  "host_patterns_match patterns host = host_patterns_from False patterns host"

section \<open>The ssh configuration file\<close>

record ssh_host_config =
  sh_host_name :: "string option"
  sh_user :: "string option"
  sh_port :: "u16 option"
  sh_identity_file :: "string option"
  sh_local_forwards :: "forward_spec list"
  sh_remote_forwards :: "forward_spec list"
  sh_control_path :: "string option"
  sh_control_master :: "bool option"
  sh_control_persist :: "string option"

definition default_ssh_host_config :: ssh_host_config where
  "default_ssh_host_config =
     \<lparr>sh_host_name = None, sh_user = None, sh_port = None, sh_identity_file = None,
      sh_local_forwards = [], sh_remote_forwards = [], sh_control_path = None,
      sh_control_master = None, sh_control_persist = None\<rparr>"

fun set_once :: "'a option \<Rightarrow> 'a \<Rightarrow> 'a option" where
  "set_once None v = Some v"
| "set_once (Some old) v = Some old"

definition parse_control_master :: "string \<Rightarrow> bool" where
  "parse_control_master v \<longleftrightarrow>
     ascii_lower (trim v) \<in> {''yes'', ''true'', ''auto'', ''autoask'', ''ask''}"

definition apply_keyword :: "string \<Rightarrow> string \<Rightarrow> ssh_host_config \<Rightarrow> config_error + ssh_host_config"
where
  "apply_keyword keyword v cfg =
     (if keyword = ''hostname''
        then Inr (cfg\<lparr>sh_host_name := set_once (sh_host_name cfg) v\<rparr>)
      else if keyword = ''user'' then Inr (cfg\<lparr>sh_user := set_once (sh_user cfg) v\<rparr>)
      else if keyword = ''port'' then
        (if sh_port cfg = None
         then res_bind (parse_port v) (\<lambda>p. Inr (cfg\<lparr>sh_port := Some p\<rparr>)) else Inr cfg)
      else if keyword = ''identityfile''
        then Inr (cfg\<lparr>sh_identity_file := set_once (sh_identity_file cfg) v\<rparr>)
      else if keyword = ''localforward'' then
        res_bind (parse_forward_ssh v)
          (\<lambda>f. Inr (cfg\<lparr>sh_local_forwards := sh_local_forwards cfg @ [f]\<rparr>))
      else if keyword = ''remoteforward'' then
        res_bind (parse_forward_ssh v)
          (\<lambda>f. Inr (cfg\<lparr>sh_remote_forwards := sh_remote_forwards cfg @ [f]\<rparr>))
      else if keyword = ''controlpath''
        then Inr (cfg\<lparr>sh_control_path := set_once (sh_control_path cfg) v\<rparr>)
      else if keyword = ''controlmaster''
        then Inr (cfg\<lparr>sh_control_master := set_once (sh_control_master cfg) (parse_control_master v)\<rparr>)
      else if keyword = ''controlpersist''
        then Inr (cfg\<lparr>sh_control_persist := set_once (sh_control_persist cfg) v\<rparr>)
      else Inr cfg)"

fun parse_ssh_lines ::
  "string \<Rightarrow> bool \<Rightarrow> ssh_host_config \<Rightarrow> string list \<Rightarrow> config_error + ssh_host_config" where
  "parse_ssh_lines tgt active cfg [] = Inr cfg"
| "parse_ssh_lines tgt active cfg (line # rest) =
     (case tokenize_config_line line of
        [] \<Rightarrow> parse_ssh_lines tgt active cfg rest
      | kw # args \<Rightarrow>
          let keyword = ascii_lower kw in
          if keyword = ''host''
          then parse_ssh_lines tgt (host_patterns_match args tgt) cfg rest
          else if \<not> active \<or> args = [] then parse_ssh_lines tgt active cfg rest
          else res_bind (apply_keyword keyword (join_with '' '' args) cfg)
            (\<lambda>cfg1. parse_ssh_lines tgt active cfg1 rest))"

definition parse_ssh_config :: "string \<Rightarrow> string \<Rightarrow> config_error + ssh_host_config" where
  "parse_ssh_config contents tgt = parse_ssh_lines tgt True default_ssh_host_config (lines contents)"

definition load_ssh_config :: "path \<Rightarrow> fsys \<Rightarrow> string \<Rightarrow> config_error + ssh_host_config" where
  "load_ssh_config p fs tgt = (case read_to_string p fs of
      Inr contents \<Rightarrow> parse_ssh_config contents tgt
    | Inl e \<Rightarrow> if e = NotFound then Inr default_ssh_host_config else Inl (ConfigIo e))"

section \<open>Paths in the configuration\<close>

fun expand_percent :: "string \<Rightarrow> string \<Rightarrow> u16 \<Rightarrow> string \<Rightarrow> string \<Rightarrow> string" where
  "expand_percent host orig p user [] = []"
| "expand_percent host orig p user [c] = [c]"
| "expand_percent host orig p user (c # d # s) =
     (if c = CHR ''%'' then
        (if d = CHR ''h'' then host
         else if d = CHR ''n'' then orig
         else if d = CHR ''p'' then show_u16 p
         else if d = CHR ''r'' then user
         else if d = CHR ''%'' then ''%''
         else [c, d]) @ expand_percent host orig p user s
      else c # expand_percent host orig p user (d # s))"

definition expand_ssh_path :: "string \<Rightarrow> path \<Rightarrow> string \<Rightarrow> string \<Rightarrow> u16 \<Rightarrow> string \<Rightarrow> path" where
  "expand_ssh_path p home host orig prt user =
     (let expanded = expand_percent host orig prt user p in
      if expanded = ''~'' then home
      else case strip_prefix ''~/'' expanded of
          Some rest \<Rightarrow> path_join home rest
        | None \<Rightarrow> path_of_string expanded)"

definition hex_byte :: "byte \<Rightarrow> string" where
  "hex_byte b = [digit_char (unat b div 16), digit_char (unat b mod 16)]"

definition default_control_path ::
  "(byte list \<Rightarrow> byte list) \<Rightarrow> path \<Rightarrow> string \<Rightarrow> string \<Rightarrow> u16 \<Rightarrow> path" where
  "default_control_path sha256 config_dir user host prt =
     (let digest = sha256 (str_bytes user @ [0] @ str_bytes host @ [0] @ u16_to_le_bytes prt);
          name = ''cm-'' @ concat (map hex_byte (take 8 digest)) @ ''.sock''
      in path_join (path_join config_dir ''control'') name)"

section \<open>Resolution\<close>

record client_config =
  cc_host :: string
  cc_port :: u16
  cc_ssh_port :: u16
  cc_username :: string
  cc_identity_path :: path
  cc_known_hosts_path :: path
  cc_command :: "string option"
  cc_subsystem :: "string option"
  cc_local_forwards :: "forward_spec list"
  cc_remote_forwards :: "forward_spec list"
  cc_no_shell :: bool
  cc_control_path :: path
  cc_control_path_explicit :: bool
  cc_control_master :: bool
  cc_control_master_auto :: bool
  cc_control_persist :: control_persist

text \<open>The command line, as the argument parser hands it over.\<close>

record cli_args =
  a_target :: string
  a_port :: "u16 option"
  a_ssh_port :: "u16 option"
  a_user :: "string option"
  a_identity :: "string option"
  a_command :: "string list"
  a_subsystem :: "string option"
  a_local_forwards :: "string list"
  a_remote_forwards :: "string list"
  a_no_shell :: bool
  a_control_path :: "string option"
  a_control_master :: bool
  a_control_persist :: "string option"

fun first_some :: "'a option list \<Rightarrow> 'a \<Rightarrow> 'a" where
  "first_some [] d = d"
| "first_some (Some a # os) d = a"
| "first_some (None # os) d = first_some os d"

definition resolved ::
  "(byte list \<Rightarrow> byte list) \<Rightarrow> path \<Rightarrow> string option \<Rightarrow> cli_args \<Rightarrow> target \<Rightarrow> ssh_host_config
    \<Rightarrow> forward_spec list \<Rightarrow> forward_spec list \<Rightarrow> control_persist \<Rightarrow> client_config" where
  "resolved sha256 home user_env a tg ssh lf rf persist =
     (let config_dir = path_join (path_join home ''.config'') ''sqsh'';
          host = first_some [sh_host_name ssh] (tg_host tg);
          username = first_some [a_user a, tg_user tg, sh_user ssh, user_env] ''root'';
          prt = first_some [a_port a, tg_port tg, sh_port ssh] 2222;
          expand = (\<lambda>p. expand_ssh_path p home host (tg_host tg) prt username)
      in \<lparr>cc_host = host,
          cc_port = prt,
          cc_ssh_port = first_some [a_ssh_port a] 22,
          cc_username = username,
          cc_identity_path = first_some
            [map_option path_of_string (a_identity a), map_option expand (sh_identity_file ssh)]
            (path_join config_dir ''id_ml_dsa_65''),
          cc_known_hosts_path = path_join config_dir ''known_hosts'',
          cc_command = (if a_subsystem a \<noteq> None \<or> a_command a = [] then None
            else Some (join_with '' '' (a_command a))),
          cc_subsystem = a_subsystem a,
          cc_local_forwards = sh_local_forwards ssh @ lf,
          cc_remote_forwards = sh_remote_forwards ssh @ rf,
          cc_no_shell = a_no_shell a,
          cc_control_path = first_some
            [map_option path_of_string (a_control_path a), map_option expand (sh_control_path ssh)]
            (default_control_path sha256 config_dir username host prt),
          cc_control_path_explicit = (a_control_path a \<noteq> None \<or> sh_control_path ssh \<noteq> None),
          cc_control_master = a_control_master a,
          cc_control_master_auto = first_some [sh_control_master ssh] False,
          cc_control_persist = persist\<rparr>)"

definition resolve_with_home ::
  "(byte list \<Rightarrow> byte list) \<Rightarrow> path \<Rightarrow> string option \<Rightarrow> fsys \<Rightarrow> cli_args
    \<Rightarrow> config_error + client_config" where
  "resolve_with_home sha256 home user_env fs a =
     res_bind (parse_target (a_target a)) (\<lambda>tg.
     res_bind (load_ssh_config (path_join (path_join home ''.ssh'') ''config'') fs (tg_host tg)) (\<lambda>ssh.
     res_bind (collect_results (map parse_forward (a_local_forwards a))) (\<lambda>lf.
     res_bind (collect_results (map parse_forward (a_remote_forwards a))) (\<lambda>rf.
     res_bind (parse_control_persist
         (if a_control_persist a \<noteq> None then a_control_persist a else sh_control_persist ssh))
       (\<lambda>persist. Inr (resolved sha256 home user_env a tg ssh lf rf persist))))))"

definition resolve_args ::
  "(byte list \<Rightarrow> byte list) \<Rightarrow> (string \<Rightarrow> string option) \<Rightarrow> fsys \<Rightarrow> cli_args
    \<Rightarrow> config_error + client_config" where
  "resolve_args sha256 env fs a = resolve_with_home sha256
     (path_of_string (case env ''HOME'' of Some h \<Rightarrow> h | None \<Rightarrow> ''/tmp'')) (env ''USER'') fs a"

section \<open>What patterns mean\<close>

text \<open>
  The meaning of a host pattern: a star stands for any text, a question mark for one byte, and any
  other byte for itself, whatever the ASCII case.
\<close>

inductive glob :: "string \<Rightarrow> string \<Rightarrow> bool" where
  glob_end: "glob [] []"
| glob_star: "glob pat v \<Longrightarrow> glob (CHR ''*'' # pat) (u @ v)"
| glob_any: "glob pat v \<Longrightarrow> glob (CHR ''?'' # pat) (x # v)"
| glob_char: "glob pat v \<Longrightarrow> c \<noteq> CHR ''*'' \<Longrightarrow> c \<noteq> CHR ''?'' \<Longrightarrow>
    ascii_lower_char c = ascii_lower_char x \<Longrightarrow> glob (c # pat) (x # v)"

inductive_simps glob_simps: "glob [] v" "glob (c # pat) []" "glob (c # pat) (x # v)"
inductive_cases glob_starE: "glob (CHR ''*'' # pat) v"

lemma glob_star_iff: "glob (CHR ''*'' # pat) (x # v) \<longleftrightarrow> glob pat (x # v) \<or> glob (CHR ''*'' # pat) v"
proof
  assume "glob (CHR ''*'' # pat) (x # v)"
  then obtain u w where "x # v = u @ w" "glob pat w" by (auto elim: glob_starE)
  then show "glob pat (x # v) \<or> glob (CHR ''*'' # pat) v"
    by (cases u) (auto intro: glob_star)
next
  assume "glob pat (x # v) \<or> glob (CHR ''*'' # pat) v"
  then show "glob (CHR ''*'' # pat) (x # v)"
  proof
    assume "glob pat (x # v)"
    then show ?thesis using glob_star [of pat "x # v" "[]"] by simp
  next
    assume "glob (CHR ''*'' # pat) v"
    then obtain u w where "v = u @ w" "glob pat w" by (auto elim: glob_starE)
    then show ?thesis using glob_star [of pat w "x # u"] by simp
  qed
qed

lemma glob_star_Nil: "glob (CHR ''*'' # pat) [] \<longleftrightarrow> glob pat []"
  using glob_star [of pat "[]" "[]"] by (auto elim: glob_starE)

lemma wildcard_match_glob: "wildcard_match pat v \<longleftrightarrow> glob pat v"
proof (induction pat v rule: wildcard_match.induct)
  case (2 c pat)
  then show ?case by (cases "c = CHR ''*''") (auto simp: glob_star_Nil glob_simps)
next
  case (3 c pat x v)
  show ?case
  proof (cases "c = CHR ''*''")
    case True
    with 3 show ?thesis by (simp add: glob_star_iff)
  next
    case False
    with 3 show ?thesis by (auto simp: glob_simps)
  qed
qed (simp add: glob_simps)

lemma host_patterns_from_iff:
  "host_patterns_from m ps host \<longleftrightarrow>
     (m \<or> (\<exists>p \<in> set ps. \<not> starts_with ''!'' p \<and> glob p host))
     \<and> (\<forall>q. CHR ''!'' # q \<in> set ps \<longrightarrow> \<not> glob q host)"
proof (induction ps arbitrary: m)
  case (Cons p ps)
  show ?case
  proof (cases "strip_prefix ''!'' p")
    case None
    then have "\<not> starts_with ''!'' p" "\<forall>q. p \<noteq> CHR ''!'' # q" by (auto simp: starts_with_def)
    with None Cons show ?thesis by (auto simp: wildcard_match_glob)
  next
    case (Some q)
    then have "p = CHR ''!'' # q" "starts_with ''!'' p"
      by (auto simp: strip_prefix_Some_iff starts_with_def)
    with Some Cons show ?thesis by (auto simp: wildcard_match_glob)
  qed
qed simp

section \<open>Printing what is parsed\<close>

definition show_target :: "target \<Rightarrow> string" where
  "show_target t =
     (case tg_user t of None \<Rightarrow> [] | Some u \<Rightarrow> u @ ''@'')
     @ (if CHR '':'' \<in> set (tg_host t) then ''['' @ tg_host t @ '']'' else tg_host t)
     @ (case tg_port t of None \<Rightarrow> [] | Some p \<Rightarrow> '':'' @ show_u16 p)"

definition wf_target :: "target \<Rightarrow> bool" where
  "wf_target t \<longleftrightarrow> tg_host t \<noteq> [] \<and> hd (tg_host t) \<noteq> CHR ''['' \<and> CHR '']'' \<notin> set (tg_host t)
     \<and> (case tg_user t of None \<Rightarrow> CHR ''@'' \<notin> set (tg_host t)
        | Some u \<Rightarrow> u \<noteq> [] \<and> CHR ''@'' \<notin> set u)"

definition show_forward :: "forward_spec \<Rightarrow> string" where
  "show_forward f = fw_bind_addr f @ '':'' @ show_u16 (fw_bind_port f) @ '':''
     @ fw_target_host f @ '':'' @ show_u16 (fw_target_port f)"

fun escape_quoted :: "string \<Rightarrow> string" where
  "escape_quoted [] = []"
| "escape_quoted (c # s) =
     (if c = CHR 0x5C \<or> c = CHR 0x22 then CHR 0x5C # c # escape_quoted s else c # escape_quoted s)"

definition quote_token :: "string \<Rightarrow> string" where
  "quote_token t = CHR 0x22 # escape_quoted t @ [CHR 0x22]"

lemma show_u16_no_at [simp]: "CHR ''@'' \<notin> set (show_u16 p)"
  by (simp add: show_u16_def)

lemma tokenize_backslash: "tokenize_from q False cur (CHR 0x5C # s) = tokenize_from q True cur s"
  by (subst tokenize_from.simps) simp

lemma tokenize_escaped: "tokenize_from q True cur (c # s) = tokenize_from q False (c # cur) s"
  by (subst tokenize_from.simps) simp

lemma tokenize_quoted_char:
  "c \<noteq> CHR 0x5C \<Longrightarrow> c \<noteq> CHR 0x22 \<Longrightarrow>
     tokenize_from (Some CHR 0x22) False cur (c # s) = tokenize_from (Some CHR 0x22) False (c # cur) s"
  by (subst tokenize_from.simps) auto

lemma tokenize_close:
  "tokenize_from (Some CHR 0x22) False cur (CHR 0x22 # s) = tokenize_from None False cur s"
  by (subst tokenize_from.simps) simp

lemma tokenize_open:
  "tokenize_from None False cur (CHR 0x22 # s) = tokenize_from (Some CHR 0x22) False cur s"
  by (subst tokenize_from.simps) simp

lemma tokenize_space:
  "tokenize_from None False cur (CHR '' '' # s)
    = (if cur = [] then [] else [rev cur]) @ tokenize_from None False [] s"
  by (subst tokenize_from.simps) simp

lemma tokenize_end: "tokenize_from q e cur [] = (if cur = [] then [] else [rev cur])"
  by (subst tokenize_from.simps) simp

lemma tokenize_in_quotes:
  "tokenize_from (Some CHR 0x22) False cur (escape_quoted t @ CHR 0x22 # s)
    = tokenize_from None False (rev t @ cur) s"
  by (induction t arbitrary: cur)
    (simp_all add: tokenize_close tokenize_backslash tokenize_escaped tokenize_quoted_char)

lemma tokenize_quote_token:
  "tokenize_from None False [] (quote_token t @ s) = tokenize_from None False (rev t) s"
  by (simp add: quote_token_def tokenize_open tokenize_in_quotes)

lemma tokenize_join:
  "\<forall>t \<in> set ts. t \<noteq> [] \<Longrightarrow>
     tokenize_from None False [] (join_with '' '' (map quote_token ts)) = ts"
proof (induction ts)
  case (Cons t ts)
  show ?case
  proof (cases ts)
    case Nil
    with Cons.prems tokenize_quote_token [of t "[]"] show ?thesis by (simp add: tokenize_end)
  next
    case (Cons u us)
    with Cons.IH Cons.prems show ?thesis
      by (simp add: tokenize_quote_token tokenize_space)
  qed
qed (simp add: tokenize_end)

lemma parse_port_show [simp]: "parse_port (show_u16 p) = Inr p"
  by (simp add: parse_port_def)

lemma parse_address_show:
  assumes "h \<noteq> []" "hd h \<noteq> CHR ''[''" "CHR '']'' \<notin> set h"
  shows "parse_target_address ((if CHR '':'' \<in> set h then ''['' @ h @ '']'' else h)
      @ (case p of None \<Rightarrow> [] | Some n \<Rightarrow> '':'' @ show_u16 n)) = Inr (h, p)"
proof (cases "CHR '':'' \<in> set h")
  case True
  with assms(3) show ?thesis by (cases p) (simp_all add: parse_target_address_def)
next
  case False
  have pre: "strip_prefix ''['' (h @ s) = None" for s
    using assms(1,2) by (cases h) auto
  show ?thesis
  proof (cases p)
    case None
    with False pre [of "[]"] show ?thesis
      by (simp add: parse_target_address_def iffD2 [OF rsplit_once_None_iff])
  next
    case (Some n)
    have "rsplit_once CHR '':'' (h @ CHR '':'' # show_u16 n) = Some (h, show_u16 n)"
      by (rule rsplit_once_append) simp
    with False Some assms(1) pre show ?thesis by (simp add: parse_target_address_def)
  qed
qed

lemma parse_target_user_none: "CHR ''@'' \<notin> set s \<Longrightarrow> parse_target_user s = Inr (None, s)"
  by (simp add: parse_target_user_def iffD2 [OF split_once_None_iff])

lemma target_roundtrip:
  assumes "wf_target t"
  shows "parse_target (show_target t) = Inr t"
proof -
  let ?addr = "(if CHR '':'' \<in> set (tg_host t) then ''['' @ tg_host t @ '']'' else tg_host t)
      @ (case tg_port t of None \<Rightarrow> [] | Some n \<Rightarrow> '':'' @ show_u16 n)"
  have addr: "parse_target_address ?addr = Inr (tg_host t, tg_port t)"
    using assms by (intro parse_address_show) (auto simp: wf_target_def)
  have ne: "show_target t \<noteq> []" using assms by (auto simp: show_target_def wf_target_def)
  have "parse_target_user (show_target t) = Inr (tg_user t, ?addr)"
  proof (cases "tg_user t")
    case None
    with assms have "CHR ''@'' \<notin> set ?addr"
      by (auto simp: wf_target_def split: option.split)
    then have "parse_target_user ?addr = Inr (None, ?addr)" by (rule parse_target_user_none)
    moreover have "show_target t = ?addr" using None by (simp add: show_target_def)
    ultimately show ?thesis using None by (simp only:)
  next
    case (Some u)
    with assms have u: "u \<noteq> []" "CHR ''@'' \<notin> set u" by (simp_all add: wf_target_def)
    then have "split_once CHR ''@'' (u @ CHR ''@'' # ?addr) = Some (u, ?addr)" by (intro split_once_append)
    with Some u show ?thesis by (simp add: parse_target_user_def show_target_def)
  qed
  with addr ne assms show ?thesis by (simp add: parse_target_def wf_target_def)
qed

lemma forward_roundtrip:
  assumes "CHR '':'' \<notin> set (fw_bind_addr f)" "CHR '':'' \<notin> set (fw_target_host f)"
  shows "parse_forward (show_forward f) = Inr f"
  using assms
  by (simp add: parse_forward_def show_forward_def split_all_append split_all_no_sep forward_of_def)

lemma digits_not_word:
  "show_nat n \<noteq> ''yes''" "show_nat n \<noteq> ''true''" "show_nat n \<noteq> ''no''" "show_nat n \<noteq> ''false''"
proof -
  have "\<not> is_ascii_digit CHR ''e''" "\<not> is_ascii_digit CHR ''n''"
    by (simp_all add: is_ascii_digit_def code_def)
  then have "CHR ''e'' \<notin> set (show_nat n)" "CHR ''n'' \<notin> set (show_nat n)" by simp_all
  then show "show_nat n \<noteq> ''yes''" "show_nat n \<noteq> ''true''" "show_nat n \<noteq> ''no''"
    "show_nat n \<noteq> ''false''" by auto
qed

lemma ascii_lower_show_nat [simp]: "ascii_lower (show_nat n) = show_nat n"
proof -
  have "ascii_lower_char c = c" if "c \<in> set (show_nat n)" for c
    using show_nat_digits [OF that]
    by (simp add: ascii_lower_char_def is_ascii_upper_def is_ascii_digit_def)
  then show ?thesis by (simp add: ascii_lower_def map_idI)
qed

lemma control_persist_roundtrip: "parse_control_persist (persist_as_arg p) = Inr p"
proof (cases p)
  case (PersistFor d)
  let ?s = "show_nat (unat d)"
  have "unat d < 2 ^ LENGTH(64)" by (rule unsigned_less)
  then have d: "unat d < 2 ^ 64" by simp
  have tw: "takeWhile is_ascii_digit ?s = ?s"
    using show_nat_digits by (simp add: takeWhile_eq_all_conv)
  have "saturating_mul_u64 (unat d) 1 = d" using d by (simp add: saturating_mul_u64_def)
  then have "parse_duration ?s = Inr d"
    using d by (simp add: parse_duration_def tw parse_uint_show_nat persist_units_def)
  with PersistFor digits_not_word show ?thesis by (simp add: parse_control_persist_def)
qed (simp_all add: parse_control_persist_def ascii_lower_def ascii_lower_char_def
    is_ascii_upper_def plain_char_def code_def)

section \<open>Properties\<close>

text \<open>
  A host block applies exactly when some pattern of its line that is not negated matches the
  host and no negated one does, whatever the order they are written in; and a pattern matches as
  its meaning says, stars standing for any text.
\<close>

lemma host_patterns_meaning:
  "host_patterns_match ps host \<longleftrightarrow>
     (\<exists>p \<in> set ps. \<not> starts_with ''!'' p \<and> glob p host) \<and> (\<forall>q. CHR ''!'' # q \<in> set ps \<longrightarrow> \<not> glob q host)"
  by (simp add: host_patterns_match_def host_patterns_from_iff)

lemma host_patterns_meaning_instance:
  "host_patterns_match [''*.corp'', ''!db?.corp''] ''web.corp''
     \<and> \<not> glob ''db?.corp'' ''web.corp''"
  using host_patterns_meaning [of "[''*.corp'', ''!db?.corp'']" "''web.corp''"]
  by (simp add: host_patterns_match_def ascii_lower_char_def is_ascii_upper_def code_def)

text \<open>
  C35: any list of non-empty words can be written on a configuration line and is read back
  unchanged, whatever they contain: spaces, quotes, backslashes, hashes, equal signs.
\<close>

theorem tokenize_roundtrip:
  assumes "\<forall>t \<in> set ts. t \<noteq> []"
  shows "tokenize_config_line (join_with '' '' (map quote_token ts)) = ts"
  using assms by (simp add: tokenize_config_line_def tokenize_join)

theorem tokenize_roundtrip_witness:
  "tokenize_config_line (join_with '' '' (map quote_token [''Host'', ''a=b #c'', [CHR 0x22, CHR 0x5C]]))
     = [''Host'', ''a=b #c'', [CHR 0x22, CHR 0x5C]]"
  by (rule tokenize_roundtrip) simp

text \<open>
  What the client prints of its own arguments it reads back: targets (with or without user and
  port, IPv6 hosts in brackets), forward specifications, and the persistence it hands to the
  background master.
\<close>

lemma arguments_roundtrip:
  assumes "wf_target t" "CHR '':'' \<notin> set (fw_bind_addr f)" "CHR '':'' \<notin> set (fw_target_host f)"
  shows "parse_target (show_target t) = Inr t \<and> parse_forward (show_forward f) = Inr f
    \<and> parse_control_persist (persist_as_arg p) = Inr p"
  using target_roundtrip [OF assms(1)] forward_roundtrip [OF assms(2,3)] control_persist_roundtrip
  by simp

lemma arguments_roundtrip_instance:
  "parse_target (show_target \<lparr>tg_user = Some ''alice'', tg_host = ''::1'', tg_port = Some 2222\<rparr>)
     = Inr \<lparr>tg_user = Some ''alice'', tg_host = ''::1'', tg_port = Some 2222\<rparr>"
  using arguments_roundtrip
    [of "\<lparr>tg_user = Some ''alice'', tg_host = ''::1'', tg_port = Some 2222\<rparr>"
      "\<lparr>fw_bind_addr = ''127.0.0.1'', fw_bind_port = 80, fw_target_host = ''db'', fw_target_port = 81\<rparr>"
      Forever]
  by (simp add: wf_target_def)

text \<open>What the lines read so far have settled stays so; forwards are only added.\<close>

definition settled :: "ssh_host_config \<Rightarrow> ssh_host_config \<Rightarrow> bool" where
  "settled a b \<longleftrightarrow> (\<forall>v. sh_host_name a = Some v \<longrightarrow> sh_host_name b = Some v)
     \<and> (\<forall>v. sh_user a = Some v \<longrightarrow> sh_user b = Some v)
     \<and> (\<forall>v. sh_port a = Some v \<longrightarrow> sh_port b = Some v)
     \<and> (\<forall>v. sh_identity_file a = Some v \<longrightarrow> sh_identity_file b = Some v)
     \<and> (\<forall>v. sh_control_path a = Some v \<longrightarrow> sh_control_path b = Some v)
     \<and> (\<forall>v. sh_control_master a = Some v \<longrightarrow> sh_control_master b = Some v)
     \<and> (\<forall>v. sh_control_persist a = Some v \<longrightarrow> sh_control_persist b = Some v)
     \<and> (\<exists>fs. sh_local_forwards b = sh_local_forwards a @ fs)
     \<and> (\<exists>fs. sh_remote_forwards b = sh_remote_forwards a @ fs)"

lemma settled_refl [simp]: "settled a a"
  by (simp add: settled_def)

lemma settled_trans: "settled a b \<Longrightarrow> settled b c \<Longrightarrow> settled a c"
  by (auto simp: settled_def)

lemma apply_keyword_settled: "apply_keyword kw v a = Inr b \<Longrightarrow> settled a b"
  by (auto simp: apply_keyword_def settled_def res_bind_Inr_iff split: if_splits)

lemma parse_ssh_lines_settled: "parse_ssh_lines tgt active a ls = Inr b \<Longrightarrow> settled a b"
proof (induction tgt active a ls rule: parse_ssh_lines.induct)
  case (2 tgt active a line rest)
  then show ?case
    by (auto simp: Let_def res_bind_Inr_iff split: list.splits if_splits
        dest: apply_keyword_settled intro: settled_trans)
qed simp

lemma parse_ssh_lines_append:
  "parse_ssh_lines tgt active a (ls @ ls') = Inr c \<Longrightarrow>
     \<exists>b active'. parse_ssh_lines tgt active a ls = Inr b \<and> parse_ssh_lines tgt active' b ls' = Inr c"
proof (induction tgt active a ls rule: parse_ssh_lines.induct)
  case (2 tgt active a line rest)
  then show ?case
    by (auto simp: Let_def res_bind_Inr_iff split: list.splits if_splits)
qed auto

text \<open>
  The first value obtained for a host wins. Once the lines read so far give the host name,
  user, port, identity file, control path, master mode or persistence, no later line of the file
  changes it, and forwards are only ever added.
\<close>

lemma first_value_wins:
  assumes "parse_ssh_lines tgt True default_ssh_host_config (ls @ later) = Inr c"
  shows "\<exists>b. parse_ssh_lines tgt True default_ssh_host_config ls = Inr b \<and> settled b c"
  using parse_ssh_lines_append [OF assms] parse_ssh_lines_settled by blast

definition ssh_line :: "string list \<Rightarrow> string" where
  "ssh_line ts = join_with '' '' (map quote_token ts)"

lemma tokenize_ssh_line: "\<forall>t \<in> set ts. t \<noteq> [] \<Longrightarrow> tokenize_config_line (ssh_line ts) = ts"
  by (simp add: ssh_line_def tokenize_config_line_def tokenize_join)

lemma demo_ssh_lines:
  "parse_ssh_lines ''web'' True default_ssh_host_config
     ([ssh_line [''host'', ''web''], ssh_line [''user'', ''alice'']] @ [ssh_line [''user'', ''root'']])
   = Inr (default_ssh_host_config\<lparr>sh_user := Some ''alice''\<rparr>)"
  by (simp add: tokenize_ssh_line ascii_lower_def ascii_lower_char_def is_ascii_upper_def code_def
      host_patterns_match_def apply_keyword_def default_ssh_host_config_def)

lemma first_value_wins_instance:
  "\<exists>b. settled b (default_ssh_host_config\<lparr>sh_user := Some ''alice''\<rparr>)"
  using first_value_wins [OF demo_ssh_lines] by blast

end
