(* ===== verification/Forwarding.thy ===== *)
theory Forwarding
  imports Client_Config
begin

text \<open>
  TCP port forwarding at both ends: \<^verbatim>\<open>sqshd/src/channel/forward.rs\<close> and
  \<^verbatim>\<open>sqsh/src/channel/forward.rs\<close>. A TCP connection is the events of its reads and the bytes
  written to it; \<open>connect\<close> says which targets accept a connection. The two pumps are separate
  definitions, as in the sources; the locale \<open>ordered_relay\<close> is what both promise.
\<close>

section \<open>Relays\<close>

datatype relay_event =
    TcpBytes "byte list"
  | TcpEnd
  | Framed "channel_message option"

datatype relay_status = Relaying | RelayLeft | RelaySendFailed

record relay =
  rl_sink :: "channel_message sink"
  rl_tcp :: "byte list"
  rl_tcp_room :: "nat option"
  rl_status :: relay_status

definition start_relay :: "nat option \<Rightarrow> channel_message sink \<Rightarrow> relay" where
  "start_relay tcp_room k = \<lparr>rl_sink = k, rl_tcp = [], rl_tcp_room = tcp_room, rl_status = Relaying\<rparr>"

text \<open>\<open>write_all\<close> on the TCP half, and whether it succeeded.\<close>

definition tcp_write :: "byte list \<Rightarrow> relay \<Rightarrow> bool \<times> relay" where
  "tcp_write d s = (case rl_tcp_room s of
      None \<Rightarrow> (True, s\<lparr>rl_tcp := rl_tcp s @ d\<rparr>)
    | Some n \<Rightarrow>
        if length d \<le> n then (True, s\<lparr>rl_tcp := rl_tcp s @ d, rl_tcp_room := Some (n - length d)\<rparr>)
        else (False, s\<lparr>rl_tcp := rl_tcp s @ take n d, rl_tcp_room := Some 0\<rparr>))"

definition server_relay_step :: "relay \<Rightarrow> relay_event \<Rightarrow> relay" where
  "server_relay_step s e =
     (if rl_status s \<noteq> Relaying then s
      else case e of
        TcpEnd \<Rightarrow> s\<lparr>rl_sink := send_quietly Eof (rl_sink s), rl_status := RelayLeft\<rparr>
      | TcpBytes d \<Rightarrow> send_or (Data d) (rl_sink s)
          (\<lambda>k. s\<lparr>rl_sink := k, rl_status := RelaySendFailed\<rparr>) (\<lambda>k. s\<lparr>rl_sink := k\<rparr>)
      | Framed (Some (Data d)) \<Rightarrow> (case tcp_write d s of
            (True, s') \<Rightarrow> s'
          | (False, s') \<Rightarrow> s'\<lparr>rl_status := RelayLeft\<rparr>)
      | Framed (Some Eof) \<Rightarrow> s\<lparr>rl_status := RelayLeft\<rparr>
      | Framed (Some Close) \<Rightarrow> s\<lparr>rl_status := RelayLeft\<rparr>
      | Framed None \<Rightarrow> s\<lparr>rl_status := RelayLeft\<rparr>
      | Framed (Some _) \<Rightarrow> s)"

definition client_relay_step :: "relay \<Rightarrow> relay_event \<Rightarrow> relay" where
  "client_relay_step s e =
     (if rl_status s \<noteq> Relaying then s
      else case e of
        TcpEnd \<Rightarrow> s\<lparr>rl_sink := send_quietly Eof (rl_sink s), rl_status := RelayLeft\<rparr>
      | TcpBytes d \<Rightarrow> send_or (Data d) (rl_sink s)
          (\<lambda>k. s\<lparr>rl_sink := k, rl_status := RelaySendFailed\<rparr>) (\<lambda>k. s\<lparr>rl_sink := k\<rparr>)
      | Framed (Some (Data d)) \<Rightarrow> (case tcp_write d s of
            (True, s') \<Rightarrow> s'
          | (False, s') \<Rightarrow> s'\<lparr>rl_status := RelayLeft\<rparr>)
      | Framed (Some Eof) \<Rightarrow> s\<lparr>rl_status := RelayLeft\<rparr>
      | Framed (Some Close) \<Rightarrow> s\<lparr>rl_status := RelayLeft\<rparr>
      | Framed None \<Rightarrow> s\<lparr>rl_status := RelayLeft\<rparr>
      | Framed (Some _) \<Rightarrow> s)"

section \<open>Connections\<close>

datatype forward_error =
    ConnectFailed string
  | BindFailed string
  | OpenStreamFailed
  | ForwardSend
  | ForwardStreamEnded
  | Refused channel_failure_reason string
  | UnexpectedChannel channel_message
  | NoHandler u16

datatype forward_end = ForwardOk | ForwardErr forward_error | ForwardPending

definition socket_addr :: "string \<Rightarrow> u16 \<Rightarrow> string" where
  "socket_addr host prt = host @ '':'' @ show_u16 prt"

text \<open>The outcome of a handler: how it ended, the target it connected to, and what it sent.\<close>

type_synonym forward_run = "forward_end \<times> string option \<times> channel_message sink"

definition relay_end :: "relay \<Rightarrow> forward_end" where
  "relay_end s = (case rl_status s of
      Relaying \<Rightarrow> ForwardPending | RelayLeft \<Rightarrow> ForwardOk | RelaySendFailed \<Rightarrow> ForwardErr ForwardSend)"

text \<open>What the socket side of a connection does: its room and the events of its pump.\<close>

record tcp_side =
  tcp_capacity :: "nat option"
  tcp_events :: "channel_message list \<Rightarrow> relay_event list"

definition server_pump :: "tcp_side \<Rightarrow> channel_message list \<Rightarrow> channel_message sink \<Rightarrow> relay" where
  "server_pump tcp ms k = foldl server_relay_step (start_relay (tcp_capacity tcp) k) (tcp_events tcp ms)"

definition client_pump :: "tcp_side \<Rightarrow> channel_message list \<Rightarrow> channel_message sink \<Rightarrow> relay" where
  "client_pump tcp ms k = foldl client_relay_step (start_relay (tcp_capacity tcp) k) (tcp_events tcp ms)"

definition handle_direct_tcpip ::
  "(string \<Rightarrow> tcp_side option) \<Rightarrow> tcpip_params \<Rightarrow> channel_message list \<Rightarrow> channel_message sink
    \<Rightarrow> forward_run" where
  "handle_direct_tcpip connect p ms k =
     (let tgt = socket_addr (tp_host p) (tp_port p) in
      case connect tgt of
        None \<Rightarrow> (ForwardErr (ConnectFailed tgt), None, k)
      | Some tcp \<Rightarrow> let s = server_pump tcp ms k in (relay_end s, Some tgt, rl_sink s))"

text \<open>
  Opening a stream to the peer for an accepted connection: the request, then the reply, then the
  pump. \<open>originator\<close> is the address and port of the accepted socket.
\<close>

definition await_confirmation ::
  "channel_message list \<Rightarrow> (channel_message list \<Rightarrow> forward_end \<times> channel_message sink)
    \<Rightarrow> channel_message sink \<Rightarrow> forward_end \<times> channel_message sink" where
  "await_confirmation ms cont k = (case ms of
      [] \<Rightarrow> (ForwardErr ForwardStreamEnded, k)
    | OpenConfirmation n # rest \<Rightarrow> cont rest
    | OpenFailure r d # rest \<Rightarrow> (ForwardErr (Refused r d), k)
    | m # rest \<Rightarrow> (ForwardErr (UnexpectedChannel m), k))"

definition handle_remote_connection ::
  "bool \<Rightarrow> tcp_side \<Rightarrow> string \<times> u16 \<Rightarrow> string \<Rightarrow> u16 \<Rightarrow> channel_message list
    \<Rightarrow> channel_message sink \<Rightarrow> forward_end \<times> channel_message sink" where
  "handle_remote_connection stream_opens tcp originator addr prt ms k =
     (if \<not> stream_opens then (ForwardErr OpenStreamFailed, k)
      else send_or (Open ForwardedTcpip (ForwardedTcpipParams
          \<lparr>tp_host = addr, tp_port = prt, tp_originator_addr = fst originator,
           tp_originator_port = snd originator\<rparr>)) k
        (\<lambda>k1. (ForwardErr ForwardSend, k1))
        (\<lambda>k1. await_confirmation ms
          (\<lambda>rest. let s = server_pump tcp rest k1 in (relay_end s, rl_sink s)) k1))"

definition handle_local_connection ::
  "bool \<Rightarrow> tcp_side \<Rightarrow> string \<times> u16 \<Rightarrow> forward_spec \<Rightarrow> channel_message list
    \<Rightarrow> channel_message sink \<Rightarrow> forward_end \<times> channel_message sink" where
  "handle_local_connection stream_opens tcp originator spec ms k =
     (if \<not> stream_opens then (ForwardErr OpenStreamFailed, k)
      else send_or (Open DirectTcpip (DirectTcpipParams
          \<lparr>tp_host = fw_target_host spec, tp_port = fw_target_port spec,
           tp_originator_addr = fst originator, tp_originator_port = snd originator\<rparr>)) k
        (\<lambda>k1. (ForwardErr ForwardSend, k1))
        (\<lambda>k1. await_confirmation ms
          (\<lambda>rest. let s = client_pump tcp rest k1 in (relay_end s, rl_sink s)) k1))"

text \<open>
  The two accept loops: the connections handled before the first accept error (\<open>None\<close>), each by its
  own task; \<open>Inl\<close> if the listener could not be bound.
\<close>

fun accepted :: "'a option list \<Rightarrow> 'a list" where
  "accepted [] = []"
| "accepted (None # as) = []"
| "accepted (Some a # as) = a # accepted as"

definition run_remote_forward ::
  "(string \<Rightarrow> bool) \<Rightarrow> string \<Rightarrow> u16 \<Rightarrow> (string \<times> u16) option list
    \<Rightarrow> forward_error + (string \<times> u16) list" where
  "run_remote_forward binds addr prt accepts =
     (let bind = socket_addr addr prt in
      if binds bind then Inr (accepted accepts) else Inl (BindFailed bind))"

definition run_local_listener ::
  "(string \<Rightarrow> bool) \<Rightarrow> forward_spec \<Rightarrow> (string \<times> u16) option list
    \<Rightarrow> forward_error + (string \<times> u16) list" where
  "run_local_listener binds spec accepts =
     (let bind = socket_addr (fw_bind_addr spec) (fw_bind_port spec) in
      if binds bind then Inr (accepted accepts) else Inl (BindFailed bind))"

definition handle_remote_forward_stream ::
  "(string \<Rightarrow> tcp_side option) \<Rightarrow> forward_spec list \<Rightarrow> channel_message list
    \<Rightarrow> channel_message sink \<Rightarrow> forward_run" where
  "handle_remote_forward_stream connect specs ms k = (case ms of
      [] \<Rightarrow> (ForwardErr ForwardStreamEnded, None, k)
    | Open ForwardedTcpip (ForwardedTcpipParams p) # rest \<Rightarrow>
        (case find (\<lambda>s. fw_bind_port s = tp_port p) specs of
           None \<Rightarrow> (ForwardErr (NoHandler (tp_port p)), None,
             send_quietly (OpenFailure AdministrativelyProhibited
               (''no handler for forwarded port '' @ show_u16 (tp_port p))) k)
         | Some spec \<Rightarrow>
             let tgt = socket_addr (fw_target_host spec) (fw_target_port spec) in
             (case connect tgt of
                None \<Rightarrow> (ForwardErr (ConnectFailed tgt), None, k)
              | Some tcp \<Rightarrow> send_or (OpenConfirmation (32 * 1024)) k
                  (\<lambda>k1. (ForwardErr ForwardSend, Some tgt, k1))
                  (\<lambda>k1. let s = client_pump tcp rest k1 in (relay_end s, Some tgt, rl_sink s))))
    | m # rest \<Rightarrow> (ForwardErr (UnexpectedChannel m), None, k))"

text \<open>The client's accept loops: one handler for each stream the server opened.\<close>

definition accept_remote_forward_streams ::
  "(string \<Rightarrow> tcp_side option) \<Rightarrow> forward_spec list \<Rightarrow> channel_message list option list
    \<Rightarrow> forward_run list" where
  "accept_remote_forward_streams connect specs streams =
     map (\<lambda>ms. handle_remote_forward_stream connect specs ms open_sink) (accepted streams)"

text \<open>With shared specifications every stream sees those in force when its task reads them.\<close>

definition accept_remote_forward_streams_shared ::
  "(string \<Rightarrow> tcp_side option) \<Rightarrow> (forward_spec list \<times> channel_message list) option list
    \<Rightarrow> forward_run list" where
  "accept_remote_forward_streams_shared connect streams =
     map (\<lambda>(specs, ms). handle_remote_forward_stream connect specs ms open_sink) (accepted streams)"

section \<open>Lemmas\<close>

fun tcp_read :: "relay_event \<Rightarrow> byte list" where
  "tcp_read (TcpBytes d) = d"
| "tcp_read _ = []"

fun framed_data :: "relay_event \<Rightarrow> byte list" where
  "framed_data (Framed (Some (Data d))) = d"
| "framed_data _ = []"

lemma tcp_write_simps:
  "tcp_write d s = (True, s') \<Longrightarrow> rl_tcp s' = rl_tcp s @ d \<and> rl_sink s' = rl_sink s \<and> rl_status s' = rl_status s"
  "tcp_write d s = (b, s') \<Longrightarrow> rl_sink s' = rl_sink s"
  by (auto simp: tcp_write_def split: option.splits if_splits)

lemma server_relay_room:
  "room (rl_sink s) = None \<Longrightarrow> room (rl_sink (server_relay_step s e)) = None"
  by (auto simp: server_relay_step_def dest: tcp_write_simps(2) split: relay_event.split
      option.split channel_message.split prod.split bool.split)

lemma server_relay_relays:
  "room (rl_sink s) = None \<Longrightarrow> rl_status (server_relay_step s e) = Relaying \<Longrightarrow>
     rl_status s = Relaying
     \<and> data_stream (sent (rl_sink (server_relay_step s e))) = data_stream (sent (rl_sink s)) @ tcp_read e
     \<and> rl_tcp (server_relay_step s e) = rl_tcp s @ framed_data e"
  by (auto simp: server_relay_step_def dest: tcp_write_simps split: if_splits relay_event.splits
      option.splits channel_message.splits prod.splits bool.splits)

lemma client_relay_eq: "client_relay_step = server_relay_step"
  by (simp add: fun_eq_iff client_relay_step_def server_relay_step_def)

interpretation server_relay: ordered_relay server_relay_step "\<lambda>s. room (rl_sink s) = None"
  "\<lambda>s. rl_status s = Relaying" "\<lambda>s. data_stream (sent (rl_sink s))" rl_tcp tcp_read framed_data
  by unfold_locales (erule server_relay_room, erule (1) server_relay_relays)

interpretation client_relay: ordered_relay client_relay_step "\<lambda>s. room (rl_sink s) = None"
  "\<lambda>s. rl_status s = Relaying" "\<lambda>s. data_stream (sent (rl_sink s))" rl_tcp tcp_read framed_data
  unfolding client_relay_eq by (rule server_relay.ordered_relay_axioms)

fun is_data :: "channel_message \<Rightarrow> bool" where
  "is_data (Data d) \<longleftrightarrow> True"
| "is_data _ \<longleftrightarrow> False"

lemma server_relay_sends_data:
  "room (rl_sink s) = None \<Longrightarrow> rl_status (server_relay_step s e) = Relaying \<Longrightarrow>
     list_all is_data (sent (rl_sink s)) \<Longrightarrow> list_all is_data (sent (rl_sink (server_relay_step s e)))"
  by (auto simp: server_relay_step_def dest: tcp_write_simps(2) split: if_splits relay_event.splits
      option.splits channel_message.splits prod.splits bool.splits)

lemma server_run_sends_data:
  assumes "room (rl_sink s) = None" "rl_status (foldl server_relay_step s es) = Relaying"
    and "list_all is_data (sent (rl_sink s))"
  shows "list_all is_data (sent (rl_sink (foldl server_relay_step s es)))"
  using assms(2)
proof (induction es rule: rev_induct)
  case (snoc e es)
  have r: "room (rl_sink (foldl server_relay_step s es)) = None"
    using assms(1) by (rule server_relay.inv_run)
  from snoc server_relay_relays [OF r, of e] server_relay_sends_data [OF r, of e] show ?case by simp
qed (use assms(3) in simp)

lemma client_writes_data:
  "list_all is_data ms \<Longrightarrow> rl_status s = Relaying \<Longrightarrow> rl_tcp_room s = None \<Longrightarrow>
     rl_tcp (foldl client_relay_step s (map (\<lambda>m. Framed (Some m)) ms)) = rl_tcp s @ data_stream ms"
proof (induction ms arbitrary: s)
  case (Cons m ms)
  then obtain d where m: "m = Data d" by (cases m) auto
  with Cons.prems have "client_relay_step s (Framed (Some m)) = s\<lparr>rl_tcp := rl_tcp s @ d\<rparr>"
    by (simp add: client_relay_step_def tcp_write_def)
  with Cons m show ?case by simp
qed simp

section \<open>Properties\<close>

text \<open>
  While a forwarded connection lasts, at either end the channel has carried exactly the bytes
  read from the socket and the socket has been given exactly the bytes that came on the channel,
  in order and without loss.
\<close>

lemma forwarding_relays_exactly:
  assumes "room k = None"
  shows "(rl_status (foldl server_relay_step (start_relay cap k) es) = Relaying \<longrightarrow>
      data_stream (sent (rl_sink (foldl server_relay_step (start_relay cap k) es)))
        = data_stream (sent k) @ concat (map tcp_read es)
      \<and> rl_tcp (foldl server_relay_step (start_relay cap k) es) = concat (map framed_data es))
    \<and> (rl_status (foldl client_relay_step (start_relay cap k) es) = Relaying \<longrightarrow>
      data_stream (sent (rl_sink (foldl client_relay_step (start_relay cap k) es)))
        = data_stream (sent k) @ concat (map tcp_read es)
      \<and> rl_tcp (foldl client_relay_step (start_relay cap k) es) = concat (map framed_data es))"
  using assms server_relay.relay_run [of "start_relay cap k" es]
    client_relay.relay_run [of "start_relay cap k" es]
  by (simp add: start_relay_def)

lemma forwarding_relays_exactly_instance:
  "rl_tcp (foldl server_relay_step (start_relay (Some 5) open_sink)
     [TcpBytes [1], Framed (Some (Data [2, 3])), Framed (Some RequestSuccess)]) = [2, 3]"
  using forwarding_relays_exactly [of open_sink "Some 5"
      "[TcpBytes [1], Framed (Some (Data [2, 3])), Framed (Some RequestSuccess)]"]
  by (simp add: server_relay_step_def start_relay_def tcp_write_def)



text \<open>
  A server cannot make the client connect anywhere but to the targets the user configured for
  remote forwarding: whatever it sends on a stream it opened, the only address connected to is the
  target of a specification whose bound port it named.
\<close>

lemma client_connects_to_configured_target:
  assumes "handle_remote_forward_stream connect specs ms k = (e, Some tgt, k')"
  shows "\<exists>spec \<in> set specs. tgt = socket_addr (fw_target_host spec) (fw_target_port spec)
    \<and> (\<exists>p rest. ms = Open ForwardedTcpip (ForwardedTcpipParams p) # rest
          \<and> fw_bind_port spec = tp_port p)"
proof -
  obtain p rest where ms: "ms = Open ForwardedTcpip (ForwardedTcpipParams p) # rest"
    using assms by (auto simp: handle_remote_forward_stream_def split: list.splits
        channel_message.splits channel_type.splits channel_params.splits)
  then obtain spec where f: "find (\<lambda>s. fw_bind_port s = tp_port p) specs = Some spec"
    using assms by (auto simp: handle_remote_forward_stream_def split: option.splits)
  with assms ms have "tgt = socket_addr (fw_target_host spec) (fw_target_port spec)"
    by (auto simp: handle_remote_forward_stream_def send_or_def Let_def
        split: option.splits prod.splits bool.splits)
  with f ms show ?thesis by (auto simp: find_Some_iff)
qed

definition demo_web :: forward_spec where
  "demo_web = \<lparr>fw_bind_addr = ''127.0.0.1'', fw_bind_port = 8080, fw_target_host = ''web'', fw_target_port = 80\<rparr>"

definition demo_admin :: forward_spec where
  "demo_admin = \<lparr>fw_bind_addr = ''127.0.0.2'', fw_bind_port = 8080, fw_target_host = ''admin'', fw_target_port = 81\<rparr>"

definition demo_tcp :: tcp_side where
  "demo_tcp = \<lparr>tcp_capacity = None, tcp_events = map (\<lambda>m. Framed (Some m))\<rparr>"

definition demo_forwarded :: "string \<Rightarrow> channel_message" where
  "demo_forwarded addr = Open ForwardedTcpip (ForwardedTcpipParams
     \<lparr>tp_host = addr, tp_port = 8080, tp_originator_addr = ''10.0.0.1'', tp_originator_port = 5000\<rparr>)"

lemma client_connects_to_configured_target_instance:
  "\<exists>spec \<in> set [demo_web]. socket_addr ''web'' 80 = socket_addr (fw_target_host spec) (fw_target_port spec)"
proof -
  obtain e k' where h: "handle_remote_forward_stream (\<lambda>_. Some demo_tcp) [demo_web]
      [demo_forwarded ''127.0.0.1'', Eof] open_sink = (e, Some (socket_addr ''web'' 80), k')"
    by (simp add: handle_remote_forward_stream_def demo_forwarded_def demo_web_def Let_def)
  from client_connects_to_configured_target [OF h] show ?thesis by blast
qed

text \<open>
  Two remote forwards of one port on different addresses of the server are not kept apart:
  the client ignores the bound address, so a connection accepted on the second is connected to
  the target of the first.
\<close>

lemma same_port_forward_misrouted:
  assumes "fw_bind_port first = fw_bind_port second"
    and "p = \<lparr>tp_host = fw_bind_addr second, tp_port = fw_bind_port second,
      tp_originator_addr = o_addr, tp_originator_port = o_port\<rparr>"
    and "connect (socket_addr (fw_target_host first) (fw_target_port first)) = Some tcp" "room k = None"
  shows "fst (snd (handle_remote_forward_stream connect [first, second]
      (Open ForwardedTcpip (ForwardedTcpipParams p) # rest) k))
    = Some (socket_addr (fw_target_host first) (fw_target_port first))"
  using assms by (simp add: handle_remote_forward_stream_def Let_def)

lemma same_port_forward_misrouted_instance:
  "fst (snd (handle_remote_forward_stream (\<lambda>_. Some demo_tcp) [demo_web, demo_admin]
     [demo_forwarded ''127.0.0.2''] open_sink)) = Some (socket_addr ''web'' 80)"
  using same_port_forward_misrouted [of demo_web demo_admin _ "''10.0.0.1''" 5000
      "\<lambda>_. Some demo_tcp" demo_tcp open_sink "[]"]
  by (simp add: demo_forwarded_def demo_web_def demo_admin_def)

end
