(* ===== verification/Server_Connection.thy ===== *)
theory Server_Connection
  imports Server_Session Forwarding
begin

text \<open>
  \<^verbatim>\<open>handle\<close> and \<^verbatim>\<open>dispatch_channel\<close> of \<^verbatim>\<open>sqshd/src/connection.rs\<close>: the channels and remote
  forwards of one authenticated connection. Spawned tasks are numbers in the state; they end by
  themselves (an event) or are aborted.
\<close>

section \<open>One channel\<close>

datatype dispatch_end =
    SessionDone session_end
  | DirectDone forward_end
  | DirectDenied
  | DispatchSend
  | DispatchStreamEnded
  | Unsupported channel_type
  | NotAnOpen channel_message

record dispatch_result =
  d_end :: dispatch_end
  d_connected :: "string option"
  d_child :: "child_command option"
  d_sink :: "channel_message sink"

definition dispatched :: "dispatch_end \<Rightarrow> channel_message sink \<Rightarrow> dispatch_result" where
  "dispatched e k = \<lparr>d_end = e, d_connected = None, d_child = None, d_sink = k\<rparr>"

definition dispatch_channel ::
  "('vk, 'sig) auth_library \<Rightarrow> server_config \<Rightarrow> fsys \<Rightarrow> child_os \<Rightarrow> schedule
    \<Rightarrow> (string \<Rightarrow> tcp_side option) \<Rightarrow> string \<Rightarrow> channel_message list \<Rightarrow> channel_message sink
    \<Rightarrow> dispatch_result" where
  "dispatch_channel lib cfg fs os sch connect username ms k = (case ms of
      [] \<Rightarrow> dispatched DispatchStreamEnded k
    | Open Session params # rest \<Rightarrow>
        send_or (OpenConfirmation (32 * 1024)) k (dispatched DispatchSend) (\<lambda>k1.
          case session_handle lib cfg fs os sch username rest k1 of
            (e, cmd, k2) \<Rightarrow> (dispatched (SessionDone e) k2)\<lparr>d_child := cmd\<rparr>)
    | Open DirectTcpip (DirectTcpipParams p) # rest \<Rightarrow>
        if \<not> direct_tcpip_allowed (tp_host p) (tp_port p) (direct_tcpip_allowlist cfg)
        then send_or (OpenFailure AdministrativelyProhibited (''direct-tcpip denied for ''
            @ tp_host p @ '':'' @ show_u16 (tp_port p) @ '' (not in direct_tcpip_allowlist)'')) k
          (dispatched DispatchSend) (dispatched DirectDenied)
        else send_or (OpenConfirmation (32 * 1024)) k (dispatched DispatchSend) (\<lambda>k1.
          case handle_direct_tcpip connect p rest k1 of
            (e, tgt, k2) \<Rightarrow> (dispatched (DirectDone e) k2)\<lparr>d_connected := tgt\<rparr>)
    | Open ct params # rest \<Rightarrow>
        send_or (OpenFailure UnknownChannelType
            (''unsupported channel type: '' @ show_channel_type ct)) k
          (dispatched DispatchSend) (dispatched (Unsupported ct))
    | m # rest \<Rightarrow> dispatched (NotAnOpen m) k)"

section \<open>The connection\<close>

text \<open>
  What the select loop can see: a stream the client opened, the end of the connection, a control
  message (\<open>None\<close>: the control stream failed), and the end of a task it spawned.
\<close>

datatype conn_event =
    StreamAccepted
  | ClosedByClient
  | ConnectionError
  | ControlReceived "control_message option"
  | ChannelTaskEnded nat
  | ListenerTaskEnded nat

datatype conn_status = ConnRunning | ConnClosed | ConnFailed

type_synonym bind_key = "string \<times> u16"

record conn =
  c_forwards :: "(bind_key \<times> nat) list"
  c_permits :: nat
  c_channels :: "nat list"
  c_listeners :: "(nat \<times> bind_key) list"
  c_next :: nat
  c_control :: "control_message sink"
  c_rejected :: nat
  c_conn_status :: conn_status

text \<open>\<open>send(..).await?\<close> on the control stream.\<close>

definition control_send :: "control_message \<Rightarrow> conn \<Rightarrow> conn" where
  "control_send m s = send_or m (c_control s)
     (\<lambda>k. s\<lparr>c_control := k, c_conn_status := ConnFailed\<rparr>) (\<lambda>k. s\<lparr>c_control := k\<rparr>)"

definition show_key :: "bind_key \<Rightarrow> string" where
  "show_key key = fst key @ '':'' @ show_u16 (snd key)"

definition forward_request :: "server_config \<Rightarrow> bind_key \<Rightarrow> conn \<Rightarrow> conn" where
  "forward_request cfg key s =
     (if \<not> remote_forward_allowed (fst key) (snd key) (remote_forward_allowlist cfg)
      then control_send (TcpForwardFailure (''remote forward denied for '' @ show_key key
        @ '' (only loopback is allowed by default; use remote_forward_allowlist for exceptions)'')) s
      else if map_of (c_forwards s) key \<noteq> None
      then control_send (TcpForwardFailure
        (''remote forward already active for '' @ show_key key)) s
      else if max_remote_forwards_per_connection cfg \<le> length (c_forwards s)
      then control_send (TcpForwardFailure
        ''per-connection remote forward listener limit reached'') s
      else control_send (TcpForwardConfirm (snd key))
        (s\<lparr>c_listeners := c_listeners s @ [(c_next s, key)],
           c_forwards := AList.update key (c_next s) (c_forwards s),
           c_next := Suc (c_next s)\<rparr>))"

definition forward_cancel :: "bind_key \<Rightarrow> conn \<Rightarrow> conn" where
  "forward_cancel key s = (case map_of (c_forwards s) key of
      None \<Rightarrow> s
    | Some task \<Rightarrow> s\<lparr>c_forwards := AList.delete key (c_forwards s),
        c_listeners := filter (\<lambda>(t, k). t \<noteq> task) (c_listeners s)\<rparr>)"

definition control_received :: "server_config \<Rightarrow> control_message option \<Rightarrow> conn \<Rightarrow> conn" where
  "control_received cfg m s = (case m of
      Some (TcpForwardRequest addr prt) \<Rightarrow> forward_request cfg (addr, prt) s
    | Some (TcpForwardCancel addr prt) \<Rightarrow> forward_cancel (addr, prt) s
    | Some (KeepAlive seq) \<Rightarrow> s\<lparr>c_control := send_quietly (KeepAliveAck seq) (c_control s)\<rparr>
    | Some _ \<Rightarrow> s
    | None \<Rightarrow> s\<lparr>c_conn_status := ConnClosed\<rparr>)"

definition stream_accepted :: "conn \<Rightarrow> conn" where
  "stream_accepted s = (case c_permits s of
      0 \<Rightarrow> s\<lparr>c_rejected := Suc (c_rejected s)\<rparr>
    | Suc n \<Rightarrow> s\<lparr>c_permits := n, c_channels := c_channels s @ [c_next s], c_next := Suc (c_next s)\<rparr>)"

text \<open>The message a stream gets that finds no permit.\<close>

definition resource_shortage :: channel_message where
  "resource_shortage = OpenFailure ResourceShortage ''per-connection channel limit reached''"

text \<open>Tasks end whether or not the loop still runs; ending gives a channel's permit back.\<close>

definition task_ended :: "conn_event \<Rightarrow> conn \<Rightarrow> conn" where
  "task_ended e s = (case e of
      ChannelTaskEnded t \<Rightarrow>
        if t \<in> set (c_channels s)
        then s\<lparr>c_channels := remove1 t (c_channels s), c_permits := Suc (c_permits s)\<rparr> else s
    | ListenerTaskEnded t \<Rightarrow> s\<lparr>c_listeners := filter (\<lambda>(u, k). u \<noteq> t) (c_listeners s)\<rparr>
    | _ \<Rightarrow> s)"

definition conn_step :: "server_config \<Rightarrow> conn \<Rightarrow> conn_event \<Rightarrow> conn" where
  "conn_step cfg s e = (case e of
      ChannelTaskEnded t \<Rightarrow> task_ended e s
    | ListenerTaskEnded t \<Rightarrow> task_ended e s
    | _ \<Rightarrow>
        if c_conn_status s \<noteq> ConnRunning then s
        else (case e of
            StreamAccepted \<Rightarrow> stream_accepted s
          | ClosedByClient \<Rightarrow> s\<lparr>c_conn_status := ConnClosed\<rparr>
          | ConnectionError \<Rightarrow> s\<lparr>c_conn_status := ConnFailed\<rparr>
          | ControlReceived m \<Rightarrow> control_received cfg m s
          | _ \<Rightarrow> s))"

definition conn_start :: "server_config \<Rightarrow> control_message sink \<Rightarrow> conn" where
  "conn_start cfg k = \<lparr>c_forwards = [], c_permits = max_channels_per_connection cfg,
     c_channels = [], c_listeners = [], c_next = 0, c_control = k, c_rejected = 0,
     c_conn_status = ConnRunning\<rparr>"

definition conn_handle ::
  "('vk, 'sig) auth_library \<Rightarrow> server_config \<Rightarrow> fsys \<Rightarrow> byte list \<Rightarrow> control_message list
    \<Rightarrow> conn_event list \<Rightarrow> control_message sink \<Rightarrow> server_error + string \<times> conn" where
  "conn_handle lib cfg fs nonce ms es k = (case authenticate lib cfg fs nonce ms k of
      (Inl e, rest, k1) \<Rightarrow> Inl e
    | (Inr username, rest, k1) \<Rightarrow> Inr (username, foldl (conn_step cfg) (conn_start cfg k1) es))"

section \<open>The invariant\<close>

text \<open>
  Channels and permits add up to the limit; the forward table is a table, within its limit, of
  allowed addresses only; each running listener is one the table knows under its address.
\<close>

definition conn_inv :: "server_config \<Rightarrow> conn \<Rightarrow> bool" where
  "conn_inv cfg s \<longleftrightarrow>
     c_permits s + length (c_channels s) = max_channels_per_connection cfg
     \<and> distinct (map fst (c_forwards s))
     \<and> length (c_forwards s) \<le> max_remote_forwards_per_connection cfg
     \<and> (\<forall>(key, t) \<in> set (c_forwards s).
          remote_forward_allowed (fst key) (snd key) (remote_forward_allowlist cfg))
     \<and> (\<forall>(t, key) \<in> set (c_listeners s). map_of (c_forwards s) key = Some t)
     \<and> distinct (map fst (c_listeners s))
     \<and> (\<forall>t \<in> fst ` set (c_listeners s) \<union> snd ` set (c_forwards s). t < c_next s)
     \<and> distinct (map snd (c_forwards s))"

lemma control_send_frame [simp]:
  "c_forwards (control_send m s) = c_forwards s" "c_permits (control_send m s) = c_permits s"
  "c_channels (control_send m s) = c_channels s" "c_listeners (control_send m s) = c_listeners s"
  "c_next (control_send m s) = c_next s"
  by (simp_all add: control_send_def send_or_def split: prod.split bool.split)

lemma conn_inv_cong:
  "c_forwards s' = c_forwards s \<Longrightarrow> c_permits s' = c_permits s \<Longrightarrow> c_channels s' = c_channels s \<Longrightarrow>
     c_listeners s' = c_listeners s \<Longrightarrow> c_next s' = c_next s \<Longrightarrow> conn_inv cfg s' = conn_inv cfg s"
  by (simp add: conn_inv_def)

lemma conn_inv_send [simp]: "conn_inv cfg (control_send m s) = conn_inv cfg s"
  by (rule conn_inv_cong) simp_all

lemma alist_update_new: "map_of al k = None \<Longrightarrow> AList.update k v al = al @ [(k, v)]"
  by (induction al) (auto split: if_splits)

lemma conn_inv_add:
  assumes "conn_inv cfg s" "remote_forward_allowed (fst key) (snd key) (remote_forward_allowlist cfg)"
    and "map_of (c_forwards s) key = None"
    and "length (c_forwards s) < max_remote_forwards_per_connection cfg"
  shows "conn_inv cfg (s\<lparr>c_listeners := c_listeners s @ [(c_next s, key)],
    c_forwards := AList.update key (c_next s) (c_forwards s), c_next := Suc (c_next s)\<rparr>)"
proof -
  have new: "key \<notin> fst ` set (c_forwards s)" using assms(3) by (simp add: map_of_eq_None_iff)
  have "map_of (c_forwards s @ [(key, c_next s)]) k = Some t"
    if "map_of (c_forwards s) k = Some t" for k t
    using that by simp
  moreover have "map_of (c_forwards s @ [(key, c_next s)]) key = Some (c_next s)"
    using assms(3) by (simp add: map_add_def)
  ultimately show ?thesis
    using assms new unfolding conn_inv_def alist_update_new [OF assms(3)]
    by (auto simp: less_Suc_eq)
qed

lemma forward_request_inv: "conn_inv cfg s \<Longrightarrow> conn_inv cfg (forward_request cfg key s)"
  using conn_inv_add [of cfg s key]
  by (auto simp: forward_request_def not_le)

lemma set_alist_delete: "set (AList.delete k al) = {(k', v) \<in> set al. k' \<noteq> k}"
  by (auto simp: AList.delete_eq)

lemma conn_inv_drop_listeners:
  "conn_inv cfg s \<Longrightarrow> conn_inv cfg (s\<lparr>c_listeners := filter P (c_listeners s)\<rparr>)"
  unfolding conn_inv_def by (auto simp: distinct_map_filter)

lemma forward_cancel_inv:
  assumes "conn_inv cfg s"
  shows "conn_inv cfg (forward_cancel key s)"
proof (cases "map_of (c_forwards s) key")
  case (Some task)
  with assms Some show ?thesis
    unfolding conn_inv_def forward_cancel_def
    by (auto simp: set_alist_delete distinct_map_filter AList.delete_eq
        intro: le_trans [OF length_filter_le])
qed (use assms in \<open>simp add: forward_cancel_def\<close>)

lemma control_received_inv: "conn_inv cfg s \<Longrightarrow> conn_inv cfg (control_received cfg m s)"
  by (auto simp: control_received_def forward_request_inv forward_cancel_inv
      split: option.split control_message.split intro: iffD2 [OF conn_inv_cong])

lemma stream_accepted_inv: "conn_inv cfg s \<Longrightarrow> conn_inv cfg (stream_accepted s)"
  by (auto simp: stream_accepted_def conn_inv_def less_Suc_eq split: nat.split)

lemma conn_inv_channels:
  "conn_inv cfg s \<Longrightarrow> p + length cs = c_permits s + length (c_channels s) \<Longrightarrow>
     conn_inv cfg (s\<lparr>c_channels := cs, c_permits := p\<rparr>)"
  by (auto simp: conn_inv_def)

lemma task_ended_inv: "conn_inv cfg s \<Longrightarrow> conn_inv cfg (task_ended e s)"
proof (cases e)
  case (ChannelTaskEnded t)
  assume s: "conn_inv cfg s"
  show ?thesis
  proof (cases "t \<in> set (c_channels s)")
    case True
    then have "Suc (length (c_channels s) - Suc 0) = length (c_channels s)"
      by (cases "c_channels s") auto
    with s True have "conn_inv cfg
        (s\<lparr>c_channels := remove1 t (c_channels s), c_permits := Suc (c_permits s)\<rparr>)"
      by (intro conn_inv_channels) (simp_all add: length_remove1)
    with True ChannelTaskEnded show ?thesis by (simp add: task_ended_def)
  qed (use s ChannelTaskEnded in \<open>simp add: task_ended_def\<close>)
qed (auto simp: task_ended_def intro: conn_inv_drop_listeners)

lemma conn_step_inv: "conn_inv cfg s \<Longrightarrow> conn_inv cfg (conn_step cfg s e)"
  by (auto simp: conn_step_def task_ended_inv stream_accepted_inv control_received_inv
      split: conn_event.split intro: iffD2 [OF conn_inv_cong])

interpretation connection: event_loop "conn_step cfg" "conn_inv cfg" for cfg
  by unfold_locales (rule conn_step_inv)

lemma conn_start_inv: "conn_inv cfg (conn_start cfg k)"
  by (simp add: conn_inv_def conn_start_def)

lemma inv_listener_task:
  assumes "conn_inv cfg s" "(t, key) \<in> set (c_listeners s)" "map_of (c_forwards s) key' = Some t'"
  shows "t = t' \<longleftrightarrow> key = key'"
proof -
  have m: "map_of (c_forwards s) key = Some t" and d: "distinct (map snd (c_forwards s))"
    using assms(1,2) by (auto simp: conn_inv_def)
  have "(key, t) \<in> set (c_forwards s)" "(key', t') \<in> set (c_forwards s)"
    using m assms(3) by (simp_all add: map_of_SomeD)
  then have "key = key'" if "t = t'"
    using d that inj_onD [of snd "set (c_forwards s)" "(key, t)" "(key', t')"]
    by (simp add: distinct_map)
  then show ?thesis using m assms(3) by auto
qed

lemma inv_listeners_distinct:
  assumes "conn_inv cfg s"
  shows "distinct (map snd (c_listeners s))" "length (c_listeners s) \<le> length (c_forwards s)"
proof -
  have m: "map_of (c_forwards s) key = Some t" if "(t, key) \<in> set (c_listeners s)" for t key
    using assms that by (auto simp: conn_inv_def)
  have "inj_on snd (set (c_listeners s))"
  proof (rule inj_onI)
    fix x y assume xy: "x \<in> set (c_listeners s)" "y \<in> set (c_listeners s)" "snd x = snd y"
    obtain t u key where "x = (t, key)" "y = (u, key)"
      using xy(3) by (cases x; cases y) simp
    with xy m [of t key] m [of u key] show "x = y" by simp
  qed
  moreover have "distinct (c_listeners s)" using assms by (simp add: conn_inv_def distinct_map)
  ultimately show ds: "distinct (map snd (c_listeners s))" by (simp add: distinct_map)
  have "set (map snd (c_listeners s)) \<subseteq> set (map fst (c_forwards s))"
    using m by (force dest: map_of_SomeD)
  then have "card (set (map snd (c_listeners s))) \<le> card (set (map fst (c_forwards s)))"
    by (intro card_mono) simp_all
  also have "\<dots> \<le> length (c_forwards s)" by (metis card_length length_map)
  finally show "length (c_listeners s) \<le> length (c_forwards s)"
    using distinct_card [OF ds] by simp
qed

section \<open>Answers on the control stream\<close>

fun ack_seq :: "control_message \<Rightarrow> u64 list" where
  "ack_seq (KeepAliveAck seq) = [seq]"
| "ack_seq _ = []"

fun forward_reply :: "control_message \<Rightarrow> unit list" where
  "forward_reply (TcpForwardConfirm p) = [()]"
| "forward_reply (TcpForwardFailure d) = [()]"
| "forward_reply _ = []"

fun keepalive_seq :: "conn_event \<Rightarrow> u64 list" where
  "keepalive_seq (ControlReceived (Some (KeepAlive seq))) = [seq]"
| "keepalive_seq _ = []"

fun forward_asked :: "conn_event \<Rightarrow> unit list" where
  "forward_asked (ControlReceived (Some (TcpForwardRequest a p))) = [()]"
| "forward_asked _ = []"

definition acks_sent :: "conn \<Rightarrow> u64 list" where
  "acks_sent s = concat (map ack_seq (sent (c_control s)))"

definition replies_sent :: "conn \<Rightarrow> unit list" where
  "replies_sent s = concat (map forward_reply (sent (c_control s)))"

lemma control_send_open [simp]:
  "room (c_control s) = None \<Longrightarrow>
     control_send m s = s\<lparr>c_control := c_control s\<lparr>sent := sent (c_control s) @ [m]\<rparr>\<rparr>"
  by (simp add: control_send_def)

lemmas conn_step_cases = conn_step_def task_ended_def stream_accepted_def control_received_def
  forward_request_def forward_cancel_def

lemma conn_step_room: "room (c_control s) = None \<Longrightarrow> room (c_control (conn_step cfg s e)) = None"
  by (auto simp: conn_step_cases Let_def split: conn_event.split nat.split option.split
      control_message.split)

lemma conn_step_answers:
  "room (c_control s) = None \<Longrightarrow> c_conn_status (conn_step cfg s e) = ConnRunning \<Longrightarrow>
     c_conn_status s = ConnRunning
     \<and> acks_sent (conn_step cfg s e) = acks_sent s @ keepalive_seq e
     \<and> replies_sent (conn_step cfg s e) = replies_sent s @ forward_asked e"
  by (cases e)
    (auto simp: conn_step_cases acks_sent_def replies_sent_def split: if_splits nat.splits
      option.splits control_message.splits)

interpretation answers: ordered_relay "conn_step cfg" "\<lambda>s. room (c_control s) = None"
  "\<lambda>s. c_conn_status s = ConnRunning" acks_sent replies_sent keepalive_seq forward_asked for cfg
  by unfold_locales (erule conn_step_room, erule (1) conn_step_answers)

section \<open>Properties\<close>

text \<open>
  C8: whatever an authenticated client does, its connection stays within its limits: channels and
  listeners are bounded by the configuration, every listener that runs is on an address the
  policy allows, and no address has two.
\<close>

theorem connection_within_limits:
  assumes "conn_handle lib cfg fs nonce ms es k = Inr (username, s)"
  shows "length (c_channels s) \<le> max_channels_per_connection cfg
    \<and> length (c_listeners s) \<le> max_remote_forwards_per_connection cfg
    \<and> (\<forall>(t, key) \<in> set (c_listeners s).
          remote_forward_allowed (fst key) (snd key) (remote_forward_allowlist cfg))
    \<and> distinct (map snd (c_listeners s))"
proof -
  obtain k1 where "s = foldl (conn_step cfg) (conn_start cfg k1) es"
    using assms by (auto simp: conn_handle_def split: prod.splits sum.splits)
  then have inv: "conn_inv cfg s" using connection.inv_run [OF conn_start_inv] by simp
  have "remote_forward_allowed (fst key) (snd key) (remote_forward_allowlist cfg)"
    if "(t, key) \<in> set (c_listeners s)" for t key
  proof -
    have "map_of (c_forwards s) key = Some t" using inv that by (auto simp: conn_inv_def)
    then have "(key, t) \<in> set (c_forwards s)" by (rule map_of_SomeD)
    with inv show ?thesis by (auto simp: conn_inv_def)
  qed
  moreover have "c_permits s + length (c_channels s) = max_channels_per_connection cfg"
    "length (c_forwards s) \<le> max_remote_forwards_per_connection cfg"
    using inv by (simp_all add: conn_inv_def)
  ultimately show ?thesis using inv_listeners_distinct [OF inv] by auto
qed

text \<open>
  While the connection runs, every keep-alive has been acknowledged with its own number, in
  order, and every request for a remote forward has had exactly one answer.
\<close>

lemma control_answers_in_order:
  assumes "c_conn_status (foldl (conn_step cfg) (conn_start cfg k) es) = ConnRunning"
    and "room k = None"
  shows "acks_sent (foldl (conn_step cfg) (conn_start cfg k) es)
      = acks_sent (conn_start cfg k) @ concat (map keepalive_seq es)
    \<and> replies_sent (foldl (conn_step cfg) (conn_start cfg k) es)
      = replies_sent (conn_start cfg k) @ concat (map forward_asked es)"
  using answers.relay_run [OF _ assms(1)] assms(2) by (simp add: conn_start_def)

text \<open>
  Cancelling a remote forward stops the listener on that address and no other, in every state
  the connection can reach.
\<close>

lemma cancel_stops_exactly_one:
  assumes "s = foldl (conn_step cfg) (conn_start cfg k) es" "c_conn_status s = ConnRunning"
  shows "c_listeners (conn_step cfg s (ControlReceived (Some (TcpForwardCancel addr prt))))
    = filter (\<lambda>(t, key). key \<noteq> (addr, prt)) (c_listeners s)"
proof -
  have inv: "conn_inv cfg s" using assms(1) connection.inv_run [OF conn_start_inv] by simp
  have step: "conn_step cfg s (ControlReceived (Some (TcpForwardCancel addr prt)))
      = forward_cancel (addr, prt) s"
    using assms(2) by (simp add: conn_step_def control_received_def)
  show ?thesis
  proof (cases "map_of (c_forwards s) (addr, prt)")
    case None
    then have "filter (\<lambda>(t, key). key \<noteq> (addr, prt)) (c_listeners s) = c_listeners s"
      using inv by (intro filter_True) (auto simp: conn_inv_def)
    with None show ?thesis by (simp add: step forward_cancel_def)
  next
    case (Some task)
    then have "filter (\<lambda>(t, k). t \<noteq> task) (c_listeners s)
        = filter (\<lambda>(t, key). key \<noteq> (addr, prt)) (c_listeners s)"
      using inv_listener_task [OF inv _ Some] by (intro filter_cong) auto
    with Some show ?thesis by (simp add: step forward_cancel_def)
  qed
qed

text \<open>
  The server connects to a target on a client's behalf only if the target is on the allowlist,
  and then to exactly the host and port the client asked for.
\<close>

lemma direct_connects_only_when_allowed:
  assumes "d_connected (dispatch_channel lib cfg fs os sch connect username ms k) = Some tgt"
  shows "\<exists>p rest. ms = Open DirectTcpip (DirectTcpipParams p) # rest
    \<and> direct_tcpip_allowed (tp_host p) (tp_port p) (direct_tcpip_allowlist cfg)
    \<and> tgt = socket_addr (tp_host p) (tp_port p)"
proof -
  have no: "d_connected (send_or m k0 (dispatched e) (dispatched e')) = None" for m k0 e e'
    by (simp add: send_or_def dispatched_def split: prod.split bool.split)
  show ?thesis
    using assms
    by (auto simp: dispatch_channel_def no send_or_def dispatched_def handle_direct_tcpip_def Let_def
        split: list.splits channel_message.splits channel_type.splits channel_params.splits
          if_splits prod.splits bool.splits option.splits)
qed

text \<open>
  A confirmed remote forward need not be listening, and its slot is not freed: after the
  listener of an accepted request has failed (its address could not be bound), a second request
  for the address is refused as already active although nothing listens there.
\<close>

lemma failed_listener_keeps_slot:
  assumes "s = foldl (conn_step cfg) (conn_start cfg k) es" "c_conn_status s = ConnRunning"
    and "room (c_control s) = None" "map_of (c_forwards s) (addr, prt) = None"
    and "remote_forward_allowed addr prt (remote_forward_allowlist cfg)"
    and "length (c_forwards s) < max_remote_forwards_per_connection cfg"
  shows "let request = ControlReceived (Some (TcpForwardRequest addr prt));
      s' = foldl (conn_step cfg) s [request, ListenerTaskEnded (c_next s), request]
    in sent (c_control s') = sent (c_control s) @ [TcpForwardConfirm prt,
          TcpForwardFailure (''remote forward already active for '' @ show_key (addr, prt))]
      \<and> (addr, prt) \<notin> snd ` set (c_listeners s')"
proof -
  have inv: "conn_inv cfg s" using assms(1) connection.inv_run [OF conn_start_inv] by simp
  then have fresh: "\<forall>(t, key) \<in> set (c_listeners s). key \<noteq> (addr, prt)"
    using assms(4) by (fastforce simp: conn_inv_def)
  let ?req = "ControlReceived (Some (TcpForwardRequest addr prt))"
  let ?k1 = "c_control s\<lparr>sent := sent (c_control s) @ [TcpForwardConfirm prt]\<rparr>"
  let ?s1 = "s\<lparr>c_listeners := c_listeners s @ [(c_next s, (addr, prt))],
    c_forwards := c_forwards s @ [((addr, prt), c_next s)], c_next := Suc (c_next s),
    c_control := ?k1\<rparr>"
  let ?s2 = "?s1\<lparr>c_listeners := filter (\<lambda>(u, k). u \<noteq> c_next s) (c_listeners ?s1)\<rparr>"
  have "conn_step cfg s ?req = ?s1"
    using assms(2-6)
    by (simp add: conn_step_def control_received_def forward_request_def alist_update_new
        not_le [symmetric])
  moreover have "conn_step cfg ?s1 (ListenerTaskEnded (c_next s)) = ?s2"
    by (simp add: conn_step_def task_ended_def)
  moreover have "conn_step cfg ?s2 ?req = ?s2\<lparr>c_control := ?k1\<lparr>sent := sent ?k1 @
      [TcpForwardFailure (''remote forward already active for '' @ show_key (addr, prt))]\<rparr>\<rparr>"
    using assms(2-5) by (simp add: conn_step_def control_received_def forward_request_def map_add_def)
  moreover have "(addr, prt) \<notin> snd ` set (c_listeners ?s2)" using fresh by force
  ultimately show ?thesis by (simp add: Let_def)
qed

fun no_listener_ends :: "conn_event \<Rightarrow> bool" where
  "no_listener_ends (ListenerTaskEnded t) \<longleftrightarrow> False"
| "no_listener_ends _ \<longleftrightarrow> True"

lemma closed_step:
  "c_conn_status s \<noteq> ConnRunning \<Longrightarrow> no_listener_ends e \<Longrightarrow>
     c_conn_status (conn_step cfg s e) \<noteq> ConnRunning
     \<and> c_listeners (conn_step cfg s e) = c_listeners s"
  by (cases e) (simp_all add: conn_step_def task_ended_def)

lemma closed_run:
  "c_conn_status s \<noteq> ConnRunning \<Longrightarrow> list_all no_listener_ends es \<Longrightarrow>
     c_conn_status (foldl (conn_step cfg) s es) \<noteq> ConnRunning
     \<and> c_listeners (foldl (conn_step cfg) s es) = c_listeners s"
  by (induction es arbitrary: s) (simp_all add: closed_step)

text \<open>
  Listeners outlive their connection. When the client goes, nothing stops the tasks of its
  remote forwards: whatever else happens, they run on until they end by themselves.
\<close>

lemma listeners_outlive_connection:
  assumes "c_conn_status s = ConnRunning" "list_all no_listener_ends es"
  shows "c_conn_status (foldl (conn_step cfg) s (ClosedByClient # es)) \<noteq> ConnRunning
    \<and> c_listeners (foldl (conn_step cfg) s (ClosedByClient # es)) = c_listeners s"
  using assms closed_run [of "conn_step cfg s ClosedByClient" es cfg]
  by (simp add: conn_step_def)

section \<open>Witnesses\<close>

definition demo_request :: conn_event where
  "demo_request = ControlReceived (Some (TcpForwardRequest ''localhost'' 8080))"

lemma demo_loopback [simp]: "remote_forward_allowed ''localhost'' p al"
  by (simp add: remote_forward_allowed_def is_loopback_bind_addr_def eq_ignore_ascii_case_def)

lemma demo_limits [simp]:
  "max_remote_forwards_per_connection demo_config = 8" "max_channels_per_connection demo_config = 2"
  by (simp_all add: demo_config_def with_defaults_def demo_toml_def
      default_max_remote_forwards_per_connection_def)

lemma demo_start [simp]:
  "c_conn_status (conn_start cfg k) = ConnRunning" "c_forwards (conn_start cfg k) = []"
  "c_listeners (conn_start cfg k) = []" "c_control (conn_start cfg k) = k"
  "c_next (conn_start cfg k) = 0"
  by (simp_all add: conn_start_def)

lemma demo_one_listener:
  "c_listeners (conn_step demo_config (conn_start demo_config open_sink) demo_request)
     = [(0, (''localhost'', 8080))]"
  "c_conn_status (conn_step demo_config (conn_start demo_config open_sink) demo_request) = ConnRunning"
  "acks_sent (conn_start demo_config open_sink) = []"
  by (simp_all add: conn_step_def control_received_def forward_request_def demo_request_def
      acks_sent_def)

theorem connection_within_limits_witness:
  "\<exists>s. conn_handle (demo_auth {demo_challenge}) demo_config demo_auth_fs demo_nonce
       [ClientHello 1 ''alice'', AuthResponse [1, 2] [9], KeepAlive 3]
       [StreamAccepted, StreamAccepted, StreamAccepted, demo_request] open_sink = Inr (''alice'', s)
     \<and> length (c_channels s) \<le> 2"
proof -
  obtain s where s: "conn_handle (demo_auth {demo_challenge}) demo_config demo_auth_fs demo_nonce
       [ClientHello 1 ''alice'', AuthResponse [1, 2] [9], KeepAlive 3]
       [StreamAccepted, StreamAccepted, StreamAccepted, demo_request] open_sink = Inr (''alice'', s)"
    using demo_authenticate by (simp add: conn_handle_def)
  from connection_within_limits [OF s] s show ?thesis by auto
qed

lemma control_answers_in_order_instance:
  "acks_sent (foldl (conn_step demo_config) (conn_start demo_config open_sink)
     [ControlReceived (Some (KeepAlive 7)), StreamAccepted, ControlReceived (Some (KeepAlive 8))])
   = [7, 8]"
  using control_answers_in_order [of demo_config open_sink
      "[ControlReceived (Some (KeepAlive 7)), StreamAccepted, ControlReceived (Some (KeepAlive 8))]"]
  by (simp add: demo_one_listener conn_step_def control_received_def stream_accepted_def
      split: nat.split)

lemma cancel_stops_exactly_one_instance:
  "c_listeners (foldl (conn_step demo_config) (conn_start demo_config open_sink)
     [demo_request, ControlReceived (Some (TcpForwardCancel ''localhost'' 8080))]) = []"
  using cancel_stops_exactly_one [of "conn_step demo_config (conn_start demo_config open_sink) demo_request"
      demo_config open_sink "[demo_request]" "''localhost''" 8080]
  by (simp add: demo_one_listener)

definition demo_open_db :: channel_message where
  "demo_open_db = Open DirectTcpip (DirectTcpipParams
     \<lparr>tp_host = ''db'', tp_port = 5432, tp_originator_addr = ''127.0.0.1'', tp_originator_port = 4000\<rparr>)"

lemma direct_connects_only_when_allowed_instance:
  "direct_tcpip_allowed ''db'' 5432 [host_port (''db'', 5432)]"
proof -
  let ?cfg = "demo_config\<lparr>direct_tcpip_allowlist := [host_port (''db'', 5432)]\<rparr>"
  have "d_connected (dispatch_channel (demo_auth {}) ?cfg demo_auth_fs demo_os demo_schedule
      (\<lambda>_. Some demo_tcp) ''alice'' [demo_open_db, Eof] open_sink) = Some (socket_addr ''db'' 5432)"
    by (simp add: dispatch_channel_def demo_open_db_def direct_tcpip_allowed_def
        handle_direct_tcpip_def dispatched_def Let_def)
  from direct_connects_only_when_allowed [OF this] show ?thesis
    by (simp add: demo_open_db_def)
qed

lemma failed_listener_keeps_slot_instance:
  "(''localhost'', 8080) \<notin> snd ` set (c_listeners (foldl (conn_step demo_config)
     (conn_start demo_config open_sink) [demo_request, ListenerTaskEnded 0, demo_request]))"
  using failed_listener_keeps_slot [of "conn_start demo_config open_sink" demo_config open_sink "[]"
      "''localhost''" 8080]
  by (simp add: demo_request_def Let_def)

lemma listeners_outlive_connection_instance:
  "c_listeners (foldl (conn_step demo_config)
     (conn_step demo_config (conn_start demo_config open_sink) demo_request)
     [ClosedByClient, StreamAccepted]) = [(0, (''localhost'', 8080))]"
  using listeners_outlive_connection
    [of "conn_step demo_config (conn_start demo_config open_sink) demo_request"
      "[StreamAccepted]" demo_config]
  by (simp add: demo_one_listener)

end
