(* ===== verification/Known_Hosts.thy ===== *)
theory Known_Hosts
  imports Key_Files "HOL-Library.Multiset"
begin

text \<open>
  \<^verbatim>\<open>sqsh/src/known_hosts.rs\<close>: trust on first use. The hash map of the pinned fingerprints is an
  association list with distinct keys; the order in which a save walks it is the argument
  \<open>order\<close>, which the theorems only require to be a permutation.
\<close>

datatype kh_error = KhFile file_error | VerificationFailed string string

record known_hosts =
  entries :: "(string \<times> string) list"
  kh_path :: path

section \<open>Loading\<close>

fun insert_line :: "(string \<times> string) list \<Rightarrow> string \<Rightarrow> (string \<times> string) list" where
  "insert_line es line0 =
     (let line = trim line0 in
      if line = [] \<or> starts_with ''#'' line then es
      else case split_once CHR '' '' line of
          None \<Rightarrow> es
        | Some (host, fingerprint) \<Rightarrow> AList.update host fingerprint es)"

declare insert_line.simps [simp del]

definition parse_known_hosts :: "string \<Rightarrow> (string \<times> string) list" where
  "parse_known_hosts contents = foldl insert_line [] (lines contents)"

definition validate_known_hosts_permissions :: "path \<Rightarrow> fsys \<Rightarrow> file_error + unit" where
  "validate_known_hosts_permissions p fs = res_bind (io_res (metadata p fs))
     (\<lambda>m. if nd_mode m AND mask_077 \<noteq> 0 then Inl (Accessible (nd_mode m AND 0x1FF)) else Inr ())"

definition load :: "path \<Rightarrow> fsys \<Rightarrow> file_error + known_hosts" where
  "load p fs =
     (if exists p fs
      then res_bind (validate_known_hosts_permissions p fs) (\<lambda>_.
           res_bind (io_res (read_to_string p fs)) (\<lambda>contents.
             Inr \<lparr>entries = parse_known_hosts contents, kh_path = p\<rparr>))
      else Inr \<lparr>entries = [], kh_path = p\<rparr>)"

section \<open>Saving, verifying, pinning\<close>

definition write_owner_only_file ::
  "path \<Rightarrow> byte list \<Rightarrow> fsys \<Rightarrow> (file_error + unit) \<times> fsys" where
  "write_owner_only_file p contents fs =
     then_do (io (create_truncate p mode_600 fs)) (\<lambda>_ fs.
     then_do (io (file_write_all p contents fs)) (\<lambda>_ fs.
       io (set_permissions p mode_600 fs)))"

definition known_hosts_text :: "(string \<times> string) list \<Rightarrow> string" where
  "known_hosts_text es = concat (map (\<lambda>(host, fp). host @ '' '' @ fp @ [NL]) es)"

type_synonym iteration_order = "(string \<times> string) list \<Rightarrow> (string \<times> string) list"

definition kh_set_dir_owner_only_permissions :: "path \<Rightarrow> fsys \<Rightarrow> (file_error + unit) \<times> fsys" where
  "kh_set_dir_owner_only_permissions p fs = io (set_permissions p mode_700 fs)"

lemma kh_set_dir_eq [simp]: "kh_set_dir_owner_only_permissions = (\<lambda>p fs. io (set_permissions p mode_700 fs))"
  by (intro ext) (simp add: kh_set_dir_owner_only_permissions_def)

definition kh_save :: "iteration_order \<Rightarrow> known_hosts \<Rightarrow> fsys \<Rightarrow> (file_error + unit) \<times> fsys" where
  "kh_save order kh fs =
     then_do (case parent (kh_path kh) of
         None \<Rightarrow> (Inr (), fs)
       | Some d \<Rightarrow> then_do (io (create_dir_all d fs)) (\<lambda>_ fs. kh_set_dir_owner_only_permissions d fs))
       (\<lambda>_ fs. write_owner_only_file (kh_path kh)
          (str_bytes (known_hosts_text (order (entries kh)))) fs)"

definition pin_host ::
  "iteration_order \<Rightarrow> string \<Rightarrow> string \<Rightarrow> known_hosts \<times> fsys
    \<Rightarrow> (kh_error + unit) \<times> known_hosts \<times> fsys" where
  "pin_host order host_port fingerprint s = (case s of (kh, fs) \<Rightarrow>
     let kh1 = kh\<lparr>entries := AList.update host_port fingerprint (entries kh)\<rparr> in
     case kh_save order kh1 fs of
       (Inl e, fs1) \<Rightarrow> (Inl (KhFile e), kh1, fs1)
     | (Inr _, fs1) \<Rightarrow> (Inr (), kh1, fs1))"

definition verify_host ::
  "iteration_order \<Rightarrow> string \<Rightarrow> string \<Rightarrow> known_hosts \<times> fsys
    \<Rightarrow> (kh_error + unit) \<times> known_hosts \<times> fsys" where
  "verify_host order host_port fingerprint s = (case s of (kh, fs) \<Rightarrow>
     case map_of (entries kh) host_port of
       None \<Rightarrow>
         let kh1 = kh\<lparr>entries := AList.update host_port fingerprint (entries kh)\<rparr> in
         (case kh_save order kh1 fs of
            (Inl e, fs1) \<Rightarrow> (Inl (KhFile e), kh1, fs1)
          | (Inr _, fs1) \<Rightarrow> (Inr (), kh1, fs1))
     | Some stored \<Rightarrow>
         if stored = fingerprint then (Inr (), kh, fs)
         else (Inl (VerificationFailed stored fingerprint), kh, fs))"

section \<open>The interface of a pin store\<close>

text \<open>A client's verifications, one after the other, each on the state the last left.\<close>

fun verify_all ::
  "(string \<Rightarrow> string \<Rightarrow> 's \<Rightarrow> ('e + unit) \<times> 's) \<Rightarrow> (string \<times> string) list \<Rightarrow> 's
    \<Rightarrow> ('e + unit) list \<times> 's" where
  "verify_all verify [] s = ([], s)"
| "verify_all verify ((h, f) # reqs) s =
     (let (r, s1) = verify h f s; (rs, s2) = verify_all verify reqs s1 in (r # rs, s2))"

text \<open>
  What a client relies on when it checks server certificates: a first verification pins, later
  ones compare. Everything a client wants of trust on first use follows.
\<close>

locale pin_store =
  fixes pinned :: "'s \<Rightarrow> string \<Rightarrow> string option"
    and verify :: "string \<Rightarrow> string \<Rightarrow> 's \<Rightarrow> ('e + unit) \<times> 's"
  assumes verify_new: "pinned s h = None \<Longrightarrow> pinned (snd (verify h f s)) = (pinned s)(h \<mapsto> f)"
    and verify_same: "pinned s h = Some f \<Longrightarrow> verify h f s = (Inr (), s)"
    and verify_other: "pinned s h = Some g \<Longrightarrow> f \<noteq> g \<Longrightarrow> \<exists>e. verify h f s = (Inl e, s)"
begin

lemma pinned_mono: "pinned s h = Some f \<Longrightarrow> pinned (snd (verify h' f' s)) h = Some f"
proof -
  assume p: "pinned s h = Some f"
  show ?thesis
  proof (cases "pinned s h'")
    case None
    with p have "h \<noteq> h'" by auto
    with p show ?thesis by (simp add: verify_new [OF None])
  next
    case (Some g)
    then show ?thesis
      using p verify_same [of s h' g] verify_other [of s h' g f'] by (cases "f' = g") auto
  qed
qed

lemma accepted_pinned: "fst (verify h f s) = Inr () \<Longrightarrow> pinned (snd (verify h f s)) h = Some f"
proof (cases "pinned s h")
  case (Some g)
  assume "fst (verify h f s) = Inr ()"
  with Some show ?thesis using verify_same [of s h g] verify_other [of s h g f] by (cases "f = g") auto
qed (simp add: verify_new)

lemma verify_all_Cons:
  "fst (verify_all verify ((h, f) # reqs) s)
    = fst (verify h f s) # fst (verify_all verify reqs (snd (verify h f s)))"
  by (simp add: split_beta Let_def)

lemma verify_all_length: "length (fst (verify_all verify reqs s)) = length reqs"
  by (induction reqs arbitrary: s) (auto simp: split_beta Let_def)

lemma accepted_is_pinned:
  assumes "pinned s h = Some f" "j < length reqs" "fst (reqs ! j) = h"
    and "fst (verify_all verify reqs s) ! j = Inr ()"
  shows "snd (reqs ! j) = f"
  using assms
proof (induction reqs arbitrary: s j)
  case (Cons req reqs)
  obtain h' f' where req: "req = (h', f')" by (cases req)
  have p: "pinned (snd (verify h' f' s)) h = Some f" using Cons.prems(1) by (rule pinned_mono)
  show ?case
  proof (cases j)
    case 0
    with Cons.prems(3,4) req have "h' = h" "fst (verify h f' s) = Inr ()"
      by (simp_all add: split_beta Let_def)
    with accepted_pinned [of h f' s] p 0 req show ?thesis by simp
  next
    case (Suc k)
    with Cons.prems(2-4) Cons.IH [OF p, of k] req show ?thesis by (simp add: split_beta Let_def)
  qed
qed simp

lemma single_fingerprint:
  assumes "i < j" "j < length reqs" "fst (reqs ! i) = fst (reqs ! j)"
    and "fst (verify_all verify reqs s) ! i = Inr ()" "fst (verify_all verify reqs s) ! j = Inr ()"
  shows "snd (reqs ! i) = snd (reqs ! j)"
  using assms
proof (induction reqs arbitrary: s i j)
  case (Cons req reqs)
  obtain h f where req: "req = (h, f)" by (cases req)
  obtain j' where j: "j = Suc j'" using Cons.prems(1) by (cases j) auto
  show ?case
  proof (cases i)
    case 0
    with Cons.prems(4) req have "pinned (snd (verify h f s)) h = Some f"
      by (intro accepted_pinned) (simp add: split_beta Let_def)
    from accepted_is_pinned [OF this, of j' reqs] Cons.prems 0 j req
    show ?thesis by (simp add: split_beta Let_def)
  next
    case (Suc i')
    with Cons.prems Cons.IH [of i' j' "snd (verify h f s)"] j req
    show ?thesis by (simp add: split_beta Let_def)
  qed
qed simp

end

definition kh_pinned :: "known_hosts \<times> fsys \<Rightarrow> string \<Rightarrow> string option" where
  "kh_pinned s = map_of (entries (fst s))"

interpretation tofu: pin_store kh_pinned "verify_host order" for order
proof unfold_locales
  fix s :: "known_hosts \<times> fsys" and h f g
  obtain kh fs where s: "s = (kh, fs)" by (cases s)
  show "kh_pinned s h = None \<Longrightarrow> kh_pinned (snd (verify_host order h f s)) = (kh_pinned s)(h \<mapsto> f)"
    by (simp add: s kh_pinned_def verify_host_def Let_def update_conv' split: prod.split sum.split)
  show "kh_pinned s h = Some f \<Longrightarrow> verify_host order h f s = (Inr (), s)"
    by (simp add: s kh_pinned_def verify_host_def)
  show "kh_pinned s h = Some g \<Longrightarrow> f \<noteq> g \<Longrightarrow> \<exists>e. verify_host order h f s = (Inl e, s)"
    by (simp add: s kh_pinned_def verify_host_def)
qed

lemma write_owner_only_eq:
  "write_owner_only_file p bs fs = (Inr (), fs') \<Longrightarrow>
     \<exists>n. nodes fs' = (nodes fs)(resolve fs p \<mapsto> n) \<and> nd_data n = bs \<and> nd_kind n = RegularFile
        \<and> nd_mode n = mode_600"
proof -
  assume "write_owner_only_file p bs fs = (Inr (), fs')"
  then obtain fs1 fs2 where c: "create_truncate p mode_600 fs = (Inr (), fs1)"
      and w: "file_write_all p bs fs1 = (Inr (), fs2)"
      and m: "set_permissions p mode_600 fs2 = (Inr (), fs')"
    by (auto simp: write_owner_only_file_def elim!: then_do_InrE dest!: io_InrD)
  have r: "resolve fs1 p = resolve fs p" "resolve fs2 p = resolve fs p"
    using create_truncate_setting [OF c] file_write_all_setting [OF w]
    by (simp_all add: same_settingD)
  obtain n where "nodes fs1 = (nodes fs)(resolve fs p \<mapsto> n)" "nd_data n = []"
      "nd_kind n = RegularFile" using create_truncate_InrD [OF c] by blast
  with file_write_all_InrD [OF w, of n] set_permissions_InrD [OF m, of "n\<lparr>nd_data := bs\<rparr>"] r
  show ?thesis by (intro exI [of _ "n\<lparr>nd_data := bs, nd_mode := mode_600\<rparr>"]) simp
qed

lemma write_owner_only_node:
  assumes "write_owner_only_file p bs fs = (Inr (), fs')"
  shows "\<exists>n. nodes fs' = (nodes fs)(resolve fs p \<mapsto> n) \<and> nd_data n = bs \<and> nd_kind n = RegularFile
    \<and> nd_mode n AND mask_077 = 0"
proof -
  obtain n where "nodes fs' = (nodes fs)(resolve fs p \<mapsto> n)" "nd_data n = bs"
    "nd_kind n = RegularFile" "nd_mode n = mode_600" using write_owner_only_eq [OF assms] by blast
  then show ?thesis by (intro exI [of _ n]) simp
qed

lemma then_do_setting:
  assumes "then_do x f = (r, fs')"
    and "\<And>r1 fs1. x = (r1, fs1) \<Longrightarrow> same_setting fs fs1"
    and "\<And>a fs1 r2 fs2. f a fs1 = (r2, fs2) \<Longrightarrow> same_setting fs1 fs2"
  shows "same_setting fs fs'"
proof -
  obtain r1 fs1 where x: "x = (r1, fs1)" by (cases x)
  show ?thesis
  proof (cases r1)
    case (Inl e)
    with x assms(1,2) show ?thesis by simp
  next
    case (Inr a)
    with x assms(1) have "f a fs1 = (r, fs')" by simp
    from assms(2) [OF x] assms(3) [OF this] show ?thesis by (rule same_setting_trans)
  qed
qed

lemma io_cases: "io x = (r, fs') \<Longrightarrow> \<exists>r1. x = (r1, fs')"
  by (auto simp: io_def split: prod.splits sum.splits)

lemma write_owner_only_setting:
  "write_owner_only_file p bs fs = (r, fs') \<Longrightarrow> same_setting fs fs'"
  unfolding write_owner_only_file_def
  by (elim then_do_setting) (blast dest: io_cases setting_facts)+

interpretation known_hosts_file: private_file_store write_owner_only_file
  validate_known_hosts_permissions id
proof unfold_locales
  show "validate_known_hosts_permissions p fs = Inr () \<longleftrightarrow>
      (\<exists>m. metadata p fs = Inr m \<and> nd_mode m AND mask_077 = 0)" for p fs
    unfolding validate_known_hosts_permissions_def by (rule owner_only_iff)
qed (unfold id_apply, erule write_owner_only_node, erule write_owner_only_setting)

section \<open>The file format\<close>

definition wf_entries :: "(string \<times> string) list \<Rightarrow> bool" where
  "wf_entries es \<longleftrightarrow> distinct (map fst es)
     \<and> (\<forall>(h, f) \<in> set es. plain h \<and> h \<noteq> [] \<and> hd h \<noteq> CHR ''#'' \<and> plain f \<and> f \<noteq> [])"

definition a_permutation :: "iteration_order \<Rightarrow> bool" where
  "a_permutation order \<longleftrightarrow> (\<forall>es. mset (order es) = mset es)"

lemma insert_line_entry:
  assumes "plain h" "h \<noteq> []" "hd h \<noteq> CHR ''#''" "plain f" "f \<noteq> []"
  shows "insert_line es (h @ '' '' @ f) = AList.update h f es"
proof -
  have "last f \<in> set f" "hd h \<in> set h" using assms(2,5) by simp_all
  then have "plain_char (hd h)" "plain_char (last f)"
    using assms(1,4) by (simp_all add: plain_def list_all_iff)
  then have "trim (h @ '' '' @ f) = h @ '' '' @ f"
    using assms(2,5) by (intro trim_fixed) auto
  moreover have "\<not> starts_with ''#'' (h @ '' '' @ f)"
    using assms(2,3) by (cases h) (auto simp: starts_with_iff)
  moreover have "split_once CHR '' '' (h @ CHR '' '' # f) = Some (h, f)"
    using plain_no_separators(3) [OF assms(1)] by (rule split_once_append)
  ultimately show ?thesis using assms(2) by (simp add: insert_line.simps Let_def)
qed

lemma lines_known_hosts_text:
  "wf_entries es \<Longrightarrow> lines (known_hosts_text es) = map (\<lambda>(h, f). h @ '' '' @ f) es"
proof -
  assume es: "wf_entries es"
  have "known_hosts_text es = concat (map (\<lambda>l. l @ [NL]) (map (\<lambda>(h, f). h @ '' '' @ f) es))"
    by (simp add: known_hosts_text_def comp_def case_prod_unfold)
  moreover have "lines (concat (map (\<lambda>l. l @ [NL]) (map (\<lambda>(h, f). h @ '' '' @ f) es)))
      = map (\<lambda>(h, f). h @ '' '' @ f) es"
  proof (rule lines_terminated)
    fix l assume "l \<in> set (map (\<lambda>(h, f). h @ '' '' @ f) es)"
    then obtain h f where l: "l = h @ '' '' @ f" and e: "(h, f) \<in> set es" by auto
    then have p: "plain h" "plain f" "f \<noteq> []" using es by (auto simp: wf_entries_def)
    then have "last l \<in> set f" by (simp add: l)
    then have "last l \<noteq> CR" using plain_no_separators(2) [OF p(2)] by metis
    with p plain_no_separators show "NL \<notin> set l \<and> (l = [] \<or> last l \<noteq> CR)"
      by (auto simp: l)
  qed
  ultimately show ?thesis by (simp only:)
qed

lemma foldl_update_map_of:
  "distinct (map fst es) \<Longrightarrow>
     map_of (foldl (\<lambda>acc (h, f). AList.update h f acc) acc es) = map_of acc ++ map_of es"
proof (induction es arbitrary: acc)
  case (Cons e es)
  obtain h f where e: "e = (h, f)" by (cases e)
  with Cons.prems have "h \<notin> dom (map_of es)" by (auto simp: dom_map_of_conv_image_fst)
  then have "map_of es h = None" by (simp add: domIff)
  with Cons e show ?case
    by (simp add: update_conv' fun_eq_iff map_add_def split: option.split)
qed simp

lemma foldl_insert_line:
  "\<forall>(h, f) \<in> set es. plain h \<and> h \<noteq> [] \<and> hd h \<noteq> CHR ''#'' \<and> plain f \<and> f \<noteq> [] \<Longrightarrow>
     foldl insert_line acc (map (\<lambda>(h, f). h @ '' '' @ f) es)
       = foldl (\<lambda>acc (h, f). AList.update h f acc) acc es"
  by (induction es arbitrary: acc) (auto simp: insert_line_entry [simplified])

lemma parse_known_hosts_text:
  assumes "wf_entries es"
  shows "map_of (parse_known_hosts (known_hosts_text es)) = map_of es"
  using assms lines_known_hosts_text [OF assms] foldl_insert_line [of es "[]"]
    foldl_update_map_of [of es "[]"]
  by (simp add: parse_known_hosts_def wf_entries_def)

lemma wf_entries_perm: "mset es' = mset es \<Longrightarrow> wf_entries es \<Longrightarrow> wf_entries es' \<and> map_of es' = map_of es"
proof -
  assume m: "mset es' = mset es" and w: "wf_entries es"
  have s: "set es' = set es" using m by (rule mset_eq_setD)
  have "mset (map fst es') = mset (map fst es)" using m by simp
  then have d: "distinct (map fst es')"
    using w mset_eq_imp_distinct_iff [of "map fst es'" "map fst es"]
    by (simp only: wf_entries_def)
  with w s have "map_of es' = map_of es" by (simp add: map_of_inject_set wf_entries_def)
  with d w s show ?thesis by (simp add: wf_entries_def)
qed

lemma kh_save_InrD:
  assumes "kh_save order kh fs = (Inr (), fs')"
  obtains fs1 where "same_setting fs fs1"
    "write_owner_only_file (kh_path kh) (str_bytes (known_hosts_text (order (entries kh)))) fs1
      = (Inr (), fs')"
proof -
  obtain fs1 where p: "(case parent (kh_path kh) of None \<Rightarrow> (Inr (), fs)
      | Some d \<Rightarrow> then_do (io (create_dir_all d fs)) (\<lambda>_ fs. io (set_permissions d mode_700 fs)))
        = (Inr (), fs1)"
    and w: "write_owner_only_file (kh_path kh) (str_bytes (known_hosts_text (order (entries kh)))) fs1
      = (Inr (), fs')"
    using assms unfolding kh_save_def kh_set_dir_eq by (auto elim!: then_do_InrE)
  have "same_setting fs fs1"
  proof (cases "parent (kh_path kh)")
    case (Some d)
    with p have "then_do (io (create_dir_all d fs)) (\<lambda>_ fs. io (set_permissions d mode_700 fs))
        = (Inr (), fs1)" by simp
    then show ?thesis by (elim then_do_setting) (blast dest: io_cases setting_facts)+
  qed (use p in simp)
  with w that show thesis by blast
qed

lemma known_hosts_ascii:
  "wf_entries es \<Longrightarrow> ascii_text (known_hosts_text es)"
  unfolding wf_entries_def known_hosts_text_def
  by (induction es) (auto simp: ascii_text_plain code_def)

lemma load_saved:
  assumes "kh_save order kh fs = (Inr (), fs')" "wf_entries (entries kh)" "a_permutation order"
    and "fs_check Stat (kh_path kh) fs = None" "fs_check ReadFile (kh_path kh) fs = None"
  shows "\<exists>kh'. load (kh_path kh) fs' = Inr kh' \<and> map_of (entries kh') = map_of (entries kh)"
proof -
  let ?es = "order (entries kh)"
  have "mset ?es = mset (entries kh)" using assms(3) by (simp add: a_permutation_def)
  then have es: "wf_entries ?es" "map_of ?es = map_of (entries kh)"
    using wf_entries_perm assms(2) by blast+
  obtain fs1 where s: "same_setting fs fs1" and w: "write_owner_only_file (kh_path kh)
      (str_bytes (known_hosts_text ?es)) fs1 = (Inr (), fs')"
    using assms(1) by (rule kh_save_InrD)
  have "fs_check Stat (kh_path kh) fs1 = None" "fs_check ReadFile (kh_path kh) fs1 = None"
    using assms(4,5) s by (simp_all add: same_settingD)
  from known_hosts_file.stored [OF w this] es show ?thesis
    by (simp add: load_def read_to_string_def utf8_valid_ascii known_hosts_ascii
        parse_known_hosts_text)
qed

section \<open>Properties\<close>


text \<open>A writable file system with a free disk, for the witnesses.\<close>

definition demo_known_hosts :: known_hosts where
  "demo_known_hosts = \<lparr>entries = [], kh_path = Path True [''home'', ''known_hosts'']\<rparr>"


lemma update_new: "k \<notin> fst ` set al \<Longrightarrow> AList.update k v al = al @ [(k, v)]"
  by (induction al) auto

text \<open>
  C36: a pin survives the process: after an accepted first verification, loading the file gives
  the old pins and the new one, whatever order the hash map was written in.
\<close>

theorem accepted_pin_persists:
  assumes "verify_host order h f (kh, fs) = (Inr (), kh', fs')" "map_of (entries kh) h = None"
    and "wf_entries (entries kh)" "plain h" "h \<noteq> []" "hd h \<noteq> CHR ''#''" "plain f" "f \<noteq> []"
    and "a_permutation order"
    and "fs_check Stat (kh_path kh) fs = None" "fs_check ReadFile (kh_path kh) fs = None"
  shows "\<exists>kh2. load (kh_path kh) fs' = Inr kh2
    \<and> map_of (entries kh2) = (map_of (entries kh))(h \<mapsto> f)"
proof -
  let ?kh = "kh\<lparr>entries := AList.update h f (entries kh)\<rparr>"
  have s: "kh_save order ?kh fs = (Inr (), fs')"
    using assms(1,2) by (auto simp: verify_host_def Let_def split: prod.splits sum.splits)
  have "AList.update h f (entries kh) = entries kh @ [(h, f)]"
    using assms(2) by (intro update_new) (simp add: map_of_eq_None_iff)
  moreover have "distinct (map fst (AList.update h f (entries kh)))"
    using assms(3) by (intro distinct_update) (simp add: wf_entries_def)
  ultimately have "wf_entries (AList.update h f (entries kh))"
    using assms(3-8) by (auto simp: wf_entries_def)
  with load_saved [OF s] assms(9,10,11) show ?thesis by (simp add: update_conv')
qed

theorem accepted_pin_persists_witness:
  "\<exists>kh2 fs'. load (kh_path demo_known_hosts) fs' = Inr kh2
     \<and> map_of (entries kh2) = [''h:22'' \<mapsto> ''aa'']"
proof -
  obtain kh' fs' where v: "verify_host (\<lambda>es. es) ''h:22'' ''aa'' (demo_known_hosts, demo_fs)
      = (Inr (), kh', fs')"
    by (simp add: verify_host_def kh_save_def write_owner_only_file_def demo_known_hosts_def fs_eval
        create_truncate_def Let_def)
  show ?thesis
    using accepted_pin_persists [OF v]
    by (auto simp: demo_known_hosts_def wf_entries_def plain_char_def code_def a_permutation_def
        demo_fs_simps)
qed

end
