(* ===== verification/Client_Connection.thy ===== *)
theory Client_Connection
  imports Server_Connection Known_Hosts
begin

text \<open>
  The client's side of a connection, \<^verbatim>\<open>sqsh/src/connection.rs\<close>: the checks of the server's
  certificate, the challenge exchange, the requests for remote forwards, the choice between a
  direct connection and a shared one, and the retry after a refused key. QUIC and TLS appear as
  what the server presented in the handshake; rustls completes a handshake exactly when the
  certificate verifier it is given accepts.
\<close>

datatype client_error =
    NoAddress
  | HandshakeRefused
  | NoPeerIdentity
  | EmptyChain
  | ClientKnownHosts kh_error
  | ClientKey file_error
  | ClientSend
  | ClientStreamEnded
  | ServerDisconnected disconnect_reason string
  | UnexpectedReply control_message
  | KeyRejected
  | ClientPanicked
  | ForwardRefused u16 string
  | InstallFailed

section \<open>The server's certificate\<close>

text \<open>
  \<^verbatim>\<open>SkipVerification\<close>: the certificate, and the signature with which the handshake proves that the
  server holds its private key, are both accepted unseen.
\<close>

definition verify_server_cert :: "byte list \<Rightarrow> byte list list \<Rightarrow> string \<Rightarrow> string + unit" where
  "verify_server_cert end_entity intermediates server_name = Inr ()"

definition verify_tls13_signature :: "byte list \<Rightarrow> byte list \<Rightarrow> byte list \<Rightarrow> string + unit" where
  "verify_tls13_signature message cert dss = Inr ()"

definition verify_tls12_signature :: "byte list \<Rightarrow> byte list \<Rightarrow> byte list \<Rightarrow> string + unit" where
  "verify_tls12_signature message cert dss = Inr ()"

text \<open>What the server presented: its chain, the handshake so far, and its signature of that.\<close>

record presented =
  ps_chain :: "byte list list"
  ps_transcript :: "byte list"
  ps_signature :: "byte list"

definition handshake :: "string \<Rightarrow> presented \<Rightarrow> client_error + byte list list" where
  "handshake server_name p = (case ps_chain p of
      [] \<Rightarrow> Inl HandshakeRefused
    | c # cs \<Rightarrow>
        if is_ok (verify_server_cert c cs server_name)
           \<and> is_ok (verify_tls13_signature (ps_transcript p) c (ps_signature p))
        then Inr (ps_chain p) else Inl HandshakeRefused)"

definition compute_cert_fingerprint ::
  "(byte list \<Rightarrow> byte list) \<Rightarrow> byte list list option \<Rightarrow> client_error + byte list" where
  "compute_cert_fingerprint sha256 peer_identity = (case peer_identity of
      None \<Rightarrow> Inl NoPeerIdentity
    | Some [] \<Rightarrow> Inl EmptyChain
    | Some (c # cs) \<Rightarrow> Inr (cert_fingerprint sha256 c))"

section \<open>Authentication\<close>

record client_library =
  cl_sha256 :: "byte list \<Rightarrow> byte list"
  cl_sha512 :: "byte list \<Rightarrow> byte list"
  cl_hex :: "byte list \<Rightarrow> string"
  cl_public_key :: "byte list \<Rightarrow> byte list"
  cl_sign :: "byte list \<Rightarrow> byte list \<Rightarrow> byte list"

type_synonym client_run = "(client_error + unit) \<times> control_message list \<times> control_message sink"

definition answer_challenge ::
  "client_library \<Rightarrow> client_config \<Rightarrow> fsys \<Rightarrow> byte list \<Rightarrow> byte list \<Rightarrow> control_message list
    \<Rightarrow> control_message sink \<Rightarrow> client_run" where
  "answer_challenge lib cc fs fp nonce ms k =
     (case build_challenge_payload (cl_sha512 lib) nonce fp (cc_username cc) of
        None \<Rightarrow> (Inl ClientPanicked, ms, k)
      | Some payload \<Rightarrow>
          (case res_bind (load_signing_key (cc_identity_path cc) fs)
              (\<lambda>seed. if length seed = 32 then Inr seed else Inl Not_a_seed) of
             Inl e \<Rightarrow> (Inl (ClientKey e), ms, k)
           | Inr seed \<Rightarrow>
               send_or (AuthResponse (cl_public_key lib seed) (cl_sign lib seed payload)) k
                 (\<lambda>k1. (Inl ClientSend, ms, k1))
                 (\<lambda>k1. case ms of
                      [] \<Rightarrow> (Inl ClientStreamEnded, [], k1)
                    | AuthResult Success # rest \<Rightarrow> (Inr (), rest, k1)
                    | AuthResult Failure # rest \<Rightarrow> (Inl KeyRejected, rest, k1)
                    | m # rest \<Rightarrow> (Inl (UnexpectedReply m), rest, k1))))"

definition client_authenticate ::
  "client_library \<Rightarrow> client_config \<Rightarrow> fsys \<Rightarrow> byte list \<Rightarrow> control_message list
    \<Rightarrow> control_message sink \<Rightarrow> client_run" where
  "client_authenticate lib cc fs fp ms k =
     send_or (ClientHello PROTOCOL_VERSION (cc_username cc)) k
       (\<lambda>k1. (Inl ClientSend, ms, k1))
       (\<lambda>k1. case ms of
            [] \<Rightarrow> (Inl ClientStreamEnded, [], k1)
          | AuthChallenge nonce # rest \<Rightarrow> answer_challenge lib cc fs fp nonce rest k1
          | Disconnect r d # rest \<Rightarrow> (Inl (ServerDisconnected r d), rest, k1)
          | m # rest \<Rightarrow> (Inl (UnexpectedReply m), rest, k1))"

section \<open>Establishing a connection\<close>

text \<open>
  \<open>resolves\<close> is whether the address resolves and the endpoint connects. Verifying the fingerprint may
  write the known hosts.
\<close>

definition establish_connection ::
  "client_library \<Rightarrow> iteration_order \<Rightarrow> client_config \<Rightarrow> (string \<Rightarrow> bool) \<Rightarrow> presented
    \<Rightarrow> control_message list \<Rightarrow> control_message sink \<Rightarrow> fsys \<Rightarrow> client_run \<times> fsys" where
  "establish_connection lib order cc resolves p ms k fs =
     (let host_port = cc_host cc @ '':'' @ show_u16 (cc_port cc) in
      if \<not> resolves host_port then ((Inl NoAddress, ms, k), fs)
      else case res_bind (handshake (cc_host cc) p)
          (\<lambda>chain. compute_cert_fingerprint (cl_sha256 lib) (Some chain)) of
        Inl e \<Rightarrow> ((Inl e, ms, k), fs)
      | Inr fp \<Rightarrow>
          (case load (cc_known_hosts_path cc) fs of
             Inl e \<Rightarrow> ((Inl (ClientKnownHosts (KhFile e)), ms, k), fs)
           | Inr kh \<Rightarrow>
               (case verify_host order host_port (cl_hex lib fp) (kh, fs) of
                  (Inl e, kh1, fs1) \<Rightarrow> ((Inl (ClientKnownHosts e), ms, k), fs1)
                | (Inr _, kh1, fs1) \<Rightarrow> (client_authenticate lib cc fs1 fp ms k, fs1))))"

text \<open>The retry: one installation of the key, one more attempt, only if the key was refused.\<close>

definition connect ::
  "('s \<Rightarrow> (client_error + 'a) \<times> 's) \<Rightarrow> ('s \<Rightarrow> bool \<times> 's) \<Rightarrow> 's \<Rightarrow> (client_error + 'a) \<times> 's" where
  "connect once install s = (case once s of
      (Inr a, s1) \<Rightarrow> (Inr a, s1)
    | (Inl e, s1) \<Rightarrow>
        if e = KeyRejected
        then (case install s1 of
            (False, s2) \<Rightarrow> (Inl InstallFailed, s2)
          | (True, s2) \<Rightarrow> once s2)
        else (Inl e, s1))"

text \<open>How a connection is made: \<open>via_master\<close> is whether a shared connection took the session.\<close>

datatype route = RouteDirect | RouteMaster | RouteViaMaster

definition connect_route :: "client_config \<Rightarrow> bool \<Rightarrow> route" where
  "connect_route cc via_master =
     (if cc_subsystem cc \<noteq> None then RouteDirect
      else if cc_control_master cc then RouteMaster
      else if (cc_control_path_explicit cc \<or> cc_control_master_auto cc
               \<or> persist_is_enabled (cc_control_persist cc)) \<and> via_master
      then RouteViaMaster
      else RouteDirect)"

section \<open>Requesting remote forwards\<close>

fun request_forwards ::
  "forward_spec list \<Rightarrow> control_message list \<Rightarrow> control_message sink \<Rightarrow> client_run" where
  "request_forwards [] ms k = (Inr (), ms, k)"
| "request_forwards (rf # rfs) ms k =
     send_or (TcpForwardRequest (fw_bind_addr rf) (fw_bind_port rf)) k
       (\<lambda>k1. (Inl ClientSend, ms, k1))
       (\<lambda>k1. case ms of
            [] \<Rightarrow> (Inl ClientStreamEnded, [], k1)
          | TcpForwardConfirm p # rest \<Rightarrow> request_forwards rfs rest k1
          | TcpForwardFailure d # rest \<Rightarrow> (Inl (ForwardRefused (fw_bind_port rf) d), rest, k1)
          | m # rest \<Rightarrow> (Inl (UnexpectedReply m), rest, k1))"

section \<open>Lemmas\<close>

lemma handshake_accepts: "ps_chain p \<noteq> [] \<Longrightarrow> handshake name p = Inr (ps_chain p)"
  by (cases "ps_chain p") (simp_all add: handshake_def verify_server_cert_def verify_tls13_signature_def)

text \<open>
  The client and the server use the same hash, and what the signer signs the verifier accepts (the
  documented behaviour of ML-DSA).
\<close>

definition signature_laws :: "client_library \<Rightarrow> ('vk, 'sig) auth_library \<Rightarrow> bool" where
  "signature_laws cl lib \<longleftrightarrow> cl_sha512 cl = sha512 lib
     \<and> (\<forall>seed d. length seed = 32 \<longrightarrow>
          (\<exists>vk sg. decode_verifying_key lib (cl_public_key cl seed) = Some vk
            \<and> decode_signature lib (cl_sign cl seed d) = Some sg \<and> verifies lib vk d sg))"

text \<open>
  An enrolled client: its key file holds a seed it may use, and the server has the public key on
  file for the user it names.
\<close>

definition enrolled ::
  "client_library \<Rightarrow> ('vk, 'sig) auth_library \<Rightarrow> client_config \<Rightarrow> fsys \<Rightarrow> fsys \<Rightarrow> bool" where
  "enrolled cl lib cc cfs sfs \<longleftrightarrow> length (cc_username cc) < 65536
     \<and> (\<exists>seed usr ks. load_signing_key (cc_identity_path cc) cfs = Inr seed \<and> length seed = 32
          \<and> from_name lib (cc_username cc) = Inr (Some usr)
          \<and> load_user_authorized_keys lib sfs usr = Inr ks \<and> cl_public_key cl seed \<in> set ks)"

lemma enrolled_exchange:
  assumes "enrolled cl lib cc cfs sfs" "signature_laws cl lib" "live_cert_fingerprint cfg = fp"
  shows "\<exists>pk sg. client_authenticate cl cc cfs fp [AuthChallenge nonce, AuthResult Success] open_sink
      = (Inr (), [], open_sink\<lparr>sent := [ClientHello PROTOCOL_VERSION (cc_username cc), AuthResponse pk sg]\<rparr>)
    \<and> authenticate lib cfg sfs nonce [ClientHello PROTOCOL_VERSION (cc_username cc), AuthResponse pk sg] open_sink
      = (Inr (cc_username cc), [], open_sink\<lparr>sent := [AuthChallenge nonce, AuthResult Success]\<rparr>)"
proof -
  obtain seed usr ks where e: "load_signing_key (cc_identity_path cc) cfs = Inr seed" "length seed = 32"
      "from_name lib (cc_username cc) = Inr (Some usr)"
      "load_user_authorized_keys lib sfs usr = Inr ks" "cl_public_key cl seed \<in> set ks"
      "length (cc_username cc) < 65536"
    using assms(1) by (auto simp: enrolled_def)
  let ?d = "sha512 lib (challenge_transcript nonce fp (cc_username cc))"
  have h: "cl_sha512 cl = sha512 lib" using assms(2) by (simp add: signature_laws_def)
  obtain vk sg where v: "decode_verifying_key lib (cl_public_key cl seed) = Some vk"
      "decode_signature lib (cl_sign cl seed ?d) = Some sg" "verifies lib vk ?d sg"
    using assms(2) e(2) unfolding signature_laws_def by blast
  have c: "client_authenticate cl cc cfs fp [AuthChallenge nonce, AuthResult Success] open_sink
      = (Inr (), [], open_sink\<lparr>sent := [ClientHello PROTOCOL_VERSION (cc_username cc),
          AuthResponse (cl_public_key cl seed) (cl_sign cl seed ?d)]\<rparr>)"
    using e by (simp add: client_authenticate_def answer_challenge_def build_challenge_payload_def h)
  have "authenticate lib cfg sfs nonce [ClientHello PROTOCOL_VERSION (cc_username cc),
        AuthResponse (cl_public_key cl seed) (cl_sign cl seed ?d)] open_sink
      = (Inr (cc_username cc), [], open_sink\<lparr>sent := [AuthChallenge nonce, AuthResult Success]\<rparr>)"
    using e v assms(3)
    by (simp add: authenticate_def challenge_user_def check_response_def build_challenge_payload_def)
  with c show ?thesis by blast
qed

lemma establish_pinned:
  assumes "ps_chain p = cert # cs" "resolves (cc_host cc @ '':'' @ show_u16 (cc_port cc))"
    and "load (cc_known_hosts_path cc) fs = Inr kh"
    and "map_of (entries kh) (cc_host cc @ '':'' @ show_u16 (cc_port cc)) = Some pinned"
  shows "establish_connection cl order cc resolves p ms k fs =
    (let fp = cert_fingerprint (cl_sha256 cl) cert in
     if pinned = cl_hex cl fp then (client_authenticate cl cc fs fp ms k, fs)
     else ((Inl (ClientKnownHosts (VerificationFailed pinned (cl_hex cl fp))), ms, k), fs))"
  using assms
  by (simp add: establish_connection_def handshake_accepts compute_cert_fingerprint_def
      verify_host_def Let_def)

text \<open>The requests for some forwards, as the server receives them.\<close>

definition forward_key :: "forward_spec \<Rightarrow> bind_key" where
  "forward_key f = (fw_bind_addr f, fw_bind_port f)"

definition forward_event :: "forward_spec \<Rightarrow> conn_event" where
  "forward_event f = ControlReceived (Some (TcpForwardRequest (fw_bind_addr f) (fw_bind_port f)))"

lemma server_confirms:
  assumes "c_conn_status s = ConnRunning" "room (c_control s) = None"
    and "\<forall>f \<in> set fws. map_of (c_forwards s) (forward_key f) = None
      \<and> remote_forward_allowed (fw_bind_addr f) (fw_bind_port f) (remote_forward_allowlist cfg)"
    and "distinct (map forward_key fws)"
    and "length (c_forwards s) + length fws \<le> max_remote_forwards_per_connection cfg"
  shows "sent (c_control (foldl (conn_step cfg) s (map forward_event fws)))
      = sent (c_control s) @ map (\<lambda>f. TcpForwardConfirm (fw_bind_port f)) fws
    \<and> map snd (c_listeners (foldl (conn_step cfg) s (map forward_event fws)))
      = map snd (c_listeners s) @ map forward_key fws"
  using assms
proof (induction fws arbitrary: s)
  case (Cons f fws)
  let ?s = "s\<lparr>c_listeners := c_listeners s @ [(c_next s, forward_key f)],
    c_forwards := c_forwards s @ [(forward_key f, c_next s)], c_next := Suc (c_next s),
    c_control := c_control s\<lparr>sent := sent (c_control s) @ [TcpForwardConfirm (fw_bind_port f)]\<rparr>\<rparr>"
  have step: "conn_step cfg s (forward_event f) = ?s"
    using Cons.prems
    by (simp add: conn_step_def forward_event_def control_received_def forward_request_def
        alist_update_new forward_key_def)
  have "\<forall>g \<in> set fws. map_of (c_forwards ?s) (forward_key g) = None
      \<and> remote_forward_allowed (fw_bind_addr g) (fw_bind_port g) (remote_forward_allowlist cfg)"
    using Cons.prems(3,4) by (auto simp: map_add_def image_iff)
  with Cons.IH [of ?s] Cons.prems show ?case by (simp add: step)
qed simp

lemma client_accepts_confirms:
  "room k = None \<Longrightarrow>
     request_forwards fws (map (\<lambda>f. TcpForwardConfirm (fw_bind_port f)) fws @ rest) k
       = (Inr (), rest, k\<lparr>sent := sent k @
            map (\<lambda>f. TcpForwardRequest (fw_bind_addr f) (fw_bind_port f)) fws\<rparr>)"
  by (induction fws arbitrary: k) simp_all

section \<open>Properties\<close>

text \<open>
  C17: an enrolled client is let in. Run against each other, the client's and the server's half of
  the exchange agree message for message, both end in success, and the server has the name the
  client asked for.
\<close>

theorem enrolled_client_logs_in:
  assumes "enrolled cl lib cc cfs sfs" "signature_laws cl lib" "live_cert_fingerprint cfg = fp"
  shows "\<exists>pk sg. client_authenticate cl cc cfs fp [AuthChallenge nonce, AuthResult Success] open_sink
      = (Inr (), [], open_sink\<lparr>sent := [ClientHello PROTOCOL_VERSION (cc_username cc), AuthResponse pk sg]\<rparr>)
    \<and> authenticate lib cfg sfs nonce [ClientHello PROTOCOL_VERSION (cc_username cc), AuthResponse pk sg] open_sink
      = (Inr (cc_username cc), [], open_sink\<lparr>sent := [AuthChallenge nonce, AuthResult Success]\<rparr>)"
  using assms by (rule enrolled_exchange)

text \<open>
  A server whose certificate is not the pinned one gets nothing: the client stops before its
  first message, whatever the server sends, and its known hosts stay as they were.
\<close>

lemma changed_certificate_refused:
  assumes "ps_chain p = cert # cs"
    and "load (cc_known_hosts_path cc) fs = Inr kh"
    and "map_of (entries kh) (cc_host cc @ '':'' @ show_u16 (cc_port cc)) = Some pinned"
    and "pinned \<noteq> cl_hex cl (cert_fingerprint (cl_sha256 cl) cert)"
  shows "\<exists>e. establish_connection cl order cc resolves p ms k fs = ((Inl e, ms, k), fs)"
proof (cases "resolves (cc_host cc @ '':'' @ show_u16 (cc_port cc))")
  case True
  with assms(4) establish_pinned [where resolves = resolves, OF assms(1) True assms(2,3)] show ?thesis by (simp add: Let_def)
qed (simp add: establish_connection_def)

text \<open>
  C18: pinning does not stop a relay. The client never checks that the server holds the key of its
  certificate: whoever presents the pinned certificate, with any bytes for the signature of the
  handshake, can pass the messages between the client and the real server, and ends up as the
  client's user on a connection to the server that is its own.
\<close>

theorem relay_attack_succeeds:
  assumes "enrolled cl lib cc fs sfs" "signature_laws cl lib"
    and "live_cert_fingerprint cfg = cert_fingerprint (cl_sha256 cl) cert"
    and "load (cc_known_hosts_path cc) fs = Inr kh"
    and "map_of (entries kh) (cc_host cc @ '':'' @ show_u16 (cc_port cc))
      = Some (cl_hex cl (cert_fingerprint (cl_sha256 cl) cert))"
    and "resolves (cc_host cc @ '':'' @ show_u16 (cc_port cc))"
  shows "\<exists>pk sg. establish_connection cl order cc resolves
        \<lparr>ps_chain = [cert], ps_transcript = attackers_handshake, ps_signature = forged\<rparr>
        [AuthChallenge nonce, AuthResult Success] open_sink fs
      = ((Inr (), [], open_sink\<lparr>sent :=
          [ClientHello PROTOCOL_VERSION (cc_username cc), AuthResponse pk sg]\<rparr>), fs)
    \<and> fst (authenticate lib cfg sfs nonce
        [ClientHello PROTOCOL_VERSION (cc_username cc), AuthResponse pk sg] open_sink)
      = Inr (cc_username cc)"
proof -
  let ?p = "\<lparr>ps_chain = [cert], ps_transcript = attackers_handshake, ps_signature = forged\<rparr>"
  have "ps_chain ?p = cert # []" by simp
  from establish_pinned [where resolves = resolves, OF this assms(6,4,5)] enrolled_exchange [OF assms(1-3)]
  show ?thesis by (fastforce simp: Let_def)
qed

text \<open>
  Client and server agree on remote forwards. Loopback or listed addresses, no two the same
  and no more than the limit, are all confirmed in order, the client goes on, and the server
  listens on exactly those addresses.
\<close>

lemma remote_forwards_agreed:
  assumes "distinct (map forward_key fws)" "length fws \<le> max_remote_forwards_per_connection cfg"
    and "\<forall>f \<in> set fws.
      remote_forward_allowed (fw_bind_addr f) (fw_bind_port f) (remote_forward_allowlist cfg)"
  shows "let s = foldl (conn_step cfg) (conn_start cfg open_sink) (map forward_event fws)
    in fst (request_forwards fws (sent (c_control s)) open_sink) = Inr ()
      \<and> map (\<lambda>m. ControlReceived (Some m))
          (sent (snd (snd (request_forwards fws (sent (c_control s)) open_sink)))) = map forward_event fws
      \<and> map snd (c_listeners s) = map forward_key fws"
  using server_confirms [of "conn_start cfg open_sink" fws cfg] assms
    client_accepts_confirms [of open_sink fws "[]"]
  by (simp add: forward_event_def Let_def)

section \<open>Witnesses\<close>

definition demo_client_fs :: fsys where
  "demo_client_fs = put_node demo_identity
     \<lparr>nd_kind = RegularFile, nd_uid = 1000, nd_mode = mode_600, nd_data = replicate 32 1\<rparr> demo_fs"

definition demo_client :: client_config where
  "demo_client = \<lparr>cc_host = ''h'', cc_port = 2222, cc_ssh_port = 22, cc_username = ''alice'',
     cc_identity_path = demo_identity, cc_known_hosts_path = kh_path demo_known_hosts,
     cc_command = None, cc_subsystem = None, cc_local_forwards = [], cc_remote_forwards = [],
     cc_no_shell = False, cc_control_path = Path True [''s''], cc_control_path_explicit = False,
     cc_control_master = False, cc_control_master_auto = False, cc_control_persist = Disabled\<rparr>"

text \<open>A toy signature: the signature is the seed followed by the payload.\<close>

definition demo_client_lib :: client_library where
  "demo_client_lib = \<lparr>cl_sha256 = (\<lambda>b. take 32 (b @ replicate 32 0)), cl_sha512 = id,
     cl_hex = (\<lambda>b. ''ab''), cl_public_key = (\<lambda>seed. [1, 2]), cl_sign = (\<lambda>seed d. [9])\<rparr>"

definition demo_server_lib :: "(byte list, byte list) auth_library" where
  "demo_server_lib = (demo_auth UNIV)"

definition demo_server :: "byte list \<Rightarrow> server_config" where
  "demo_server cert = demo_config\<lparr>live_cert_fingerprint :=
     cert_fingerprint (cl_sha256 demo_client_lib) cert\<rparr>"

lemma demo_enrolled:
  "enrolled demo_client_lib demo_server_lib demo_client demo_client_fs demo_auth_fs"
proof -
  have "load_signing_key demo_identity demo_client_fs = Inr (replicate 32 1)"
    by (simp add: load_signing_key_def validate_private_key_permissions_def demo_client_fs_def
        read_def demo_fs_simps put_node_def)
  moreover have "load_user_authorized_keys demo_server_lib demo_auth_fs demo_alice = Inr [[1, 2]]"
    unfolding demo_server_lib_def by (rule demo_load_keys)
  ultimately show ?thesis
    unfolding enrolled_def demo_client_def
    by (intro conjI exI [of _ "replicate 32 1"] exI [of _ demo_alice] exI [of _ "[[1, 2]]"])
      (simp_all add: demo_server_lib_def demo_auth_def demo_client_lib_def)
qed

lemma demo_signatures: "signature_laws demo_client_lib demo_server_lib"
  by (simp add: signature_laws_def demo_client_lib_def demo_server_lib_def demo_auth_def)

definition demo_host_port :: string where
  "demo_host_port = ''h:'' @ show_u16 2222"

definition demo_pinned_fs :: fsys where
  "demo_pinned_fs = put_node (kh_path demo_known_hosts)
     \<lparr>nd_kind = RegularFile, nd_uid = 1000, nd_mode = mode_600,
      nd_data = str_bytes (known_hosts_text [(demo_host_port, ''ab'')])\<rparr> demo_client_fs"

lemma demo_load_pinned:
  "\<exists>kh. load (cc_known_hosts_path demo_client) demo_pinned_fs = Inr kh
     \<and> map_of (entries kh) (cc_host demo_client @ '':'' @ show_u16 (cc_port demo_client)) = Some ''ab''"
proof -
  let ?es = "[(demo_host_port, ''ab'')]"
  have wf: "wf_entries ?es"
    by (simp add: wf_entries_def demo_host_port_def plain_char_def code_def)
  have "metadata (kh_path demo_known_hosts) demo_pinned_fs
      = Inr \<lparr>nd_kind = RegularFile, nd_uid = 1000, nd_mode = mode_600,
          nd_data = str_bytes (known_hosts_text ?es)\<rparr>"
    by (simp add: demo_pinned_fs_def demo_client_fs_def metadata_def fs_check_def demo_fs_def
        demo_known_hosts_def empty_path_def)
  moreover have "read (kh_path demo_known_hosts) demo_pinned_fs
      = Inr (str_bytes (known_hosts_text ?es))"
    by (simp add: demo_pinned_fs_def demo_client_fs_def read_def fs_check_def demo_fs_def
        demo_known_hosts_def empty_path_def)
  ultimately have "load (cc_known_hosts_path demo_client) demo_pinned_fs
      = Inr \<lparr>entries = parse_known_hosts (known_hosts_text ?es), kh_path = kh_path demo_known_hosts\<rparr>"
    using known_hosts_ascii [OF wf]
    by (simp add: load_def exists_def validate_known_hosts_permissions_def read_to_string_def
        utf8_valid_ascii demo_client_def)
  moreover have "cc_host demo_client @ '':'' @ show_u16 (cc_port demo_client) = demo_host_port"
    by (simp add: demo_client_def demo_host_port_def)
  ultimately show ?thesis by (simp add: parse_known_hosts_text [OF wf])
qed

lemma demo_enrolled_pinned:
  "enrolled demo_client_lib demo_server_lib demo_client demo_pinned_fs demo_auth_fs"
proof -
  have "load_signing_key demo_identity demo_pinned_fs = load_signing_key demo_identity demo_client_fs"
    by (simp add: load_signing_key_def validate_private_key_permissions_def demo_pinned_fs_def
        read_def metadata_def) (simp add: demo_client_fs_def demo_fs_simps demo_known_hosts_def)
  with demo_enrolled show ?thesis by (simp add: enrolled_def demo_client_def)
qed

theorem enrolled_client_logs_in_witness:
  "\<exists>pk sg. fst (authenticate demo_server_lib (demo_server [48]) demo_auth_fs demo_nonce
     [ClientHello PROTOCOL_VERSION ''alice'', AuthResponse pk sg] open_sink) = Inr ''alice''"
proof -
  have u: "cc_username demo_client = ''alice''" by (simp add: demo_client_def)
  show ?thesis
    using enrolled_client_logs_in [where nonce = demo_nonce, OF demo_enrolled demo_signatures refl]
    unfolding u by (metis fst_conv)
qed

lemma changed_certificate_refused_instance:
  "\<exists>e. establish_connection (demo_client_lib\<lparr>cl_hex := (\<lambda>b. ''cd'')\<rparr>) (\<lambda>es. es) demo_client (\<lambda>_. True)
     \<lparr>ps_chain = [[1]], ps_transcript = [], ps_signature = []\<rparr> [AuthChallenge []] open_sink demo_pinned_fs
   = ((Inl e, [AuthChallenge []], open_sink), demo_pinned_fs)"
proof -
  obtain kh where "load (cc_known_hosts_path demo_client) demo_pinned_fs = Inr kh"
    "map_of (entries kh) (cc_host demo_client @ '':'' @ show_u16 (cc_port demo_client)) = Some ''ab''"
    using demo_load_pinned by blast
  then show ?thesis
    by (intro changed_certificate_refused [where cert = "[1]" and cs = "[]" and pinned = "''ab''"])
      simp_all
qed

theorem relay_attack_succeeds_witness:
  "\<exists>pk sg. fst (authenticate demo_server_lib (demo_server [48]) demo_auth_fs demo_nonce
     [ClientHello PROTOCOL_VERSION ''alice'', AuthResponse pk sg] open_sink) = Inr ''alice''"
proof -
  obtain kh where kh: "load (cc_known_hosts_path demo_client) demo_pinned_fs = Inr kh"
    "map_of (entries kh) (cc_host demo_client @ '':'' @ show_u16 (cc_port demo_client)) = Some ''ab''"
    using demo_load_pinned by blast
  have hex: "cl_hex demo_client_lib (cert_fingerprint (cl_sha256 demo_client_lib) [48]) = ''ab''"
    by (simp add: demo_client_lib_def)
  have u: "cc_username demo_client = ''alice''" by (simp add: demo_client_def)
  have fp: "live_cert_fingerprint (demo_server [48])
      = cert_fingerprint (cl_sha256 demo_client_lib) [48]" by (simp add: demo_server_def)
  show ?thesis
    using relay_attack_succeeds [OF demo_enrolled_pinned demo_signatures fp kh(1) kh(2)
        [unfolded hex [symmetric]], of "\<lambda>_. True" "\<lambda>es. es" "[6]" "[6]" demo_nonce]
    unfolding u by fastforce
qed

definition demo_local :: forward_spec where
  "demo_local = \<lparr>fw_bind_addr = ''localhost'', fw_bind_port = 8080, fw_target_host = ''web'', fw_target_port = 80\<rparr>"

lemma remote_forwards_agreed_instance:
  "fst (request_forwards [demo_local] (sent (c_control (foldl (conn_step demo_config)
     (conn_start demo_config open_sink) (map forward_event [demo_local])))) open_sink) = Inr ()"
  using remote_forwards_agreed [of "[demo_local]" demo_config]
  by (simp add: demo_local_def Let_def)

end
