(* ===== verification/Bootstrap.thy ===== *)
theory Bootstrap
  imports Release Client_Connection
begin

text \<open>
  Setting a server up over ssh: \<^verbatim>\<open>sqsh/src/bootstrap/\<close> (ssh.rs, detect.rs, service.rs, mod.rs) and
  \<^verbatim>\<open>bin/sqsh-bootstrap.rs\<close>. The state is the list of the ssh and scp processes run so far and the local
  files; what the server answers to a process is an argument and may depend on all of them.
\<close>

datatype boot_error =
    BootSsh string
  | BootSudo string
  | BootScp string
  | BootTemp io_kind
  | UnsupportedOs string
  | BootRelease release_error
  | BootKey file_error
  | BootKnownHosts kh_error

datatype process = Ssh "string list" | Scp "string list" "byte list"

record boot =
  bt_log :: "process list"
  bt_fs :: fsys

text \<open>
  \<open>bw_answer\<close> is what a process printed if it succeeded, given those before it; \<open>bw_temp\<close> the name of a
  new temporary file with its contents written, or why there is none.
\<close>

record boot_world =
  bw_answer :: "process list \<Rightarrow> process \<Rightarrow> string option"
  bw_temp :: "process list \<Rightarrow> io_kind + string"
  bw_exec :: process_world
  bw_staging :: "io_kind + path"
  bw_env :: environment

type_synonym 'a boot_step = "boot \<Rightarrow> (boot_error + 'a) \<times> boot"

definition and_then :: "'a boot_step \<Rightarrow> ('a \<Rightarrow> 'b boot_step) \<Rightarrow> 'b boot_step" where
  "and_then m f s = (case m s of (Inl e, s1) \<Rightarrow> (Inl e, s1) | (Inr a, s1) \<Rightarrow> f a s1)"

definition give :: "'a \<Rightarrow> 'a boot_step" where
  "give a s = (Inr a, s)"

definition fail :: "boot_error \<Rightarrow> 'a boot_step" where
  "fail e s = (Inl e, s)"

definition on_files :: "('e \<Rightarrow> boot_error) \<Rightarrow> (fsys \<Rightarrow> ('e + 'a) \<times> fsys) \<Rightarrow> 'a boot_step" where
  "on_files err f s = (case f (bt_fs s) of
      (Inl e, fs) \<Rightarrow> (Inl (err e), s\<lparr>bt_fs := fs\<rparr>)
    | (Inr a, fs) \<Rightarrow> (Inr a, s\<lparr>bt_fs := fs\<rparr>))"

definition spawn_process :: "boot_world \<Rightarrow> process \<Rightarrow> boot \<Rightarrow> string option \<times> boot" where
  "spawn_process w p s = (bw_answer w (bt_log s) p, s\<lparr>bt_log := bt_log s @ [p]\<rparr>)"

section \<open>The runner (ssh.rs)\<close>

record ssh_runner =
  rn_user :: "string option"
  rn_host :: string
  rn_port :: u16

definition userhost :: "ssh_runner \<Rightarrow> string" where
  "userhost r = (case rn_user r of Some u \<Rightarrow> u @ ''@'' @ rn_host r | None \<Rightarrow> rn_host r)"

definition run_process :: "ssh_runner \<Rightarrow> string \<Rightarrow> process" where
  "run_process r cmd =
     Ssh [''-p'', show_u16 (rn_port r), ''-o'', ''BatchMode=yes'', userhost r, cmd]"

definition run_cmd :: "boot_world \<Rightarrow> ssh_runner \<Rightarrow> string \<Rightarrow> string boot_step" where
  "run_cmd w r cmd s = (case spawn_process w (run_process r cmd) s of
      (None, s1) \<Rightarrow> (Inl (BootSsh cmd), s1)
    | (Some out, s1) \<Rightarrow> (Inr (trim out), s1))"

abbreviation QUOTE :: char where "QUOTE \<equiv> CHR 0x27"

definition shell_single_quote :: "string \<Rightarrow> string" where
  "shell_single_quote input =
     [QUOTE] @ concat (map (\<lambda>c. if c = QUOTE then [QUOTE, CHR 0x5C, QUOTE, QUOTE] else [c]) input) @ [QUOTE]"

definition sudo_process :: "ssh_runner \<Rightarrow> string \<Rightarrow> process" where
  "sudo_process r cmd =
     Ssh [''-p'', show_u16 (rn_port r), ''-t'', userhost r, ''sudo sh -c '' @ shell_single_quote cmd]"

definition sudo :: "boot_world \<Rightarrow> ssh_runner \<Rightarrow> string \<Rightarrow> unit boot_step" where
  "sudo w r cmd s = (case spawn_process w (sudo_process r cmd) s of
      (None, s1) \<Rightarrow> (Inl (BootSudo cmd), s1)
    | (Some out, s1) \<Rightarrow> (Inr (), s1))"

definition upload_process :: "ssh_runner \<Rightarrow> string \<Rightarrow> byte list \<Rightarrow> string \<Rightarrow> process" where
  "upload_process r local contents remote_path =
     Scp [''-P'', show_u16 (rn_port r), local, userhost r @ '':'' @ remote_path] contents"

definition upload :: "boot_world \<Rightarrow> ssh_runner \<Rightarrow> string \<Rightarrow> byte list \<Rightarrow> string \<Rightarrow> unit boot_step" where
  "upload w r local contents remote_path s =
     (case spawn_process w (upload_process r local contents remote_path) s of
        (None, s1) \<Rightarrow> (Inl (BootScp (userhost r @ '':'' @ remote_path)), s1)
      | (Some out, s1) \<Rightarrow> (Inr (), s1))"

definition write_remote_file :: "boot_world \<Rightarrow> ssh_runner \<Rightarrow> string \<Rightarrow> string \<Rightarrow> unit boot_step" where
  "write_remote_file w r remote_path content s = (case bw_temp w (bt_log s) of
      Inl e \<Rightarrow> (Inl (BootTemp e), s)
    | Inr name \<Rightarrow> upload w r name (str_bytes content) remote_path s)"

definition REMOTE_TEMP_KEY :: string where
  "REMOTE_TEMP_KEY = ''/tmp/sqsh-authorized-key''"

definition home_file :: "string \<Rightarrow> string" where
  "home_file name = [CHR 0x22] @ ''$HOME/.squish'' @ name @ [CHR 0x22]"

definition authorized_key_install_command :: "string \<Rightarrow> string" where
  "authorized_key_install_command remote_temp_key =
     (let keys = home_file ''/authorized_keys'' in
      ''sh -c '' @ [QUOTE] @ ''mkdir -p '' @ home_file [] @ '' && chmod 700 '' @ home_file [] @ '' && ''
      @ ''touch '' @ keys @ '' && chmod 600 '' @ keys @ '' && ''
      @ ''{ grep -qxF -f '' @ remote_temp_key @ '' '' @ keys @ '' || ''
      @ ''cat '' @ remote_temp_key @ '' >> '' @ keys @ ''; } && ''
      @ ''rm -f '' @ remote_temp_key @ [QUOTE])"

text \<open>
  What that command does to the file of authorized keys: \<^verbatim>\<open>grep -x -F -f\<close> looks for one of the lines of the
  uploaded file among the lines of the old one, and without a match \<^verbatim>\<open>cat\<close> adds the uploaded bytes at
  the end.
\<close>

definition newline_lines :: "string \<Rightarrow> string list" where
  "newline_lines s = (let ps = split_all NL s in if last ps = [] then butlast ps else ps)"

definition authorized_keys_after :: "string \<Rightarrow> string \<Rightarrow> string" where
  "authorized_keys_after key_file old =
     (if list_ex (\<lambda>l. l \<in> set (newline_lines key_file)) (newline_lines old) then old else old @ key_file)"

definition install_authorized_key :: "boot_world \<Rightarrow> ssh_runner \<Rightarrow> string \<Rightarrow> unit boot_step" where
  "install_authorized_key w r authorized_key_line =
     and_then (write_remote_file w r REMOTE_TEMP_KEY (authorized_key_line @ [NL])) (\<lambda>_.
     and_then (run_cmd w r (authorized_key_install_command REMOTE_TEMP_KEY)) (\<lambda>_. give ()))"

section \<open>What is there (detect.rs)\<close>

definition detect_os :: "boot_world \<Rightarrow> ssh_runner \<Rightarrow> os_kind boot_step" where
  "detect_os w r = and_then (run_cmd w r ''uname -s'') (\<lambda>uname.
     if uname = ''Linux'' then give Linux
     else if uname = ''Darwin'' then give MacOs
     else fail (UnsupportedOs uname))"

definition is_sqshd_installed :: "boot_world \<Rightarrow> ssh_runner \<Rightarrow> bool boot_step" where
  "is_sqshd_installed w r s =
     (case run_cmd w r ''command -v sqshd || test -f /usr/local/bin/sqshd && echo yes || echo no'' s of
        (Inr out, s1) \<Rightarrow> (Inr (contains_str ''yes'' out \<or> ends_with ''sqshd'' out), s1)
      | (Inl e, s1) \<Rightarrow> (Inr False, s1))"

definition is_sqshd_running :: "boot_world \<Rightarrow> ssh_runner \<Rightarrow> bool boot_step" where
  "is_sqshd_running w r s =
     (case run_cmd w r ''pgrep -x sqshd > /dev/null 2>&1 && echo running || echo stopped'' s of
        (Inr out, s1) \<Rightarrow> (Inr (trim out = ''running''), s1)
      | (Inl e, s1) \<Rightarrow> (Inr False, s1))"

definition remote_arch :: "boot_world \<Rightarrow> ssh_runner \<Rightarrow> string boot_step" where
  "remote_arch w r = run_cmd w r ''uname -m''"

section \<open>The service (service.rs)\<close>

definition SQSHD_INSTALL_PATH :: string where
  "SQSHD_INSTALL_PATH = ''/usr/local/bin/sqshd''"

definition SQSHD_CONFIG_PATH :: string where
  "SQSHD_CONFIG_PATH = ''/etc/sqsh/sqshd.toml''"

definition text_lines :: "string list \<Rightarrow> string" where
  "text_lines ls = concat (map (\<lambda>l. l @ [NL]) ls)"

definition quoted :: "string \<Rightarrow> string" where
  "quoted s = [CHR 0x22] @ s @ [CHR 0x22]"

definition systemd_unit :: string where
  "systemd_unit = text_lines
     [''[Unit]'', ''Description=SQSH daemon'', ''After=network.target'', [],
      ''[Service]'', ''ExecStart='' @ SQSHD_INSTALL_PATH @ '' --config '' @ SQSHD_CONFIG_PATH,
      ''Restart=on-failure'', ''RestartSec=5'', [],
      ''[Install]'', ''WantedBy=multi-user.target'']"

definition launchd_plist :: string where
  "launchd_plist = text_lines
     [''<?xml version='' @ quoted ''1.0'' @ '' encoding='' @ quoted ''UTF-8'' @ ''?>'',
      ''<!DOCTYPE plist PUBLIC '' @ quoted ''-//Apple//DTD PLIST 1.0//EN'',
      ''  '' @ quoted ''http://www.apple.com/DTDs/PropertyList-1.0.dtd'' @ ''>'',
      ''<plist version='' @ quoted ''1.0'' @ ''>'', ''<dict>'',
      ''  <key>Label</key>'', ''  <string>com.sqsh.sqshd</string>'',
      ''  <key>ProgramArguments</key>'', ''  <array>'',
      ''    <string>'' @ SQSHD_INSTALL_PATH @ ''</string>'', ''    <string>--config</string>'',
      ''    <string>'' @ SQSHD_CONFIG_PATH @ ''</string>'', ''  </array>'',
      ''  <key>RunAtLoad</key>'', ''  <true/>'', ''  <key>KeepAlive</key>'', ''  <true/>'',
      ''  <key>StandardErrorPath</key>'', ''  <string>/var/log/sqshd.log</string>'',
      ''  <key>StandardOutPath</key>'', ''  <string>/var/log/sqshd.log</string>'',
      ''</dict>'', ''</plist>'']"

definition install_systemd :: "boot_world \<Rightarrow> ssh_runner \<Rightarrow> unit boot_step" where
  "install_systemd w r =
     and_then (write_remote_file w r ''/tmp/sqshd.service'' systemd_unit) (\<lambda>_.
     and_then (sudo w r ''install -m 644 /tmp/sqshd.service /etc/systemd/system/sqshd.service'') (\<lambda>_.
     and_then (sudo w r ''systemctl daemon-reload'') (\<lambda>_.
     and_then (sudo w r ''systemctl enable --now sqshd'') give)))"

definition install_launchd :: "boot_world \<Rightarrow> ssh_runner \<Rightarrow> unit boot_step" where
  "install_launchd w r =
     and_then (write_remote_file w r ''/tmp/com.sqsh.sqshd.plist'' launchd_plist) (\<lambda>_.
     and_then (sudo w r
       ''install -m 644 /tmp/com.sqsh.sqshd.plist /Library/LaunchDaemons/com.sqsh.sqshd.plist'') (\<lambda>_.
     and_then (sudo w r ''launchctl load -w /Library/LaunchDaemons/com.sqsh.sqshd.plist'') give))"

definition install_and_start :: "boot_world \<Rightarrow> ssh_runner \<Rightarrow> os_kind \<Rightarrow> unit boot_step" where
  "install_and_start w r os = (case os of Linux \<Rightarrow> install_systemd w r | MacOs \<Rightarrow> install_launchd w r)"

definition fetch_fingerprint :: "boot_world \<Rightarrow> ssh_runner \<Rightarrow> string boot_step" where
  "fetch_fingerprint w r =
     run_cmd w r (SQSHD_INSTALL_PATH @ '' --config '' @ SQSHD_CONFIG_PATH @ '' --emit-fingerprint'')"

definition default_config :: string where
  "default_config = text_lines
     [''bind_addr = '' @ quoted ''0.0.0.0'', ''port = 2222'',
      ''host_key = '' @ quoted ''/etc/sqsh/host.key'', ''host_cert = '' @ quoted ''/etc/sqsh/host.cert'']"

section \<open>The whole sequence (mod.rs)\<close>

record bootstrap_config =
  bc_host :: string
  bc_ssh_port :: u16
  bc_sqshd_port :: u16
  bc_ssh_user :: "string option"
  bc_squishd_version :: "string option"
  bc_identity_path :: path
  bc_known_hosts_path :: path

definition build_server_config :: "u16 \<Rightarrow> string" where
  "build_server_config p = text_lines
     [''bind_addr = '' @ quoted ''0.0.0.0'', ''port = '' @ show_u16 p,
      ''host_key = '' @ quoted ''/etc/sqsh/host.key'', ''host_cert = '' @ quoted ''/etc/sqsh/host.cert'']"

definition reload_service :: "boot_world \<Rightarrow> ssh_runner \<Rightarrow> os_kind \<Rightarrow> unit boot_step" where
  "reload_service w r os = (case os of
      Linux \<Rightarrow> sudo w r ''systemctl restart sqshd''
    | MacOs \<Rightarrow> sudo w r (''launchctl unload /Library/LaunchDaemons/com.sqsh.sqshd.plist 2>/dev/null; ''
        @ ''launchctl load -w /Library/LaunchDaemons/com.sqsh.sqshd.plist''))"

text \<open>
  The first installation: the binary is verified, uploaded (scp reads it then), and installed.
\<close>

definition install_release ::
  "('pk, 'sg) release_library \<Rightarrow> boot_world \<Rightarrow> ssh_runner \<Rightarrow> string option \<Rightarrow> string \<Rightarrow> unit boot_step" where
  "install_release lib w r version target =
     and_then (on_files BootRelease (\<lambda>fs.
        (case version of Some v \<Rightarrow> validate_version v | None \<Rightarrow> Inr (), fs))) (\<lambda>_.
     and_then (on_files BootRelease (download_and_verify_sqshd_release lib (bw_env w) (bw_exec w)
        (bw_staging w) version target)) (\<lambda>binary.
     and_then (\<lambda>s. (case read binary (bt_fs s) of
          Inl e \<Rightarrow> (Inl (BootScp (userhost r @ '':/tmp/sqshd'')), s)
        | Inr data \<Rightarrow> upload w r (path_text binary) data ''/tmp/sqshd'' s)) (\<lambda>_.
     sudo w r (''install -m 755 /tmp/sqshd '' @ SQSHD_INSTALL_PATH))))"

text \<open>What is made locally in the run: the fresh seed and the key libraries.\<close>

record key_source =
  ks_fresh :: "byte list"
  ks_key_gen :: "byte list \<Rightarrow> byte list"
  ks_encode :: "byte list \<Rightarrow> string"

definition run_bootstrap ::
  "('pk, 'sg) release_library \<Rightarrow> key_source \<Rightarrow> iteration_order \<Rightarrow> boot_world \<Rightarrow> bootstrap_config
    \<Rightarrow> (string \<times> string) boot_step" where
  "run_bootstrap lib ks order w cfg =
     (let r = \<lparr>rn_user = bc_ssh_user cfg, rn_host = bc_host cfg, rn_port = bc_ssh_port cfg\<rparr> in
      and_then (detect_os w r) (\<lambda>os.
      and_then (remote_arch w r) (\<lambda>arch.
      and_then (on_files BootRelease (\<lambda>fs. (release_target os arch, fs))) (\<lambda>target.
      and_then (is_sqshd_installed w r) (\<lambda>installed.
      and_then (if installed then give ()
         else install_release lib w r (bc_squishd_version cfg) target) (\<lambda>_.
      and_then (sudo w r ''mkdir -p /etc/sqsh && chmod 700 /etc/sqsh'') (\<lambda>_.
      and_then (write_remote_file w r ''/tmp/sqshd.toml'' (build_server_config (bc_sqshd_port cfg))) (\<lambda>_.
      and_then (sudo w r (''install -m 644 /tmp/sqshd.toml '' @ SQSHD_CONFIG_PATH)) (\<lambda>_.
      and_then (on_files BootKey
         (ensure_client_keypair (ks_fresh ks) (ks_key_gen ks) (bc_identity_path cfg))) (\<lambda>pubkey.
      and_then (install_authorized_key w r (format_authorized_key (ks_encode ks) pubkey [])) (\<lambda>_.
      and_then (is_sqshd_running w r) (\<lambda>already_running.
      and_then (if already_running then reload_service w r os else install_and_start w r os) (\<lambda>_.
      and_then (fetch_fingerprint w r) (\<lambda>out.
        let fingerprint = trim out; host_port = bc_host cfg @ '':'' @ show_u16 (bc_sqshd_port cfg) in
      and_then (on_files (\<lambda>e. BootKnownHosts (KhFile e))
         (\<lambda>fs. (load (bc_known_hosts_path cfg) fs, fs))) (\<lambda>kh.
      and_then (on_files BootKnownHosts (\<lambda>fs. case pin_host order host_port fingerprint (kh, fs) of
          (res, kh1, fs1) \<Rightarrow> (res, fs1))) (\<lambda>_.
      give (host_port, fingerprint)))))))))))))))))"

section \<open>The command (sqsh-bootstrap.rs)\<close>

record bootstrap_cli =
  bl_target :: string
  bl_ssh_port :: u16
  bl_sqshd_port :: u16
  bl_user :: "string option"
  bl_squishd_version :: "string option"
  bl_identity :: "path option"

definition build_config :: "bootstrap_cli \<Rightarrow> string option \<Rightarrow> bootstrap_config" where
  "build_config cli home =
     (let (ssh_user, host) = (case split_once CHR ''@'' (bl_target cli) of
            Some (u, h) \<Rightarrow> (Some u, h)
          | None \<Rightarrow> (bl_user cli, bl_target cli));
          config_dir = path_join (path_join
            (path_of_string (case home of Some h \<Rightarrow> h | None \<Rightarrow> ''/tmp'')) ''.config'') ''sqsh''
      in \<lparr>bc_host = host, bc_ssh_port = bl_ssh_port cli, bc_sqshd_port = bl_sqshd_port cli,
          bc_ssh_user = (if ssh_user \<noteq> None then ssh_user else bl_user cli),
          bc_squishd_version = bl_squishd_version cli,
          bc_identity_path = (case bl_identity cli of Some p \<Rightarrow> p | None \<Rightarrow> path_join config_dir ''id_ml_dsa_65''),
          bc_known_hosts_path = path_join config_dir ''known_hosts''\<rparr>)"

section \<open>Installing a refused key (connection.rs)\<close>

definition install_key_via_ssh ::
  "client_library \<Rightarrow> (byte list \<Rightarrow> string) \<Rightarrow> boot_world \<Rightarrow> client_config \<Rightarrow> unit boot_step" where
  "install_key_via_ssh lib encode w cc =
     and_then (on_files BootKey (\<lambda>fs. (res_bind (load_signing_key (cc_identity_path cc) fs)
        (\<lambda>key_bytes. if length key_bytes = 32 then Inr key_bytes else Inl Not_a_seed), fs))) (\<lambda>seed.
     install_authorized_key w
       \<lparr>rn_user = Some (cc_username cc), rn_host = cc_host cc, rn_port = cc_ssh_port cc\<rparr>
       (format_authorized_key encode (cl_public_key lib seed) []))"

section \<open>How a POSIX shell reads words\<close>

text \<open>
  The reader of the specification: single quotes keep everything, a backslash keeps the next character,
  blanks separate words. Other special characters outside quotes are refused.
\<close>

definition sh_special :: "char \<Rightarrow> bool" where
  "sh_special c \<longleftrightarrow> c \<in> set ''|&;<>()$`*?[#~=%!{}'' \<or> c = NL \<or> c = CHR 0x22 \<or> c = CHR 0x09"

definition grow :: "string option \<Rightarrow> char \<Rightarrow> string option" where
  "grow cur c = Some ((case cur of None \<Rightarrow> [] | Some u \<Rightarrow> u) @ [c])"

definition closed :: "string option \<Rightarrow> string list" where
  "closed cur = (case cur of None \<Rightarrow> [] | Some u \<Rightarrow> [u])"

fun sh_words :: "bool \<Rightarrow> string option \<Rightarrow> string \<Rightarrow> string list option" where
  "sh_words q cur [] = (if q then None else Some (closed cur))"
| "sh_words True cur (c # s) =
     (if c = QUOTE then sh_words False cur s else sh_words True (grow cur c) s)"
| "sh_words False cur (c # s) =
     (if c = QUOTE then sh_words True (Some (case cur of None \<Rightarrow> [] | Some u \<Rightarrow> u)) s
      else if c = CHR 0x5C then (case s of [] \<Rightarrow> None | d # t \<Rightarrow> sh_words False (grow cur d) t)
      else if c = CHR '' '' then map_option (\<lambda>ws. closed cur @ ws) (sh_words False None s)
      else if sh_special c then None
      else sh_words False (grow cur c) s)"

lemma sh_words_quoted:
  "sh_words True (Some u) (concat (map (\<lambda>c. if c = QUOTE then [QUOTE, CHR 0x5C, QUOTE, QUOTE] else [c]) s)
     @ QUOTE # rest) = sh_words False (Some (u @ s)) rest"
  by (induction s arbitrary: u) (simp_all add: grow_def)

lemma sh_words_single_quote:
  "sh_words False None (shell_single_quote s) = Some [s]"
  by (simp add: shell_single_quote_def sh_words_quoted closed_def)

lemma shell_single_quote_inject [simp]: "shell_single_quote a = shell_single_quote b \<longleftrightarrow> a = b"
  by (metis list.inject option.inject sh_words_single_quote)

text \<open>
  What is run as root is the command that was meant. The shell at the other end reads the line it is
  given as four words, the last of which is the command as it was written, whatever quotes it holds.
\<close>

lemma sudo_words:
  "sh_words False None (''sudo sh -c '' @ shell_single_quote cmd) = Some [''sudo'', ''sh'', ''-c'', cmd]"
  using sh_words_quoted [of "[]" cmd "[]"]
  by (simp add: shell_single_quote_def sh_special_def grow_def closed_def)

section \<open>What a run leaves in the log\<close>

text \<open>
  The interface of a property of the processes that are run: it holds of none, and of two parts one
  after the other. Every step then has it if its own processes have.
\<close>

definition runs :: "(process list \<Rightarrow> bool) \<Rightarrow> 'a boot_step \<Rightarrow> bool" where
  "runs ok m \<longleftrightarrow> (\<forall>s res s'. m s = (res, s') \<longrightarrow> (\<exists>new. bt_log s' = bt_log s @ new \<and> ok new))"

lemma runsI:
  "(\<And>s res s'. m s = (res, s') \<Longrightarrow> \<exists>new. bt_log s' = bt_log s @ new \<and> ok new) \<Longrightarrow> runs ok m"
  by (simp add: runs_def)

lemma runsD: "runs ok m \<Longrightarrow> m s = (res, s') \<Longrightarrow> \<exists>new. bt_log s' = bt_log s @ new \<and> ok new"
  by (simp add: runs_def)

locale log_property =
  fixes ok :: "process list \<Rightarrow> bool"
  assumes ok_Nil: "ok []"
    and ok_append: "ok xs \<Longrightarrow> ok ys \<Longrightarrow> ok (xs @ ys)"
begin

lemma runs_and_then: "runs ok m \<Longrightarrow> (\<And>a. runs ok (f a)) \<Longrightarrow> runs ok (and_then m f)"
proof (rule runsI)
  fix s res s'
  assume m: "runs ok m" and f: "\<And>a. runs ok (f a)" and r: "and_then m f s = (res, s')"
  obtain r1 s1 where 1: "m s = (r1, s1)" by fastforce
  from runsD [OF m 1] obtain new where new: "bt_log s1 = bt_log s @ new" "ok new" by blast
  show "\<exists>new. bt_log s' = bt_log s @ new \<and> ok new"
  proof (cases r1)
    case (Inl e)
    with r 1 new show ?thesis by (auto simp: and_then_def)
  next
    case (Inr a)
    with r 1 have "f a s1 = (res, s')" by (simp add: and_then_def)
    from runsD [OF f this] new ok_append show ?thesis by fastforce
  qed
qed

lemma runs_quiet:
  "runs ok (give a)" "runs ok (fail e)" "runs ok (on_files err g)"
  using ok_Nil by (auto simp: runs_def give_def fail_def on_files_def split: prod.splits sum.splits)

lemma runs_processes:
  "ok [run_process r cmd] \<Longrightarrow> runs ok (run_cmd w r cmd)"
  "ok [sudo_process r cmd] \<Longrightarrow> runs ok (sudo w r cmd)"
  "ok [upload_process r local bs dest] \<Longrightarrow> runs ok (upload w r local bs dest)"
  by (auto simp: runs_def run_cmd_def sudo_def upload_def spawn_process_def split: option.splits)

lemma runs_write_remote_file:
  "(\<And>local. ok [upload_process r local (str_bytes content) dest]) \<Longrightarrow>
     runs ok (write_remote_file w r dest content)"
  using ok_Nil
  by (auto simp: runs_def write_remote_file_def upload_def spawn_process_def split: sum.splits option.splits)

lemma runs_detect:
  "ok [run_process r ''uname -s''] \<Longrightarrow> runs ok (detect_os w r)"
  "ok [run_process r ''uname -m''] \<Longrightarrow> runs ok (remote_arch w r)"
  "ok [run_process r ''command -v sqshd || test -f /usr/local/bin/sqshd && echo yes || echo no''] \<Longrightarrow>
     runs ok (is_sqshd_installed w r)"
  "ok [run_process r ''pgrep -x sqshd > /dev/null 2>&1 && echo running || echo stopped''] \<Longrightarrow>
     runs ok (is_sqshd_running w r)"
  unfolding detect_os_def remote_arch_def
  by (auto intro!: runs_and_then runs_processes simp: runs_quiet)
    (auto simp: runs_def is_sqshd_installed_def is_sqshd_running_def run_cmd_def spawn_process_def
      split: option.splits)

lemmas runs_intros = runs_and_then runs_processes runs_write_remote_file runs_detect

end

text \<open>Every process that installs the binary comes right after the upload of bytes that are good.\<close>

definition install_process :: "ssh_runner \<Rightarrow> process" where
  "install_process r = sudo_process r (''install -m 755 /tmp/sqshd '' @ SQSHD_INSTALL_PATH)"

definition installs_only :: "ssh_runner \<Rightarrow> (byte list \<Rightarrow> bool) \<Rightarrow> process list \<Rightarrow> bool" where
  "installs_only r good ps \<longleftrightarrow> (\<forall>i < length ps. ps ! i = install_process r \<longrightarrow>
     (\<exists>j local data. i = Suc j \<and> ps ! j = upload_process r local data ''/tmp/sqshd'' \<and> good data))"

interpretation installing: log_property "installs_only r good" for r good
proof unfold_locales
  fix xs ys
  assume x: "installs_only r good xs" and y: "installs_only r good ys"
  show "installs_only r good (xs @ ys)" unfolding installs_only_def
  proof (intro allI impI)
    fix i assume i: "i < length (xs @ ys)" "(xs @ ys) ! i = install_process r"
    show "\<exists>j local data. i = Suc j \<and> (xs @ ys) ! j = upload_process r local data ''/tmp/sqshd'' \<and> good data"
    proof (cases "i < length xs")
      case True
      with i x show ?thesis unfolding installs_only_def by (fastforce simp: nth_append)
    next
      case False
      with i have "i - length xs < length ys" "ys ! (i - length xs) = install_process r"
        by (simp_all add: nth_append)
      with y obtain j local data where "i - length xs = Suc j" "good data"
          "ys ! j = upload_process r local data ''/tmp/sqshd''"
        unfolding installs_only_def by blast
      then show ?thesis by (intro exI [of _ "length xs + j"]) (auto simp: nth_append)
    qed
  qed
qed (simp add: installs_only_def)

lemma installs_only_other:
  "p \<noteq> install_process r \<Longrightarrow> installs_only r good [p]"
  by (simp add: installs_only_def)

lemma other_processes:
  "run_process r cmd \<noteq> install_process r" "upload_process r local bs dest \<noteq> install_process r"
  "sudo_process r cmd = install_process r \<longleftrightarrow> cmd = ''install -m 755 /tmp/sqshd '' @ SQSHD_INSTALL_PATH"
  by (simp_all add: run_process_def upload_process_def install_process_def sudo_process_def)

definition verified_binary ::
  "('pk, 'sg) release_library \<Rightarrow> boot_world \<Rightarrow> string option \<Rightarrow> byte list \<Rightarrow> bool" where
  "verified_binary lib w version data \<longleftrightarrow> (\<exists>target fs binary fs'.
     download_and_verify_sqshd_release lib (bw_env w) (bw_exec w) (bw_staging w) version target fs
       = (Inr binary, fs')
     \<and> read binary fs' = Inr data)"

lemma runs_install_release:
  "runs (installs_only r (verified_binary lib w version)) (install_release lib w r version target)"
proof (rule runsI)
  fix s res s'
  assume i: "install_release lib w r version target s = (res, s')"
  obtain d fs1 where d: "download_and_verify_sqshd_release lib (bw_env w) (bw_exec w) (bw_staging w)
      version target (bt_fs s) = (d, fs1)" by fastforce
  consider "bt_log s' = bt_log s"
    | local data where "bt_log s' = bt_log s @ [upload_process r local data ''/tmp/sqshd'']"
    | local data where "bt_log s' = bt_log s @ [upload_process r local data ''/tmp/sqshd'', install_process r]"
        "verified_binary lib w version data"
    using i d
    by (fastforce simp: install_release_def and_then_def on_files_def upload_def sudo_def spawn_process_def
        install_process_def verified_binary_def split: option.splits sum.splits prod.splits)
  then show "\<exists>new. bt_log s' = bt_log s @ new \<and> installs_only r (verified_binary lib w version) new"
  proof cases
    case 3
    then show ?thesis by (auto simp: installs_only_def less_Suc_eq nth_Cons' other_processes)
  qed (auto simp: installs_only_def other_processes)
qed

lemma runs_service:
  "runs (installs_only r good) (install_and_start w r os)"
  "runs (installs_only r good) (reload_service w r os)"
  "runs (installs_only r good) (fetch_fingerprint w r)"
  "runs (installs_only r good) (install_authorized_key w r line)"
  unfolding install_and_start_def install_systemd_def install_launchd_def reload_service_def
    fetch_fingerprint_def install_authorized_key_def
  by (cases os; auto intro!: installing.runs_intros installing.runs_quiet installs_only_other
      simp: other_processes SQSHD_INSTALL_PATH_def)+


section \<open>The pin\<close>

lemma and_then_InrE:
  assumes "and_then m f s = (Inr b, s')"
  obtains a s1 where "m s = (Inr a, s1)" "f a s1 = (Inr b, s')"
  using assms by (auto simp: and_then_def split: prod.splits sum.splits)

lemma on_files_InrD:
  "on_files err f s = (Inr a, s') \<Longrightarrow> f (bt_fs s) = (Inr a, bt_fs s')"
  by (auto simp: on_files_def split: prod.splits sum.splits)

lemma kh_save_setting: "kh_save order kh fs = (Inr (), fs') \<Longrightarrow> same_setting fs fs'"
  by (elim kh_save_InrD) (blast intro: same_setting_trans write_owner_only_setting)

lemma wf_entries_update:
  assumes "wf_entries es" "plain h" "h \<noteq> []" "hd h \<noteq> CHR ''#''" "plain f" "f \<noteq> []"
  shows "wf_entries (AList.update h f es)"
proof -
  have "set (AList.update h f es) \<subseteq> insert (h, f) (set es)" by (induction es) auto
  with assms show ?thesis by (auto simp: wf_entries_def distinct_update)
qed

text \<open>A host that was pinned and saved is in the store from then on.\<close>

lemma pinned_after:
  assumes "pin_host order h f (kh, fs) = (Inr (), kh1, fs')" "wf_entries (entries kh)" "a_permutation order"
    and "plain h" "h \<noteq> []" "hd h \<noteq> CHR ''#''" "plain f" "f \<noteq> []"
    and "fs_check Stat (kh_path kh) fs' = None" "fs_check ReadFile (kh_path kh) fs' = None"
  shows "\<exists>kh2. load (kh_path kh) fs' = Inr kh2 \<and> map_of (entries kh2) h = Some f"
proof -
  let ?kh = "kh\<lparr>entries := AList.update h f (entries kh)\<rparr>"
  have s: "kh_save order ?kh fs = (Inr (), fs')"
    using assms(1) by (auto simp: pin_host_def Let_def split: prod.splits sum.splits)
  have "wf_entries (entries ?kh)" using wf_entries_update [OF assms(2,4-8)] by simp
  moreover have "fs_check Stat (kh_path ?kh) fs = None" "fs_check ReadFile (kh_path ?kh) fs = None"
    using assms(9,10) same_settingD(5) [OF kh_save_setting [OF s]] by simp_all
  ultimately show ?thesis
    using load_saved [OF s _ assms(3)] by (auto simp: update_conv')
qed

lemma load_path: "load p fs = Inr kh \<Longrightarrow> kh_path kh = p"
  by (auto simp: load_def res_bind_def split: if_splits sum.splits)

lemma run_bootstrap_pins:
  assumes "run_bootstrap lib ks order w cfg s = (Inr (srv, fp), s')"
  obtains fs1 kh1 kh2 where "load (bc_known_hosts_path cfg) fs1 = Inr kh1"
    "pin_host order (bc_host cfg @ '':'' @ show_u16 (bc_sqshd_port cfg)) fp (kh1, fs1) = (Inr (), kh2, bt_fs s')"
    "srv = bc_host cfg @ '':'' @ show_u16 (bc_sqshd_port cfg)"
proof -
  let ?hp = "bc_host cfg @ '':'' @ show_u16 (bc_sqshd_port cfg)"
  obtain out kh u s1 s2 s3 where
      1: "on_files (\<lambda>e. BootKnownHosts (KhFile e)) (\<lambda>fs. (load (bc_known_hosts_path cfg) fs, fs)) s1 = (Inr kh, s2)"
    and 2: "on_files BootKnownHosts (\<lambda>fs. case pin_host order ?hp (trim out) (kh, fs) of
        (res, kh1, fs1) \<Rightarrow> (res, fs1)) s2 = (Inr u, s3)"
    and 3: "give (?hp, trim out) s3 = (Inr (srv, fp), s')"
    using assms unfolding run_bootstrap_def Let_def by (elim and_then_InrE) blast
  from 3 have "s' = s3" "srv = ?hp" "fp = trim out" by (auto simp: give_def)
  with on_files_InrD [OF 1] on_files_InrD [OF 2] that show thesis by (auto split: prod.splits)
qed


section \<open>The file of authorized keys\<close>

definition terminated :: "string \<Rightarrow> bool" where
  "terminated s \<longleftrightarrow> s = [] \<or> last s = NL"

lemma newline_lines_Cons: "NL \<notin> set l \<Longrightarrow> newline_lines (l @ NL # r) = l # newline_lines r"
  by (simp add: newline_lines_def split_all_append Let_def)

lemma terminated_lines:
  "terminated s \<Longrightarrow> lines s = map strip_cr (newline_lines s) \<and> lines (s @ t) = lines s @ lines t
     \<and> newline_lines (s @ t) = newline_lines s @ newline_lines t"
proof (induction s rule: length_induct)
  case (1 s)
  show ?case
  proof (cases "s = []")
    case False
    with 1(2) have "NL \<in> set s" by (metis last_in_set terminated_def)
    then obtain l r where s: "s = l @ NL # r" "NL \<notin> set l" by (metis split_list_first)
    with 1(2) have "terminated r" by (auto simp: terminated_def split: if_splits)
    with 1(1) s show ?thesis by (simp add: lines_append newline_lines_Cons)
  qed (simp add: newline_lines_def)
qed

lemma newline_lines_one: "NL \<notin> set l \<Longrightarrow> newline_lines (l @ [NL]) = [l]"
  using newline_lines_Cons [of l "[]"] by (simp add: newline_lines_def)

lemma key_after_install:
  assumes "base64_laws encode decode" "k \<noteq> []" "terminated old"
  shows "let new = authorized_keys_after (format_authorized_key encode k [] @ [NL]) old;
      had = parse_authorized_keys decode old
    in k \<in> set (parse_authorized_keys decode new)
      \<and> (parse_authorized_keys decode new = had \<or> parse_authorized_keys decode new = had @ [k])
      \<and> terminated new
      \<and> authorized_keys_after (format_authorized_key encode k [] @ [NL]) new = new"
proof -
  let ?line = "format_authorized_key encode k []"
  have nl: "NL \<notin> set ?line" using base64_lawsD(2) [OF assms(1)] by (intro key_line_no_NL) simp_all
  have strip: "strip_cr ?line = ?line"
    using base64_lawsD(2) [OF assms(1)] by (simp add: format_key_line strip_cr_key_line)
  have one: "newline_lines (?line @ [NL]) = [?line]" using nl by (rule newline_lines_one)
  have parse: "parse_authorized_keys decode (?line @ [NL]) = [k]"
    using parse_authorized_keys_line [OF assms(1,2), of "[]" "[]"] by (simp add: parse_authorized_keys_def map_filter_simps)
  have add: "parse_authorized_keys decode (old @ ?line @ [NL]) = parse_authorized_keys decode old @ [k]"
    using terminated_lines [OF assms(3), of "?line @ [NL]"] parse
    by (simp add: parse_authorized_keys_def List.map_filter_def)
  show ?thesis
  proof (cases "?line \<in> set (newline_lines old)")
    case True
    then have "?line \<in> set (lines old)" using terminated_lines [OF assms(3)] strip by force
    then have "k \<in> set (parse_authorized_keys decode old)"
      using parse_key_line [OF assms(1,2), of None] kept_key_line [of encode k None]
      by (force simp: parse_authorized_keys_def List.map_filter_def format_key_line)
    with True assms(3) show ?thesis by (auto simp: authorized_keys_after_def one list_ex_iff)
  next
    case False
    then have new: "authorized_keys_after (?line @ [NL]) old = old @ ?line @ [NL]"
      by (auto simp: authorized_keys_after_def one list_ex_iff)
    have t: "terminated (old @ ?line @ [NL])" by (simp add: terminated_def)
    have "?line \<in> set (newline_lines (old @ ?line @ [NL]))"
      using terminated_lines [OF assms(3), of "?line @ [NL]"] one by simp
    then have "authorized_keys_after (?line @ [NL]) (old @ ?line @ [NL]) = old @ ?line @ [NL]"
      by (auto simp: authorized_keys_after_def one list_ex_iff)
    with new add t show ?thesis by simp
  qed
qed

text \<open>
  The installed key authorizes. When the file of keys ends in a newline (or is new), it then has the
  client's key among those it had, all of which it keeps; a key that is there already is not added again.
\<close>

lemma installed_key_authorizes:
  assumes "base64_laws encode decode" "k \<noteq> []" "terminated old"
  shows "let new = authorized_keys_after (format_authorized_key encode k [] @ [NL]) old;
      had = parse_authorized_keys decode old
    in k \<in> set (parse_authorized_keys decode new)
      \<and> (parse_authorized_keys decode new = had \<or> parse_authorized_keys decode new = had @ [k])
      \<and> terminated new
      \<and> authorized_keys_after (format_authorized_key encode k [] @ [NL]) new = new"
  using assms by (rule key_after_install)

text \<open>
  A file of keys that does not end in a newline. Then the new key continues its last line: it is not
  authorized, and a last key without a comment is lost as well.
\<close>

lemma key_after_unterminated_line:
  assumes "base64_laws encode decode" "decode (encode j @ KEY_TYPE) = None" "terminated old"
    and "format_authorized_key encode k [] \<notin> set (newline_lines (old @ format_authorized_key encode j []))"
  shows "parse_authorized_keys decode (authorized_keys_after (format_authorized_key encode k [] @ [NL])
      (old @ format_authorized_key encode j [])) = parse_authorized_keys decode old"
proof -
  let ?j = "format_authorized_key encode j []" and ?k = "format_authorized_key encode k []"
  have enc: "plain (encode j)" "plain (encode k)" using base64_lawsD(2) [OF assms(1)] by simp_all
  have nl: "NL \<notin> set (?j @ ?k)" using key_line_no_NL [of encode j "[]"] key_line_no_NL [of encode k "[]"] enc by simp
  have "NL \<notin> set ?k" using nl by simp
  then have new: "authorized_keys_after (?k @ [NL]) (old @ ?j) = old @ (?j @ ?k) @ [NL]"
    using assms(4) by (auto simp: authorized_keys_after_def newline_lines_one list_ex_iff)
  have jk: "?j @ ?k = KEY_TYPE @ CHR '' '' # (encode j @ KEY_TYPE) @ CHR '' '' # encode k"
    by (simp add: format_key_line key_line_def)
  have "lines ((?j @ ?k) @ [NL]) = [strip_cr (?j @ ?k)]"
    using lines_append [OF nl, of "[]"] by simp
  moreover have "strip_cr (?j @ ?k) = ?j @ ?k"
    using strip_cr_append_Cons [of "CHR '' ''" "KEY_TYPE @ CHR '' '' # encode j @ KEY_TYPE" "encode k"]
      strip_cr_plain [OF enc(2)] by (simp add: jk)
  moreover have "parse_authorized_key_line decode (?j @ ?k) = None"
    using enc assms(2) split_whitespace_plain(3) [of KEY_TYPE "(encode j @ KEY_TYPE) @ CHR '' '' # encode k"]
      split_whitespace_plain(3) [of "encode j @ KEY_TYPE" "encode k"]
    by (simp add: jk parse_authorized_key_line_def)
  ultimately show ?thesis
    unfolding new parse_authorized_keys_def using terminated_lines [OF assms(3), of "(?j @ ?k) @ [NL]"]
    by (simp add: List.map_filter_def)
qed

section \<open>Witnesses\<close>

lemma installed_key_authorizes_instance:
  "[7] \<in> set (parse_authorized_keys demo_decode
     (authorized_keys_after (format_authorized_key demo_encode [7] [] @ [NL]) (''# mine'' @ [NL])))"
  using installed_key_authorizes [OF demo_base64_laws, of "[7]" "''# mine'' @ [NL]"]
  by (simp add: terminated_def Let_def)

lemma key_after_unterminated_line_instance:
  "parse_authorized_keys demo_decode (authorized_keys_after (format_authorized_key demo_encode [7] [] @ [NL])
     (format_authorized_key demo_encode [8] [])) = []"
proof -
  have d: "demo_decode (demo_encode [8] @ KEY_TYPE) = None" by code_simp
  have "format_authorized_key demo_encode [7] [] \<notin>
      set (newline_lines ([] @ format_authorized_key demo_encode [8] []))"
    by (simp add: format_authorized_key_def newline_lines_def KEY_TYPE_def demo_encode_def)
  from key_after_unterminated_line [OF demo_base64_laws d _ this] show ?thesis
    by (simp add: terminated_def parse_authorized_keys_def map_filter_simps)
qed

text \<open>A Mac that has no server yet.\<close>

definition demo_answer :: "process list \<Rightarrow> process \<Rightarrow> string option" where
  "demo_answer log p = (case p of
      Scp ws bs \<Rightarrow> Some []
    | Ssh ws \<Rightarrow>
        if last ws = ''uname -s'' then Some ''Darwin''
        else if last ws = ''uname -m'' then Some ''x86_64''
        else if starts_with SQSHD_INSTALL_PATH (last ws) then Some ''a1b2''
        else Some [])"

definition demo_boot_world :: boot_world where
  "demo_boot_world = \<lparr>bw_answer = demo_answer, bw_temp = (\<lambda>_. Inr ''t''), bw_exec = demo_exec,
     bw_staging = Inr (Path True [''home'']), bw_env = [''PATH'' \<mapsto> ''/bin'']\<rparr>"

definition demo_boot_config :: bootstrap_config where
  "demo_boot_config = \<lparr>bc_host = ''box'', bc_ssh_port = 22, bc_sqshd_port = 2222, bc_ssh_user = None,
     bc_squishd_version = None, bc_identity_path = demo_identity,
     bc_known_hosts_path = Path True [''home'', ''.config'', ''kh'']\<rparr>"

definition demo_keys :: key_source where
  "demo_keys = \<lparr>ks_fresh = replicate 32 7, ks_key_gen = rev, ks_encode = demo_encode\<rparr>"

definition demo_runner :: ssh_runner where
  "demo_runner = \<lparr>rn_user = None, rn_host = ''box'', rn_port = 22\<rparr>"

lemma demo_cmd:
  "run_cmd demo_boot_world r cmd s = (Inr (if cmd = ''uname -s'' then ''Darwin''
      else if cmd = ''uname -m'' then ''x86_64''
      else if starts_with SQSHD_INSTALL_PATH cmd then ''a1b2'' else []),
    s\<lparr>bt_log := bt_log s @ [run_process r cmd]\<rparr>)"
  by (simp add: run_cmd_def spawn_process_def demo_boot_world_def demo_answer_def run_process_def
      plain_char_def code_def)

lemma demo_sudo:
  "sudo demo_boot_world r cmd s = (Inr (), s\<lparr>bt_log := bt_log s @ [sudo_process r cmd]\<rparr>)"
  by (simp add: sudo_def spawn_process_def demo_boot_world_def demo_answer_def sudo_process_def
      starts_with_def SQSHD_INSTALL_PATH_def)

lemma demo_upload:
  "upload demo_boot_world r local bs dest s = (Inr (), s\<lparr>bt_log := bt_log s @ [upload_process r local bs dest]\<rparr>)"
  "write_remote_file demo_boot_world r dest content s
     = (Inr (), s\<lparr>bt_log := bt_log s @ [upload_process r ''t'' (str_bytes content) dest]\<rparr>)"
  by (simp_all add: write_remote_file_def upload_def spawn_process_def demo_boot_world_def demo_answer_def
      upload_process_def)

lemma demo_boot_world_simps [simp]:
  "bw_env demo_boot_world = [''PATH'' \<mapsto> ''/bin'']" "bw_exec demo_boot_world = demo_exec"
  "bw_staging demo_boot_world = Inr (Path True [''home''])"
  by (simp_all add: demo_boot_world_def)

lemma and_then_Inr: "m s = (Inr a, s1) \<Longrightarrow> and_then m f s = f a s1"
  by (simp add: and_then_def)

lemma demo_install:
  "install_release demo_release demo_boot_world r None demo_target \<lparr>bt_log = log, bt_fs = demo_tools\<rparr>
     = (Inr (), \<lparr>bt_log = log @ [upload_process r ''/home/sqshd'' [4] ''/tmp/sqshd'', install_process r],
         bt_fs = demo_tools\<rparr>)"
proof -
  have "read (Path True [''home'', ''sqshd'']) demo_tools = Inr [4]"
    using demo_paths(6) by (simp add: read_def fs_check_def empty_path_def resolve_def demo_tools_def
        demo_fs_def demo_file_def)
  then show ?thesis
    using demo_download [of None]
    by (simp add: install_release_def and_then_Inr on_files_def demo_sudo demo_upload install_process_def
        path_text_def)
qed

definition demo_keyed :: fsys where
  "demo_keyed = demo_tools\<lparr>nodes := (nodes demo_tools)(
     [''home'', ''.config''] \<mapsto> \<lparr>nd_kind = Directory, nd_uid = 1000, nd_mode = mode_700, nd_data = []\<rparr>,
     [''home'', ''.config'', ''id''] \<mapsto>
       \<lparr>nd_kind = RegularFile, nd_uid = 1000, nd_mode = mode_600, nd_data = replicate 32 7\<rparr>)\<rparr>"

lemma demo_keypair:
  "ensure_client_keypair (replicate 32 7) rev demo_identity demo_tools = (Inr (replicate 32 7), demo_keyed)"
  by (simp add: fs_eval ensure_client_keypair_def make_private_parent_def Let_def demo_tools_def demo_keyed_def
      release_archive_name_def demo_target_def set_dir_owner_only_permissions_def write_seed_owner_only_def seed_public_key_def)

definition demo_order :: iteration_order where
  "demo_order es = es"

lemma demo_pin:
  "load (bc_known_hosts_path demo_boot_config) demo_keyed
     = Inr \<lparr>entries = [], kh_path = bc_known_hosts_path demo_boot_config\<rparr>"
  "\<exists>kh fs. pin_host demo_order ''box:2222'' ''a1b2'' (\<lparr>entries = [], kh_path = bc_known_hosts_path demo_boot_config\<rparr>,
     demo_keyed) = (Inr (), kh, fs) \<and> fault fs = (\<lambda>_ _. None)"
  by (simp_all add: load_def demo_boot_config_def pin_host_def kh_save_def write_owner_only_file_def
      create_truncate_def demo_order_def fs_eval demo_tools_def demo_keyed_def Let_def
      release_archive_name_def demo_target_def)

lemma demo_target_eq: "release_target MacOs ''x86_64'' = Inr demo_target"
  by (simp add: release_target_def demo_target_def)

lemma demo_steps:
  "detect_os demo_boot_world r s = (Inr MacOs, s\<lparr>bt_log := bt_log s @ [run_process r ''uname -s'']\<rparr>)"
  "remote_arch demo_boot_world r s = (Inr ''x86_64'', s\<lparr>bt_log := bt_log s @ [run_process r ''uname -m'']\<rparr>)"
  "is_sqshd_installed demo_boot_world r s = (Inr False, s\<lparr>bt_log := bt_log s @
     [run_process r ''command -v sqshd || test -f /usr/local/bin/sqshd && echo yes || echo no'']\<rparr>)"
  "is_sqshd_running demo_boot_world r s = (Inr False, s\<lparr>bt_log := bt_log s @
     [run_process r ''pgrep -x sqshd > /dev/null 2>&1 && echo running || echo stopped'']\<rparr>)"
  by (simp_all add: detect_os_def remote_arch_def is_sqshd_installed_def is_sqshd_running_def and_then_Inr
      demo_cmd give_def starts_with_def SQSHD_INSTALL_PATH_def ends_with_def strip_suffix_def)

lemma demo_actions:
  "install_authorized_key demo_boot_world r line s = (Inr (), s\<lparr>bt_log := bt_log s @
     [upload_process r ''t'' (str_bytes (line @ [NL])) REMOTE_TEMP_KEY,
      run_process r (authorized_key_install_command REMOTE_TEMP_KEY)]\<rparr>)"
  "install_and_start demo_boot_world r MacOs s = (Inr (), s\<lparr>bt_log := bt_log s @
     [upload_process r ''t'' (str_bytes launchd_plist) ''/tmp/com.sqsh.sqshd.plist'',
      sudo_process r ''install -m 644 /tmp/com.sqsh.sqshd.plist /Library/LaunchDaemons/com.sqsh.sqshd.plist'',
      sudo_process r ''launchctl load -w /Library/LaunchDaemons/com.sqsh.sqshd.plist'']\<rparr>)"
  "fetch_fingerprint demo_boot_world r s = (Inr ''a1b2'', s\<lparr>bt_log := bt_log s @
     [run_process r (SQSHD_INSTALL_PATH @ '' --config '' @ SQSHD_CONFIG_PATH @ '' --emit-fingerprint'')]\<rparr>)"
  by (simp_all add: install_authorized_key_def install_and_start_def install_launchd_def fetch_fingerprint_def
      and_then_Inr demo_cmd demo_sudo demo_upload give_def starts_with_def SQSHD_INSTALL_PATH_def)

lemma demo_run:
  "\<exists>log fs. run_bootstrap demo_release demo_keys demo_order demo_boot_world demo_boot_config
       \<lparr>bt_log = [], bt_fs = demo_tools\<rparr> = (Inr (''box:2222'', ''a1b2''), \<lparr>bt_log = log, bt_fs = fs\<rparr>)
     \<and> fault fs = (\<lambda>_ _. None) \<and> log ! 4 = install_process demo_runner \<and> 4 < length log"
proof -
  obtain kh fs where p: "pin_host demo_order ''box:2222'' ''a1b2''
      (\<lparr>entries = [], kh_path = bc_known_hosts_path demo_boot_config\<rparr>, demo_keyed) = (Inr (), kh, fs)"
      "fault fs = (\<lambda>_ _. None)" using demo_pin(2) by blast
  have c: "bc_host demo_boot_config = ''box''" "bc_ssh_port demo_boot_config = 22"
    "bc_sqshd_port demo_boot_config = 2222" "bc_ssh_user demo_boot_config = None"
    "bc_squishd_version demo_boot_config = None" "bc_identity_path demo_boot_config = demo_identity"
    by (simp_all add: demo_boot_config_def)
  have port: "show_u16 2222 = ''2222''" by code_simp
  have t: "trim ''a1b2'' = ''a1b2''" by (simp add: plain_char_def code_def)
  show ?thesis
    using p
    by (simp add: run_bootstrap_def Let_def c port and_then_Inr [OF demo_steps(3)] and_then_Inr [OF demo_steps(4)]
        and_then_Inr demo_steps(1,2) demo_actions t demo_sudo demo_upload demo_install give_def
        on_files_def demo_target_eq demo_keys_def demo_keypair demo_pin(1) demo_runner_def)
qed


definition demo_boot_client :: client_config where
  "demo_boot_client = demo_client\<lparr>cc_host := ''box'', cc_port := 2222,
     cc_known_hosts_path := Path True [''home'', ''.config'', ''kh'']\<rparr>"


end
