(* ===== verification/Client_Session.thy ===== *)
theory Client_Session
  imports Client_Connection
begin

text \<open>
  \<^verbatim>\<open>sqsh/src/channel/session.rs\<close>: opening a session channel, the requests that start it, the pump
  that writes what the server sends, the pump that sends standard input and resizes, and the
  outcome of the session.
\<close>

section \<open>Opening\<close>

datatype session_failure =
    CsSend
  | CsStreamEnded
  | CsOpenFailed channel_failure_reason string
  | CsUnexpected channel_message
  | CsRawMode
  | CsSigwinch
  | CsExitCode u32

type_synonym cs_stream = "channel_message list \<times> channel_message sink"

text \<open>A request whose reply is read but not looked at.\<close>

definition request_and_reply ::
  "request_type \<Rightarrow> cs_stream \<Rightarrow> session_failure + cs_stream" where
  "request_and_reply rt s = (case s of (ms, k) \<Rightarrow>
     send_or (Request rt True) k (\<lambda>k1. Inl CsSend)
       (\<lambda>k1. case ms of [] \<Rightarrow> Inl CsStreamEnded | m # rest \<Rightarrow> Inr (rest, k1)))"

definition open_session :: "cs_stream \<Rightarrow> session_failure + cs_stream" where
  "open_session s = (case s of (ms, k) \<Rightarrow>
     send_or (Open Session SessionParams) k (\<lambda>k1. Inl CsSend)
       (\<lambda>k1. case ms of
            [] \<Rightarrow> Inl CsStreamEnded
          | OpenConfirmation n # rest \<Rightarrow> Inr (rest, k1)
          | OpenFailure r d # rest \<Rightarrow> Inl (CsOpenFailed r d)
          | m # rest \<Rightarrow> Inl (CsUnexpected m)))"

definition is_forwarded_env_key :: "string \<Rightarrow> bool" where
  "is_forwarded_env_key k \<longleftrightarrow> k = ''LANG'' \<or> starts_with ''LC_'' k"

definition forwarded_env :: "(string \<times> string) list \<Rightarrow> (string \<times> string) list" where
  "forwarded_env vars = filter (\<lambda>(k, v). is_forwarded_env_key k) vars"

fun send_env :: "(string \<times> string) list \<Rightarrow> cs_stream \<Rightarrow> session_failure + cs_stream" where
  "send_env [] s = Inr s"
| "send_env ((n, v) # vars) s = (case s of (ms, k) \<Rightarrow>
     send_or (Request (Env n v) False) k (\<lambda>k1. Inl CsSend) (\<lambda>k1. send_env vars (ms, k1)))"

text \<open>The terminal: its size if it has one, in cells.\<close>

definition pty_request :: "string option \<Rightarrow> (u16 \<times> u16) option \<Rightarrow> request_type" where
  "pty_request trm tsize =
     (let (cols, rows) = (case tsize of Some cr \<Rightarrow> cr | None \<Rightarrow> (80, 24)) in
      PtyReq \<lparr>pr_term = (case trm of Some t \<Rightarrow> t | None \<Rightarrow> ''xterm-256color''),
        pr_width_cols = ucast cols, pr_height_rows = ucast rows, pr_width_px = 0, pr_height_px = 0\<rparr>)"

definition interactive :: "client_config \<Rightarrow> bool" where
  "interactive cc \<longleftrightarrow> cc_command cc = None \<and> cc_subsystem cc = None"

definition start_request :: "client_config \<Rightarrow> request_type" where
  "start_request cc = (case cc_subsystem cc of
      Some name \<Rightarrow> Subsystem name
    | None \<Rightarrow> (case cc_command cc of Some cmd \<Rightarrow> Exec cmd | None \<Rightarrow> Shell))"

definition start_session ::
  "client_config \<Rightarrow> environment \<Rightarrow> (string \<times> string) list \<Rightarrow> (u16 \<times> u16) option \<Rightarrow> cs_stream
    \<Rightarrow> session_failure + cs_stream" where
  "start_session cc env vars tsize s =
     res_bind (open_session s) (\<lambda>s1.
     res_bind (if interactive cc then request_and_reply (pty_request (env ''TERM'') tsize) s1 else Inr s1) (\<lambda>s2.
     res_bind (send_env (forwarded_env vars) s2) (\<lambda>s3.
       request_and_reply (start_request cc) s3)))"

section \<open>The pumps\<close>

text \<open>
  What the server sends, written out: standard output until a write fails (\<open>out_room\<close> bytes),
  standard error whether or not its writes succeed, and the exit status seen last.
\<close>

record shown =
  sh_out :: "byte list"
  sh_err :: "byte list"
  sh_exit :: "u32 option"

definition shown_out :: "byte list \<Rightarrow> shown \<Rightarrow> shown" where
  "shown_out d r = r\<lparr>sh_out := d @ sh_out r\<rparr>"

definition shown_err :: "byte list \<Rightarrow> shown \<Rightarrow> shown" where
  "shown_err d r = r\<lparr>sh_err := d @ sh_err r\<rparr>"

definition nothing_shown :: "u32 option \<Rightarrow> shown" where
  "nothing_shown e = \<lparr>sh_out = [], sh_err = [], sh_exit = e\<rparr>"

fun stdout_pump :: "nat option \<Rightarrow> channel_message list \<Rightarrow> shown" where
  "stdout_pump out_room [] = nothing_shown None"
| "stdout_pump out_room (m # ms) = (case m of
      Data d \<Rightarrow> (case out_room of
          None \<Rightarrow> shown_out d (stdout_pump None ms)
        | Some n \<Rightarrow>
            if length d \<le> n then shown_out d (stdout_pump (Some (n - length d)) ms)
            else shown_out (take n d) (nothing_shown None))
    | ExtendedData t d \<Rightarrow> shown_err d (stdout_pump out_room ms)
    | ExitStatus st \<Rightarrow> nothing_shown (Some st)
    | Eof \<Rightarrow> nothing_shown None
    | Close \<Rightarrow> nothing_shown None
    | _ \<Rightarrow> stdout_pump out_room ms)"

datatype stdin_event =
    StdinRead "byte list"
  | StdinEof
  | StdinError
  | Resized "(u16 \<times> u16) option"
  | StdoutDone

record stdin_pump =
  sp_sink :: "channel_message sink"
  sp_status :: "(session_failure + unit) loop_status"

definition stdin_step :: "stdin_pump \<Rightarrow> stdin_event \<Rightarrow> stdin_pump" where
  "stdin_step s e = (case sp_status s of
      Running \<Rightarrow> (case e of
          StdinEof \<Rightarrow> s\<lparr>sp_sink := send_quietly Eof (sp_sink s), sp_status := Left\<rparr>
        | StdinRead d \<Rightarrow> send_or (Data d) (sp_sink s)
            (\<lambda>k. s\<lparr>sp_sink := k, sp_status := Returned (Inl CsSend)\<rparr>) (\<lambda>k. s\<lparr>sp_sink := k\<rparr>)
        | StdinError \<Rightarrow> s\<lparr>sp_status := Left\<rparr>
        | Resized None \<Rightarrow> s
        | Resized (Some (cols, rows)) \<Rightarrow>
            s\<lparr>sp_sink := send_quietly (Request (WindowChange
              \<lparr>wc_width_cols = ucast cols, wc_height_rows = ucast rows, wc_width_px = 0,
               wc_height_px = 0\<rparr>) False) (sp_sink s)\<rparr>
        | StdoutDone \<Rightarrow> s\<lparr>sp_status := Left\<rparr>)
    | _ \<Rightarrow> s)"

definition start_stdin :: "channel_message sink \<Rightarrow> stdin_pump" where
  "start_stdin k = \<lparr>sp_sink = k, sp_status = Running\<rparr>"

text \<open>After both pumps: the channel is closed, and an exit status that was seen decides the result.\<close>

definition end_session ::
  "shown \<Rightarrow> channel_message sink \<Rightarrow> (session_failure + unit) \<times> shown \<times> channel_message sink" where
  "end_session shown k = send_or Close k
     (\<lambda>k1. (Inl CsSend, shown, k1))
     (\<lambda>k1. (case sh_exit shown of
          Some c \<Rightarrow> if c \<noteq> 0 then Inl (CsExitCode c) else Inr ()
        | None \<Rightarrow> Inr (), shown, k1))"

text \<open>
  What the process gets of its terminal: whether it can be put in raw mode, and whether the handler of
  \<^verbatim>\<open>SIGWINCH\<close> can be registered, which is tried for every session, interactive or not.
\<close>

record local_tty =
  tt_raw_ok :: bool
  tt_sigwinch_ok :: bool

definition tty_ready :: "bool \<Rightarrow> local_tty \<Rightarrow> bool" where
  "tty_ready tty lt \<longleftrightarrow> (tty \<longrightarrow> tt_raw_ok lt) \<and> tt_sigwinch_ok lt"

text \<open>
  A whole session: what was shown, and how it ended; \<open>None\<close> while the standard input pump still
  runs. The pump of standard output is started before the handler is registered.
\<close>

definition session_run ::
  "client_config \<Rightarrow> environment \<Rightarrow> (string \<times> string) list \<Rightarrow> (u16 \<times> u16) option \<Rightarrow> local_tty
    \<Rightarrow> nat option \<Rightarrow> stdin_event list \<Rightarrow> cs_stream
    \<Rightarrow> ((session_failure + unit) \<times> shown \<times> channel_message sink) option" where
  "session_run cc env vars tsize lt out_room es s =
     (case start_session cc env vars tsize s of
        Inl e \<Rightarrow> Some (Inl e, nothing_shown None, snd s)
      | Inr (ms, k) \<Rightarrow>
          if interactive cc \<and> \<not> tt_raw_ok lt then Some (Inl CsRawMode, nothing_shown None, k)
          else let shown = stdout_pump out_room ms; p = foldl stdin_step (start_stdin k) es in
            if \<not> tt_sigwinch_ok lt then Some (Inl CsSigwinch, shown, k)
            else case sp_status p of
              Returned (Inl e) \<Rightarrow> Some (Inl e, shown, sp_sink p)
            | Left \<Rightarrow> Some (end_session shown (sp_sink p))
            | _ \<Rightarrow> None)"

section \<open>Lemmas\<close>

fun stdin_bytes :: "stdin_event \<Rightarrow> byte list" where
  "stdin_bytes (StdinRead d) = d"
| "stdin_bytes _ = []"

lemma stdin_step_room: "room (sp_sink s) = None \<Longrightarrow> room (sp_sink (stdin_step s e)) = None"
  by (auto simp: stdin_step_def split: loop_status.split stdin_event.split option.split)

lemma stdin_step_relays:
  "room (sp_sink s) = None \<Longrightarrow> sp_status (stdin_step s e) = Running \<Longrightarrow>
     sp_status s = Running
     \<and> data_stream (sent (sp_sink (stdin_step s e))) = data_stream (sent (sp_sink s)) @ stdin_bytes e
     \<and> ([] :: unit list) = [] @ []"
  by (auto simp: stdin_step_def split: loop_status.splits stdin_event.splits option.splits)

interpretation stdin_relay: ordered_relay stdin_step "\<lambda>s. room (sp_sink s) = None"
  "\<lambda>s. sp_status s = Running" "\<lambda>s. data_stream (sent (sp_sink s))" "\<lambda>s. [] :: unit list"
  stdin_bytes "\<lambda>e. [] :: unit list"
  by unfold_locales (erule stdin_step_room, erule (1) stdin_step_relays)

text \<open>Messages that neither end the pump nor carry a status.\<close>

fun streaming :: "channel_message \<Rightarrow> bool" where
  "streaming (ExitStatus st) \<longleftrightarrow> False"
| "streaming Eof \<longleftrightarrow> False"
| "streaming Close \<longleftrightarrow> False"
| "streaming _ \<longleftrightarrow> True"

lemma shown_simps [simp]:
  "sh_out (shown_out d r) = d @ sh_out r" "sh_err (shown_out d r) = sh_err r"
  "sh_exit (shown_out d r) = sh_exit r" "sh_out (shown_err d r) = sh_out r"
  "sh_err (shown_err d r) = d @ sh_err r" "sh_exit (shown_err d r) = sh_exit r"
  "sh_out (nothing_shown e) = []" "sh_err (nothing_shown e) = []" "sh_exit (nothing_shown e) = e"
  by (simp_all add: shown_out_def shown_err_def nothing_shown_def)

lemma stdout_pump_streaming:
  "list_all streaming ms \<Longrightarrow>
     sh_out (stdout_pump None (ms @ Eof # rest)) = data_stream ms
     \<and> sh_err (stdout_pump None (ms @ Eof # rest)) = ext_stream ms
     \<and> sh_exit (stdout_pump cap (ms @ Eof # rest)) = None"
proof (induction ms arbitrary: cap)
  case (Cons m ms)
  then show ?case by (cases m) (auto split: option.split)
qed simp

lemma send_quietly_streaming:
  "list_all streaming (sent k) \<Longrightarrow> streaming m \<Longrightarrow> list_all streaming (sent (send_quietly m k))"
  using send_quietly_cases [of m k] by auto

text \<open>What a pump that was started with \<open>base\<close> sent has added to it.\<close>

definition streamed :: "channel_message list \<Rightarrow> channel_message sink \<Rightarrow> bool" where
  "streamed base k \<longleftrightarrow> (\<exists>new. sent k = base @ new \<and> list_all streaming new)"

lemma streamed_start: "streamed (sent k) k"
  by (simp add: streamed_def)

lemma streamed_more: "streamed base k \<Longrightarrow> sent k' = sent k @ [m] \<Longrightarrow> streaming m \<Longrightarrow> streamed base k'"
  by (auto simp: streamed_def intro: exI [of _ "_ @ [m]"])

lemma streamed_same: "streamed base k \<Longrightarrow> sent k' = sent k \<Longrightarrow> streamed base k'"
  by (simp add: streamed_def)

lemma send_quietly_streamed: "streamed base k \<Longrightarrow> streaming m \<Longrightarrow> streamed base (send_quietly m k)"
  using send_quietly_cases [of m k] streamed_more streamed_same by metis

lemma send_streamed:
  "streamed base k \<Longrightarrow> streaming m \<Longrightarrow> send m k = (ok, k1) \<Longrightarrow> streamed base k1"
  by (cases ok) (auto dest!: send_TrueD send_FalseD intro: streamed_more streamed_same)

lemma pump_step_streamed:
  assumes "streamed base (p_sink s)"
  shows "streamed base (p_sink (pump_step s e))"
proof -
  have r: "streamed base (p_sink (pump_read r s))" for r
    using assms
    by (auto simp: pump_read_def send_or_def split: pty_read.split prod.split bool.split
        elim: send_streamed [rotated 2])
  have q: "streamed base (p_sink (pump_request rt w s))" for rt w
    using assms
    by (auto simp: pump_request_def reply_quietly_def intro!: send_quietly_streamed
        split: request_type.split option.split)
  show ?thesis
    using assms r q
    by (auto simp: pump_step_def pump_client_def pump_write_def pump_exited_def
        split: loop_status.split pump_event.split option.split channel_message.split prod.split)
qed

interpretation pump_streams: event_loop pump_step "\<lambda>s. streamed base (p_sink s)" for base
  by unfold_locales (rule pump_step_streamed)

lemma io_pump_sink: "io_pump fw es s = Some (r, s') \<Longrightarrow> p_sink s' = p_sink (foldl pump_step s es)"
  by (auto simp: io_pump_def Let_def split: loop_status.splits final_wait.splits)

lemma run_child_streams:
  assumes "run_child os es u exec pty env k = (SessionOk, cmd, k')" and "room k = None"
  shows "\<exists>ms st. list_all streaming ms \<and> sent k' = sent k @ ms @ [Eof, ExitStatus st, Close]"
proof -
  let ?s = "foldl pump_step (start_pump os pty k) es"
  have "streamed (sent k) (p_sink ?s)" "room (p_sink ?s) = None"
    using assms(2) by (simp_all add: start_pump_def pump_streams.inv_run streamed_start terminal.inv_run)
  with assms(1) show ?thesis
    by (auto simp: run_child_def Let_def streamed_def split: if_splits sum.splits option.splits prod.splits
        dest!: io_pump_sink)
qed

lemma send_env_sends:
  "room k = None \<Longrightarrow> send_env vars (ms, k)
     = Inr (ms, k\<lparr>sent := sent k @ map (\<lambda>(n, v). Request (Env n v) False) vars\<rparr>)"
  by (induction vars arbitrary: k) auto

lemma request_and_reply_sends:
  "room k = None \<Longrightarrow> request_and_reply rt (ms, k) = Inr s \<Longrightarrow>
     \<exists>m. ms = m # fst s \<and> snd s = k\<lparr>sent := sent k @ [Request rt True]\<rparr>"
  by (cases ms) (auto simp: request_and_reply_def)

lemma open_session_sends:
  "room k = None \<Longrightarrow> open_session (ms, k) = Inr s \<Longrightarrow>
     \<exists>n. ms = OpenConfirmation n # fst s \<and> snd s = k\<lparr>sent := sent k @ [Open Session SessionParams]\<rparr>"
  by (cases ms) (auto simp: open_session_def split: channel_message.splits)

lemma start_command_session:
  "cc_command cc = Some c \<Longrightarrow> cc_subsystem cc = None \<Longrightarrow> room k = None \<Longrightarrow>
     start_session cc env vars tsize (OpenConfirmation n # m # ms, k)
       = Inr (ms, k\<lparr>sent := sent k @ Open Session SessionParams
           # map (\<lambda>(n, v). Request (Env n v) False) (forwarded_env vars) @ [Request (Exec c) True]\<rparr>)"
  by (simp add: start_session_def open_session_def interactive_def send_env_sends
      request_and_reply_def start_request_def)

lemma client_input_data: "concat (map client_input (map (\<lambda>m. FromClient (Some m)) ms)) = data_stream ms"
proof (induction ms)
  case (Cons m ms)
  then show ?case by (cases m) simp_all
qed simp

section \<open>Properties\<close>

text \<open>
  Only the locale leaves the client. A session that starts has sent the request to open, the
  terminal's if it is interactive, then of the user's environment exactly \<open>LANG\<close> and the
  variables starting with \<open>LC_\<close> in order, which a server with the default policy accepts, then the
  request for the shell, command or subsystem.
\<close>

lemma session_start_sends_locale_only:
  assumes "start_session cc env vars tsize (ms, k) = Inr (ms', k')" "room k = None"
    and "t_accept_env t = None"
  shows "sent k' = sent k @ [Open Session SessionParams]
      @ (if interactive cc then [Request (pty_request (env ''TERM'') tsize) True] else [])
      @ map (\<lambda>(n, v). Request (Env n v) False) (forwarded_env vars)
      @ [Request (start_request cc) True]
    \<and> (\<forall>(n, v) \<in> set vars.
          (n, v) \<in> set (forwarded_env vars) \<longleftrightarrow> env_accepted (with_defaults t) n)"
proof -
  obtain s1 s2 where o: "open_session (ms, k) = Inr s1"
      and p: "(if interactive cc then request_and_reply (pty_request (env ''TERM'') tsize) s1
        else Inr s1) = Inr s2"
      and r: "res_bind (send_env (forwarded_env vars) s2) (request_and_reply (start_request cc))
        = Inr (ms', k')"
    using assms(1) by (auto simp: start_session_def res_bind_Inr_iff)
  obtain ms1 where s1: "s1 = (ms1, k\<lparr>sent := sent k @ [Open Session SessionParams]\<rparr>)"
    using open_session_sends [OF assms(2) o] by (cases s1) auto
  obtain ms2 k2 where s2: "s2 = (ms2, k2)" by (cases s2)
  have k2: "room k2 = None" "sent k2 = sent k @ [Open Session SessionParams]
      @ (if interactive cc then [Request (pty_request (env ''TERM'') tsize) True] else [])"
    using p s1 s2 assms(2) request_and_reply_sends [of "snd s1" "pty_request (env ''TERM'') tsize" ms1 s2]
    by (auto split: if_splits)
  have "sent k' = sent k2 @ map (\<lambda>(n, v). Request (Env n v) False) (forwarded_env vars)
      @ [Request (start_request cc) True]"
    using r k2(1) request_and_reply_sends [of "k2\<lparr>sent := sent k2 @
        map (\<lambda>(n, v). Request (Env n v) False) (forwarded_env vars)\<rparr>" "start_request cc" ms2 "(ms', k')"]
    by (auto simp: s2 send_env_sends)
  moreover have "is_forwarded_env_key n \<longleftrightarrow> env_accepted (with_defaults t) n" for n
    using assms(3)
    by (auto simp: is_forwarded_env_key_def env_accepted_def with_defaults_def
        default_accept_env_def strip_suffix_def)
  ultimately show ?thesis using k2(2) by (auto simp: forwarded_env_def)
qed

text \<open>
  C23: the exit status never arrives. Whatever a command does on the server and whatever status it
  ends with, a client that runs it shows everything the server sent and then reports success: the
  server announces the status after the end of the data, where the client has stopped reading.
\<close>

theorem exit_status_lost:
  assumes "run_child os es u exec pty env open_sink = (SessionOk, cmd, k')"
    and "cc_command cc = Some c" "cc_subsystem cc = None" "tt_sigwinch_ok lt"
  shows "\<exists>st k''. ExitStatus st \<in> set (sent k')
    \<and> session_run cc tenv vars tsize lt None [StdoutDone]
        (OpenConfirmation n # RequestSuccess # sent k', open_sink)
      = Some (Inr (), \<lparr>sh_out = data_stream (sent k'), sh_err = ext_stream (sent k'), sh_exit = None\<rparr>, k'')"
proof -
  obtain ms st where ms: "list_all streaming ms" "sent k' = ms @ [Eof, ExitStatus st, Close]"
    using run_child_streams [OF assms(1)] by auto
  have "stdout_pump None (sent k')
      = \<lparr>sh_out = data_stream (sent k'), sh_err = ext_stream (sent k'), sh_exit = None\<rparr>"
    using stdout_pump_streaming [OF ms(1), of "[ExitStatus st, Close]" None]
    by (simp add: ms(2) shown.equality)
  then show ?thesis
    using start_command_session [OF assms(2,3), of open_sink tenv vars tsize n RequestSuccess "sent k'"]
      assms(2,4) ms(2)
    by (auto simp: session_run_def end_session_def interactive_def stdin_step_def start_stdin_def Let_def)
qed

text \<open>
  What the user types reaches the terminal. While both pumps run, the server has written to the
  terminal exactly the bytes the client read from standard input, in order, with resizes and any
  other events of the server in between.
\<close>

lemma typed_bytes_reach_terminal:
  assumes "sp_status (foldl stdin_step (start_stdin open_sink) es) = Running"
    and "p_status (foldl pump_step (start_pump os pty k)
      (map (\<lambda>m. FromClient (Some m)) (sent (sp_sink (foldl stdin_step (start_stdin open_sink) es))))) = Running"
    and "room k = None"
  shows "p_tty_in (foldl pump_step (start_pump os pty k)
      (map (\<lambda>m. FromClient (Some m)) (sent (sp_sink (foldl stdin_step (start_stdin open_sink) es)))))
    = concat (map stdin_bytes es)"
proof -
  have "data_stream (sent (sp_sink (foldl stdin_step (start_stdin open_sink) es)))
      = concat (map stdin_bytes es)"
    using stdin_relay.relay_run [OF _ assms(1)] by (simp add: start_stdin_def)
  with terminal.relay_run [OF _ assms(2)] assms(3) show ?thesis
    unfolding client_input_data by (simp add: start_pump_def)
qed

section \<open>Witnesses\<close>

definition demo_tty :: local_tty where
  "demo_tty = \<lparr>tt_raw_ok = True, tt_sigwinch_ok = True\<rparr>"

lemma demo_tty_ready [simp]: "tty_ready tty demo_tty" "tt_sigwinch_ok demo_tty"
  by (simp_all add: tty_ready_def demo_tty_def)

definition demo_command_client :: client_config where
  "demo_command_client = demo_client\<lparr>cc_command := Some ''false''\<rparr>"

lemma session_start_sends_locale_only_instance:
  "\<exists>k'. start_session demo_command_client (\<lambda>_. None) [(''LD_PRELOAD'', ''x''), (''LANG'', ''C'')] None
       ([OpenConfirmation 1, RequestSuccess], open_sink) = Inr ([], k')
     \<and> sent k' = [Open Session SessionParams, Request (Env ''LANG'' ''C'') False,
          Request (Exec ''false'') True]"
proof -
  obtain k' where s: "start_session demo_command_client (\<lambda>_. None)
      [(''LD_PRELOAD'', ''x''), (''LANG'', ''C'')] None
      ([OpenConfirmation 1, RequestSuccess], open_sink) = Inr ([], k')"
    using start_command_session [of demo_command_client "''false''" open_sink]
    by (simp add: demo_command_client_def demo_client_def)
  have "t_accept_env demo_toml = None" by (simp add: demo_toml_def)
  from session_start_sends_locale_only [OF s _ this] s show ?thesis
    by (simp add: demo_command_client_def demo_client_def interactive_def forwarded_env_def
        is_forwarded_env_key_def starts_with_def start_request_def)
qed

theorem exit_status_lost_witness:
  "\<exists>ms shown k''. ExitStatus 1 \<in> set ms
     \<and> session_run demo_command_client (\<lambda>_. None) [] None demo_tty None [StdoutDone]
         (OpenConfirmation 1 # RequestSuccess # ms, open_sink) = Some (Inr (), shown, k'')"
proof -
  obtain k' where r: "run_child demo_os [ChildExited (Some (Exited 1))] demo_alice (Some ''id'') None
      [(''LANG'', ''C'')] open_sink = (SessionOk, Some demo_child, k')"
    and e: "sent k' = [Eof, ExitStatus 1, Close]"
    using demo_configure
    by (simp add: run_child_def demo_os_def io_pump_def start_pump_def pump_step_def pump_exited_def
        Let_def)
  have c: "cc_command demo_command_client = Some ''false''" "cc_subsystem demo_command_client = None"
    by (simp_all add: demo_command_client_def demo_client_def)
  from exit_status_lost [OF r c, of demo_tty "\<lambda>_. None" "[]" None 1] e show ?thesis by force
qed

lemma typed_bytes_reach_terminal_instance:
  "p_tty_in (foldl pump_step (start_pump demo_os None open_sink) (map (\<lambda>m. FromClient (Some m))
     (sent (sp_sink (foldl stdin_step (start_stdin open_sink) [StdinRead [108], Resized None, StdinRead [115]])))))
   = [108, 115]"
  by (subst typed_bytes_reach_terminal)
    (simp_all add: stdin_step_def start_stdin_def demo_os_def start_pump_def pump_step_def
      pump_client_def pump_write_def)

end
