(* ===== verification/Shared_Session.thy ===== *)
theory Shared_Session
  imports Client_Session
begin

text \<open>
  A session through a shared connection, \<^verbatim>\<open>sqsh/src/control.rs\<close>: the messages on the master's socket,
  \<^verbatim>\<open>run_session_for_client\<close> at the master, and \<^verbatim>\<open>run_slave_session\<close> at the client that uses it.
\<close>

section \<open>The messages on the socket\<close>

record ms_request =
  mr_command :: "string option"
  mr_no_shell :: bool
  mr_local_forwards :: "forward_spec list"
  mr_remote_forwards :: "forward_spec list"
  mr_pty :: "pty_req_params option"
  mr_env :: "(string \<times> string) list"

datatype client_message =
    ClientOpen ms_request
  | Stdin "byte list"
  | ClientEof
  | ClientWindowChange window_change_params

datatype master_message =
    Ready
  | Stdout "byte list"
  | Stderr "byte list"
  | MasterExitStatus u32
  | MasterEof
  | MasterError string

fun stdin_of :: "client_message \<Rightarrow> byte list" where
  "stdin_of (Stdin d) = d"
| "stdin_of _ = []"

fun stdout_of :: "master_message \<Rightarrow> byte list" where
  "stdout_of (Stdout d) = d"
| "stdout_of _ = []"

fun stderr_of :: "master_message \<Rightarrow> byte list" where
  "stderr_of (Stderr d) = d"
| "stderr_of _ = []"

section \<open>The master's side\<close>

datatype master_failure =
    LocalSend
  | ChannelSend
  | OpenStream
  | MasterChannel session_failure
  | MasterStreamEnded
  | ExpectedOpen client_message
  | MasterForward client_error

datatype shared_event =
    FromServer "channel_message option"
  | FromSlave "client_message option"

record master_loop =
  ml_channel :: "channel_message sink"
  ml_local :: "master_message sink"
  ml_exit :: "u32 option"
  ml_status :: "(master_failure + unit) loop_status"

definition local_or_fail :: "master_message \<Rightarrow> master_loop \<Rightarrow> master_loop" where
  "local_or_fail m s = send_or m (ml_local s)
     (\<lambda>k. s\<lparr>ml_local := k, ml_status := Returned (Inl LocalSend)\<rparr>) (\<lambda>k. s\<lparr>ml_local := k\<rparr>)"

definition master_from_server :: "channel_message option \<Rightarrow> master_loop \<Rightarrow> master_loop" where
  "master_from_server m s = (case m of
      Some (Data d) \<Rightarrow> local_or_fail (Stdout d) s
    | Some (ExtendedData t d) \<Rightarrow> local_or_fail (Stderr d) s
    | Some (ExitStatus st) \<Rightarrow> local_or_fail (MasterExitStatus st) (s\<lparr>ml_exit := Some st\<rparr>)
    | Some Eof \<Rightarrow> s\<lparr>ml_local := send_quietly MasterEof (ml_local s), ml_status := Left\<rparr>
    | Some Close \<Rightarrow> s\<lparr>ml_local := send_quietly MasterEof (ml_local s), ml_status := Left\<rparr>
    | None \<Rightarrow> s\<lparr>ml_status := Left\<rparr>
    | Some _ \<Rightarrow> s)"

definition master_from_slave :: "client_message option \<Rightarrow> master_loop \<Rightarrow> master_loop" where
  "master_from_slave m s = (case m of
      Some (Stdin d) \<Rightarrow> send_or (Data d) (ml_channel s)
        (\<lambda>k. s\<lparr>ml_channel := k, ml_status := Returned (Inl ChannelSend)\<rparr>) (\<lambda>k. s\<lparr>ml_channel := k\<rparr>)
    | Some ClientEof \<Rightarrow> s\<lparr>ml_channel := send_quietly Eof (ml_channel s)\<rparr>
    | Some (ClientWindowChange p) \<Rightarrow>
        s\<lparr>ml_channel := send_quietly (Request (WindowChange p) False) (ml_channel s)\<rparr>
    | Some (ClientOpen r) \<Rightarrow> s
    | None \<Rightarrow> s\<lparr>ml_status := Left\<rparr>)"

definition master_step :: "master_loop \<Rightarrow> shared_event \<Rightarrow> master_loop" where
  "master_step s e = (case ml_status s of
      Running \<Rightarrow> (case e of
          FromServer m \<Rightarrow> master_from_server m s
        | FromSlave m \<Rightarrow> master_from_slave m s)
    | _ \<Rightarrow> s)"

definition start_master :: "channel_message sink \<Rightarrow> master_message sink \<Rightarrow> master_loop" where
  "start_master k l = \<lparr>ml_channel = k, ml_local = l, ml_exit = None, ml_status = Running\<rparr>"

definition session_request :: "ms_request \<Rightarrow> request_type" where
  "session_request req = (case mr_command req of Some c \<Rightarrow> Exec c | None \<Rightarrow> Shell)"

definition start_for_client :: "ms_request \<Rightarrow> cs_stream \<Rightarrow> session_failure + cs_stream" where
  "start_for_client req s =
     res_bind (case mr_pty req of Some p \<Rightarrow> request_and_reply (PtyReq p) s | None \<Rightarrow> Inr s) (\<lambda>s1.
     res_bind (send_env (mr_env req) s1) (\<lambda>s2.
       request_and_reply (session_request req) s2))"

text \<open>
  The result of a session for one client: how it ended (\<open>None\<close>: it still runs), what was written to the
  client's socket, and what to the channel (\<open>None\<close>: its set-up failed and the stream was dropped).
  \<open>sched\<close> turns the messages the server still sends into the events of the loop.
\<close>

type_synonym master_run =
  "(master_failure + unit) option \<times> master_message sink \<times> channel_message sink option"

definition master_end :: "master_loop \<Rightarrow> master_run" where
  "master_end s = (case ml_status s of
      Returned r \<Rightarrow> (Some r, ml_local s, Some (ml_channel s))
    | Left \<Rightarrow> (Some (Inr ()), ml_local s, Some (send_quietly Close (ml_channel s)))
    | _ \<Rightarrow> (None, ml_local s, Some (ml_channel s)))"

definition em_dash :: string where
  "em_dash = [CHR '' '', CHR 0xE2, CHR 0x80, CHR 0x94, CHR '' '']"

definition run_session_for_client ::
  "(channel_message list \<Rightarrow> shared_event list) \<Rightarrow> ms_request \<Rightarrow> cs_stream \<Rightarrow> master_message sink
    \<Rightarrow> master_run" where
  "run_session_for_client sched req s l = (case open_session s of
      Inl (CsOpenFailed r d) \<Rightarrow>
        send_or (MasterError (''channel open failed: '' @ show_failure_reason r @ em_dash @ d)) l
          (\<lambda>l1. (Some (Inl LocalSend), l1, None)) (\<lambda>l1. (Some (Inr ()), l1, None))
    | Inl e \<Rightarrow> (Some (Inl (MasterChannel e)), l, None)
    | Inr s1 \<Rightarrow> (case start_for_client req s1 of
          Inl e \<Rightarrow> (Some (Inl (MasterChannel e)), l, None)
        | Inr (ms, k) \<Rightarrow> send_or Ready l
            (\<lambda>l1. (Some (Inl LocalSend), l1, Some k))
            (\<lambda>l1. master_end (foldl master_step (start_master k l1) (sched ms)))))"

section \<open>The client's side\<close>

datatype slave_failure =
    SlaveSend
  | SlaveStreamEnded
  | MasterSaid string
  | NotReady master_message
  | SlaveStdout
  | SlaveStderr
  | SlaveRawMode
  | SlaveSigwinch
  | SlaveCtrlC
  | SlaveExitCode u32

datatype slave_event =
    SlaveStdin "byte list"
  | SlaveStdinEof
  | SlaveStdinError
  | FromMaster "master_message option"
  | SlaveResized "(u16 \<times> u16) option"

text \<open>
  \<open>sl_out_room\<close> and \<open>sl_err_room\<close> are how many bytes standard output and error still take before a write
  fails (\<open>None\<close>: never).
\<close>

record slave_loop =
  sl_local :: "client_message sink"
  sl_out :: "byte list"
  sl_err :: "byte list"
  sl_out_room :: "nat option"
  sl_err_room :: "nat option"
  sl_exit :: "u32 option"
  sl_stdin_open :: bool
  sl_interactive :: bool
  sl_status :: "(slave_failure + unit) loop_status"

text \<open>\<open>write_all\<close> on a descriptor: what went out, and the room that is left unless it failed.\<close>

definition out_write :: "nat option \<Rightarrow> byte list \<Rightarrow> byte list \<times> (unit + nat option)" where
  "out_write cap d = (case cap of
      None \<Rightarrow> (d, Inr None)
    | Some n \<Rightarrow> if length d \<le> n then (d, Inr (Some (n - length d))) else (take n d, Inl ()))"

definition slave_stdout :: "byte list \<Rightarrow> slave_loop \<Rightarrow> slave_loop" where
  "slave_stdout d s = (case out_write (sl_out_room s) d of
      (w, Inr r) \<Rightarrow> s\<lparr>sl_out := sl_out s @ w, sl_out_room := r\<rparr>
    | (w, Inl _) \<Rightarrow> s\<lparr>sl_out := sl_out s @ w, sl_status := Returned (Inl SlaveStdout)\<rparr>)"

definition slave_stderr :: "byte list \<Rightarrow> slave_loop \<Rightarrow> slave_loop" where
  "slave_stderr d s = (case out_write (sl_err_room s) d of
      (w, Inr r) \<Rightarrow> s\<lparr>sl_err := sl_err s @ w, sl_err_room := r\<rparr>
    | (w, Inl _) \<Rightarrow> s\<lparr>sl_err := sl_err s @ w, sl_status := Returned (Inl SlaveStderr)\<rparr>)"

definition slave_from_master :: "master_message option \<Rightarrow> slave_loop \<Rightarrow> slave_loop" where
  "slave_from_master m s = (case m of
      Some (Stdout d) \<Rightarrow> slave_stdout d s
    | Some (Stderr d) \<Rightarrow> slave_stderr d s
    | Some (MasterExitStatus st) \<Rightarrow> s\<lparr>sl_exit := Some st\<rparr>
    | Some MasterEof \<Rightarrow> s\<lparr>sl_status := Left\<rparr>
    | None \<Rightarrow> s\<lparr>sl_status := Left\<rparr>
    | Some (MasterError e) \<Rightarrow> s\<lparr>sl_status := Returned (Inl (MasterSaid e))\<rparr>
    | Some Ready \<Rightarrow> s)"

definition slave_step :: "slave_loop \<Rightarrow> slave_event \<Rightarrow> slave_loop" where
  "slave_step s e = (case sl_status s of
      Running \<Rightarrow> (case e of
          SlaveStdinEof \<Rightarrow> if sl_stdin_open s
            then s\<lparr>sl_local := send_quietly ClientEof (sl_local s), sl_stdin_open := False\<rparr> else s
        | SlaveStdin d \<Rightarrow> if sl_stdin_open s
            then send_or (Stdin d) (sl_local s)
              (\<lambda>k. s\<lparr>sl_local := k, sl_status := Returned (Inl SlaveSend)\<rparr>) (\<lambda>k. s\<lparr>sl_local := k\<rparr>)
            else s
        | SlaveStdinError \<Rightarrow> if sl_stdin_open s then s\<lparr>sl_status := Left\<rparr> else s
        | FromMaster m \<Rightarrow> slave_from_master m s
        | SlaveResized tsize \<Rightarrow>
            (case tsize of
               Some (cols, rows) \<Rightarrow> if sl_interactive s
                 then s\<lparr>sl_local := send_quietly (ClientWindowChange
                   \<lparr>wc_width_cols = ucast cols, wc_height_rows = ucast rows, wc_width_px = 0,
                    wc_height_px = 0\<rparr>) (sl_local s)\<rparr>
                 else s
             | None \<Rightarrow> s))
    | _ \<Rightarrow> s)"

definition start_slave :: "bool \<Rightarrow> nat option \<Rightarrow> nat option \<Rightarrow> client_message sink \<Rightarrow> slave_loop" where
  "start_slave tty out_room err_room k =
     \<lparr>sl_local = k, sl_out = [], sl_err = [], sl_out_room = out_room, sl_err_room = err_room,
      sl_exit = None, sl_stdin_open = True, sl_interactive = tty, sl_status = Running\<rparr>"

text \<open>How \<^verbatim>\<open>run_slave_io\<close> ends: \<open>None\<close> while its loop runs.\<close>

definition slave_end :: "slave_loop \<Rightarrow> (slave_failure + unit) option" where
  "slave_end s = (case sl_status s of
      Returned r \<Rightarrow> Some r
    | Left \<Rightarrow> Some (case sl_exit s of
          Some c \<Rightarrow> if c \<noteq> 0 then Inl (SlaveExitCode c) else Inr ()
        | None \<Rightarrow> Inr ())
    | _ \<Rightarrow> None)"

definition run_slave_io ::
  "bool \<Rightarrow> local_tty \<Rightarrow> nat option \<Rightarrow> nat option \<Rightarrow> slave_event list \<Rightarrow> client_message sink
    \<Rightarrow> (slave_failure + unit) option \<times> slave_loop" where
  "run_slave_io tty lt out_room err_room es k =
     (let s = start_slave tty out_room err_room k in
      if tty \<and> \<not> tt_raw_ok lt then (Some (Inl SlaveRawMode), s)
      else if \<not> tt_sigwinch_ok lt then (Some (Inl SlaveSigwinch), s)
      else let s1 = foldl slave_step s es in (slave_end s1, s1))"

definition slave_interactive :: "client_config \<Rightarrow> bool" where
  "slave_interactive cc \<longleftrightarrow> cc_command cc = None \<and> \<not> cc_no_shell cc"

definition pty_params :: "string option \<Rightarrow> (u16 \<times> u16) option \<Rightarrow> pty_req_params" where
  "pty_params trm tsize =
     (let (cols, rows) = (case tsize of Some cr \<Rightarrow> cr | None \<Rightarrow> (80, 24)) in
      \<lparr>pr_term = (case trm of Some t \<Rightarrow> t | None \<Rightarrow> ''xterm-256color''),
       pr_width_cols = ucast cols, pr_height_rows = ucast rows, pr_width_px = 0, pr_height_px = 0\<rparr>)"

definition slave_request ::
  "client_config \<Rightarrow> environment \<Rightarrow> (string \<times> string) list \<Rightarrow> (u16 \<times> u16) option \<Rightarrow> ms_request" where
  "slave_request cc env vars tsize =
     \<lparr>mr_command = cc_command cc, mr_no_shell = cc_no_shell cc,
      mr_local_forwards = cc_local_forwards cc, mr_remote_forwards = cc_remote_forwards cc,
      mr_pty = (if slave_interactive cc then Some (pty_params (env ''TERM'') tsize) else None),
      mr_env = forwarded_env vars\<rparr>"

text \<open>
  \<open>outs\<close> are the rooms of standard output and error, \<open>ctrl_c\<close> is whether waiting for the interrupt
  works, and \<open>sched\<close> turns the messages the master still sends into the events of the loop.
\<close>

definition run_slave_session ::
  "client_config \<Rightarrow> environment \<Rightarrow> (string \<times> string) list \<Rightarrow> (u16 \<times> u16) option \<Rightarrow> local_tty \<Rightarrow> bool
    \<Rightarrow> nat option \<times> nat option \<Rightarrow> (master_message list \<Rightarrow> slave_event list)
    \<Rightarrow> master_message list \<Rightarrow> client_message sink
    \<Rightarrow> (slave_failure + unit) option \<times> slave_loop" where
  "run_slave_session cc env vars tsize lt ctrl_c outs sched ms k =
     (let quiet = start_slave (slave_interactive cc) (fst outs) (snd outs) in
      send_or (ClientOpen (slave_request cc env vars tsize)) k
       (\<lambda>k1. (Some (Inl SlaveSend), quiet k1))
       (\<lambda>k1. case ms of
            [] \<Rightarrow> (Some (Inl SlaveStreamEnded), quiet k1)
          | Ready # rest \<Rightarrow>
              if cc_no_shell cc
              then if ctrl_c then (Some (Inr ()), quiet (send_quietly ClientEof k1))
                else (Some (Inl SlaveCtrlC), quiet k1)
              else run_slave_io (slave_interactive cc) lt (fst outs) (snd outs) (sched rest) k1
          | MasterError e # rest \<Rightarrow> (Some (Inl (MasterSaid e)), quiet k1)
          | m # rest \<Rightarrow> (Some (Inl (NotReady m)), quiet k1)))"

section \<open>Lemmas\<close>

fun server_bytes :: "shared_event \<Rightarrow> byte list" where
  "server_bytes (FromServer (Some (Data d))) = d"
| "server_bytes _ = []"

fun slave_bytes :: "shared_event \<Rightarrow> byte list" where
  "slave_bytes (FromSlave (Some (Stdin d))) = d"
| "slave_bytes _ = []"

fun master_bytes :: "slave_event \<Rightarrow> byte list" where
  "master_bytes (FromMaster (Some (Stdout d))) = d"
| "master_bytes _ = []"

fun typed_bytes :: "slave_event \<Rightarrow> byte list" where
  "typed_bytes (SlaveStdin d) = d"
| "typed_bytes _ = []"

definition stdin_stream :: "client_message list \<Rightarrow> byte list" where
  "stdin_stream ms = concat (map stdin_of ms)"

definition stdout_stream :: "master_message list \<Rightarrow> byte list" where
  "stdout_stream ms = concat (map stdout_of ms)"

definition stderr_stream :: "master_message list \<Rightarrow> byte list" where
  "stderr_stream ms = concat (map stderr_of ms)"

lemma shared_stream_simps [simp]:
  "stdin_stream [] = []" "stdin_stream (m # ms) = stdin_of m @ stdin_stream ms"
  "stdin_stream (ms @ ns) = stdin_stream ms @ stdin_stream ns"
  "stdout_stream [] = []" "stdout_stream (x # xs) = stdout_of x @ stdout_stream xs"
  "stdout_stream (xs @ ys) = stdout_stream xs @ stdout_stream ys"
  "stderr_stream [] = []" "stderr_stream (x # xs) = stderr_of x @ stderr_stream xs"
  "stderr_stream (xs @ ys) = stderr_stream xs @ stderr_stream ys"
  by (simp_all add: stdin_stream_def stdout_stream_def stderr_stream_def)

lemmas master_defs = master_step_def master_from_server_def master_from_slave_def local_or_fail_def

lemmas slave_defs = slave_step_def slave_from_master_def slave_stdout_def slave_stderr_def
  out_write_def

lemma master_step_rooms:
  "room (ml_channel s) = None \<and> room (ml_local s) = None \<Longrightarrow>
     room (ml_channel (master_step s e)) = None \<and> room (ml_local (master_step s e)) = None"
  by (auto simp: master_defs split: loop_status.split shared_event.split option.split
      channel_message.split client_message.split)

lemma master_step_relays:
  "room (ml_channel s) = None \<and> room (ml_local s) = None \<Longrightarrow> ml_status (master_step s e) = Running \<Longrightarrow>
     ml_status s = Running
     \<and> stdout_stream (sent (ml_local (master_step s e))) = stdout_stream (sent (ml_local s)) @ server_bytes e
     \<and> data_stream (sent (ml_channel (master_step s e))) = data_stream (sent (ml_channel s)) @ slave_bytes e"
  by (auto simp: master_defs split: loop_status.splits shared_event.splits option.splits
      channel_message.splits client_message.splits)

interpretation master_relay: ordered_relay master_step
  "\<lambda>s. room (ml_channel s) = None \<and> room (ml_local s) = None" "\<lambda>s. ml_status s = Running"
  "\<lambda>s. stdout_stream (sent (ml_local s))" "\<lambda>s. data_stream (sent (ml_channel s))"
  server_bytes slave_bytes
  by unfold_locales (erule master_step_rooms, erule (1) master_step_relays)

lemma slave_step_room: "room (sl_local s) = None \<Longrightarrow> room (sl_local (slave_step s e)) = None"
  by (auto simp: slave_defs split: loop_status.split slave_event.split option.split
      master_message.split prod.split)

lemma slave_step_relays:
  "room (sl_local s) = None \<Longrightarrow>
     sl_status (slave_step s e) = Running \<and> sl_stdin_open (slave_step s e) \<Longrightarrow>
     (sl_status s = Running \<and> sl_stdin_open s)
     \<and> sl_out (slave_step s e) = sl_out s @ master_bytes e
     \<and> stdin_stream (sent (sl_local (slave_step s e))) = stdin_stream (sent (sl_local s)) @ typed_bytes e"
  by (auto simp: slave_defs split: loop_status.splits slave_event.splits option.splits
      master_message.splits prod.splits if_splits)

interpretation slave_relay: ordered_relay slave_step "\<lambda>s. room (sl_local s) = None"
  "\<lambda>s. sl_status s = Running \<and> sl_stdin_open s" sl_out "\<lambda>s. stdin_stream (sent (sl_local s))"
  master_bytes typed_bytes
  by unfold_locales (erule slave_step_room, erule (1) slave_step_relays)

text \<open>The messages the two loops have from each other, in order.\<close>

fun from_slave :: "shared_event list \<Rightarrow> client_message list" where
  "from_slave [] = []"
| "from_slave (FromSlave (Some m) # es) = m # from_slave es"
| "from_slave (e # es) = from_slave es"

fun from_master :: "slave_event list \<Rightarrow> master_message list" where
  "from_master [] = []"
| "from_master (FromMaster (Some m) # es) = m # from_master es"
| "from_master (e # es) = from_master es"

lemma slave_bytes_stream: "concat (map slave_bytes es) = stdin_stream (from_slave es)"
proof (induction es rule: from_slave.induct)
  case (2 m es)
  then show ?case by (cases m) simp_all
qed simp_all

lemma master_bytes_stream: "concat (map master_bytes es) = stdout_stream (from_master es)"
proof (induction es rule: from_master.induct)
  case (2 m es)
  then show ?case by (cases m) simp_all
qed simp_all

text \<open>What the master makes of the messages of a server that neither end the session nor its output.\<close>

fun relayed :: "channel_message \<Rightarrow> master_message list" where
  "relayed (Data d) = [Stdout d]"
| "relayed (ExtendedData t d) = [Stderr d]"
| "relayed _ = []"

lemma master_streaming:
  assumes "list_all streaming ms" "ml_status s = Running" "room (ml_local s) = None"
  shows "foldl master_step s (map (\<lambda>m. FromServer (Some m)) ms)
    = s\<lparr>ml_local := (ml_local s)\<lparr>sent := sent (ml_local s) @ concat (map relayed ms)\<rparr>\<rparr>"
  using assms
proof (induction ms arbitrary: s)
  case (Cons m ms)
  then show ?case by (cases m) (simp_all add: master_defs)
qed simp

lemma relayed_streams:
  "stdout_stream (concat (map relayed ms)) = data_stream ms"
  "stderr_stream (concat (map relayed ms)) = ext_stream ms"
proof (induction ms)
  case (Cons m ms)
  { case 1 with Cons show ?case by (cases m) simp_all }
  { case 2 with Cons show ?case by (cases m) simp_all }
qed simp_all

fun output_message :: "master_message \<Rightarrow> bool" where
  "output_message (Stdout d) \<longleftrightarrow> True"
| "output_message (Stderr d) \<longleftrightarrow> True"
| "output_message _ \<longleftrightarrow> False"

lemma relayed_output: "list_all output_message (concat (map relayed ms))"
proof (induction ms)
  case (Cons m ms)
  then show ?case by (cases m) simp_all
qed simp

lemma slave_shows_output:
  assumes "list_all output_message ms" "sl_status s = Running"
    "sl_out_room s = None" "sl_err_room s = None"
  shows "foldl slave_step s (map (\<lambda>m. FromMaster (Some m)) ms)
    = s\<lparr>sl_out := sl_out s @ stdout_stream ms, sl_err := sl_err s @ stderr_stream ms\<rparr>"
  using assms
proof (induction ms arbitrary: s)
  case (Cons m ms)
  then show ?case by (cases m) (simp_all add: slave_defs)
qed simp

lemma start_master_simps [simp]:
  "ml_channel (start_master k l) = k" "ml_local (start_master k l) = l"
  "ml_status (start_master k l) = Running" "ml_exit (start_master k l) = None"
  by (simp_all add: start_master_def)

lemma start_slave_simps [simp]:
  "sl_local (start_slave t a b k) = k" "sl_out (start_slave t a b k) = []"
  "sl_err (start_slave t a b k) = []" "sl_out_room (start_slave t a b k) = a"
  "sl_err_room (start_slave t a b k) = b" "sl_exit (start_slave t a b k) = None"
  "sl_status (start_slave t a b k) = Running" "sl_stdin_open (start_slave t a b k)"
  by (simp_all add: start_slave_def)

text \<open>Once the loops are left, further events change nothing.\<close>

lemma master_left: "ml_status s \<noteq> Running \<Longrightarrow> foldl master_step s es = s"
  by (induction es) (auto simp: master_step_def split: loop_status.split)

lemma slave_left: "sl_status s \<noteq> Running \<Longrightarrow> foldl slave_step s es = s"
  by (induction es) (auto simp: slave_step_def split: loop_status.split)

text \<open>A server that streams and then announces the end of the data, seen through the master.\<close>

lemma master_until_eof:
  assumes "list_all streaming ms" "room l = None"
  shows "master_end (foldl master_step (start_master k l)
      (map (\<lambda>m. FromServer (Some m)) (ms @ Eof # rest)))
    = (Some (Inr ()), l\<lparr>sent := sent l @ concat (map relayed ms) @ [MasterEof]\<rparr>,
       Some (send_quietly Close k))"
  using assms
  by (simp add: master_streaming master_defs master_left master_end_def)

lemma slave_until_eof:
  assumes "list_all output_message ms" "tty_ready tty lt"
  shows "run_slave_io tty lt None None (map (\<lambda>m. FromMaster (Some m)) (ms @ [MasterEof])) k
    = (Some (Inr ()), (start_slave tty None None k)
        \<lparr>sl_out := stdout_stream ms, sl_err := stderr_stream ms, sl_status := Left\<rparr>)"
  using assms
  by (simp add: run_slave_io_def tty_ready_def Let_def slave_shows_output slave_step_def slave_from_master_def
      slave_end_def start_slave_def)

section \<open>Properties\<close>





end
