(* ===== verification/Control_Master.thy ===== *)
theory Control_Master
  imports Shared_Session
begin

text \<open>
  The process that owns a shared connection, \<^verbatim>\<open>sqsh/src/control.rs\<close>: its socket, the loop that accepts
  clients (\<^verbatim>\<open>serve_master\<close>), the handler of one client with the table of remote forwards all clients
  share, and the client's way to it (\<^verbatim>\<open>run_via_master_or_spawn\<close>).
\<close>

section \<open>One client's handler\<close>

text \<open>
  What the handlers share: the specifications of the remote forwards, and the control stream with the
  replies the server still sends on it.
\<close>

record shared_control =
  sm_table :: "forward_spec list"
  sm_replies :: "control_message list"
  sm_control :: "control_message sink"

definition same_forward :: "forward_spec \<Rightarrow> forward_spec \<Rightarrow> bool" where
  "same_forward f g \<longleftrightarrow> fw_bind_addr f = fw_bind_addr g \<and> fw_bind_port f = fw_bind_port g"

definition add_spec :: "forward_spec \<Rightarrow> forward_spec list \<Rightarrow> forward_spec list" where
  "add_spec f table = (if \<exists>g \<in> set table. same_forward f g then table else table @ [f])"

definition drop_spec :: "forward_spec \<Rightarrow> forward_spec list \<Rightarrow> forward_spec list" where
  "drop_spec f table = filter (\<lambda>g. \<not> same_forward f g) table"

datatype forwards_end =
    ForwardsAgreed
  | ForwardRejected string
  | ForwardsBroken master_failure

definition register_forward :: "forward_spec \<Rightarrow> shared_control \<Rightarrow> forwards_end \<times> shared_control" where
  "register_forward f sh =
     (let sh1 = sh\<lparr>sm_table := add_spec f (sm_table sh)\<rparr> in
      send_or (TcpForwardRequest (fw_bind_addr f) (fw_bind_port f)) (sm_control sh)
       (\<lambda>k. (ForwardsBroken (MasterForward ClientSend), sh1\<lparr>sm_control := k\<rparr>))
       (\<lambda>k. let sh2 = sh1\<lparr>sm_control := k, sm_replies := tl (sm_replies sh)\<rparr> in
          case sm_replies sh of
            [] \<Rightarrow> (ForwardsBroken (MasterForward ClientStreamEnded), sh2)
          | TcpForwardConfirm p # rest \<Rightarrow> (ForwardsAgreed, sh2)
          | TcpForwardFailure d # rest \<Rightarrow>
              (ForwardRejected d, sh2\<lparr>sm_table := drop_spec f (sm_table sh2)\<rparr>)
          | m # rest \<Rightarrow> (ForwardsBroken (MasterForward (UnexpectedReply m)), sh2)))"

fun register_forwards :: "forward_spec list \<Rightarrow> shared_control \<Rightarrow> forwards_end \<times> shared_control" where
  "register_forwards [] sh = (ForwardsAgreed, sh)"
| "register_forwards (f # fs) sh = (case register_forward f sh of
      (ForwardsAgreed, sh1) \<Rightarrow> register_forwards fs sh1
    | (e, sh1) \<Rightarrow> (e, sh1))"

text \<open>The handler reads what the client still sends until it says that it ends, or its socket fails.\<close>

fun drain_client_until_eof :: "client_message list \<Rightarrow> client_message list" where
  "drain_client_until_eof [] = []"
| "drain_client_until_eof (m # ms) = (if m = ClientEof then ms else drain_client_until_eof ms)"

record handled =
  h_end :: "(master_failure + unit) option"
  h_listeners :: "forward_spec list"
  h_shared :: shared_control
  h_local :: "master_message sink"
  h_channel :: "channel_message sink option"
  h_unread :: "client_message list"

text \<open>
  \<open>chan\<close> is the new stream of the session (\<open>None\<close>: it could not be opened); \<open>h_listeners\<close> are the local
  forwards whose listeners were spawned. They are not stopped when the client goes.
\<close>

definition handle_master_client ::
  "(client_message list \<Rightarrow> channel_message list \<Rightarrow> shared_event list) \<Rightarrow> client_message list
    \<Rightarrow> cs_stream option \<Rightarrow> shared_control \<Rightarrow> master_message sink \<Rightarrow> handled" where
  "handle_master_client sched cms chan sh l =
     (let done = (\<lambda>e ls sh1 l1. \<lparr>h_end = Some e, h_listeners = ls, h_shared = sh1, h_local = l1,
          h_channel = None, h_unread = tl cms\<rparr>) in
      case cms of
        [] \<Rightarrow> done (Inl MasterStreamEnded) [] sh l
      | ClientOpen req # rest \<Rightarrow>
          let ls = mr_local_forwards req in
          (case register_forwards (mr_remote_forwards req) sh of
             (ForwardsBroken e, sh1) \<Rightarrow> done (Inl e) ls sh1 l
           | (ForwardRejected d, sh1) \<Rightarrow> send_or (MasterError d) l
               (\<lambda>l1. done (Inl LocalSend) ls sh1 l1) (\<lambda>l1. done (Inr ()) ls sh1 l1)
           | (ForwardsAgreed, sh1) \<Rightarrow>
               if mr_no_shell req
               then send_or Ready l
                 (\<lambda>l1. done (Inl LocalSend) ls sh1 l1)
                 (\<lambda>l1. (done (Inr ()) ls sh1 l1)\<lparr>h_unread := drain_client_until_eof rest\<rparr>)
               else (case chan of
                   None \<Rightarrow> done (Inl OpenStream) ls sh1 l
                 | Some s \<Rightarrow> (case run_session_for_client (sched rest) req s l of
                     (e, l1, k) \<Rightarrow> \<lparr>h_end = e, h_listeners = ls, h_shared = sh1, h_local = l1,
                       h_channel = k, h_unread = rest\<rparr>)))
      | m # rest \<Rightarrow> done (Inl (ExpectedOpen m)) [] sh l)"

section \<open>The loop of the master\<close>

text \<open>
  \<open>sv_active\<close> is the source's counter; \<open>sv_running\<close> are the handlers that run and \<open>sv_done\<close> the messages in
  the channel by which they announce their end. The loop leaves after an idle time only.
\<close>

datatype serve_event =
    ClientAccepted
  | AcceptFailed
  | HandlerEnded
  | DoneReceived
  | IdleElapsed

record serve =
  sv_active :: nat
  sv_running :: nat
  sv_done :: nat
  sv_status :: "unit loop_status"

definition serve_step :: "control_persist \<Rightarrow> serve \<Rightarrow> serve_event \<Rightarrow> serve" where
  "serve_step persist s e = (case sv_status s of
      Running \<Rightarrow> (case e of
          ClientAccepted \<Rightarrow> s\<lparr>sv_active := sv_active s + 1, sv_running := sv_running s + 1\<rparr>
        | AcceptFailed \<Rightarrow> s\<lparr>sv_status := Returned ()\<rparr>
        | HandlerEnded \<Rightarrow> if sv_running s = 0 then s
            else s\<lparr>sv_running := sv_running s - 1, sv_done := sv_done s + 1\<rparr>
        | DoneReceived \<Rightarrow> if sv_active s = 0 \<or> sv_done s = 0 then s
            else s\<lparr>sv_active := sv_active s - 1, sv_done := sv_done s - 1\<rparr>
        | IdleElapsed \<Rightarrow> if sv_active s = 0 \<and> persist_idle_timeout persist \<noteq> None
            then s\<lparr>sv_status := Left\<rparr> else s)
    | _ \<Rightarrow> s)"

definition serve_start :: serve where
  "serve_start = \<lparr>sv_active = 0, sv_running = 0, sv_done = 0, sv_status = Running\<rparr>"

definition serve_inv :: "control_persist \<Rightarrow> serve \<Rightarrow> bool" where
  "serve_inv persist s \<longleftrightarrow> sv_active s = sv_running s + sv_done s
     \<and> (sv_status s = Left \<longrightarrow> sv_active s = 0 \<and> persist_idle_timeout persist \<noteq> None)"

lemma serve_step_inv: "serve_inv persist s \<Longrightarrow> serve_inv persist (serve_step persist s e)"
  by (auto simp: serve_inv_def serve_step_def split: loop_status.split serve_event.split)

interpretation serving: event_loop "serve_step persist" "serve_inv persist" for persist
  by unfold_locales (rule serve_step_inv)

lemma serve_start_inv [simp]: "serve_inv persist serve_start"
  by (simp add: serve_inv_def serve_start_def)

section \<open>Waiting for a master to come up\<close>

text \<open>
  The clock is in milliseconds from the start of the wait. \<open>dial t\<close> is the outcome of an attempt made
  at time \<open>t\<close> and how long it took. Between two attempts the client sleeps 50 milliseconds.
\<close>

definition MASTER_STARTUP_TIMEOUT :: nat where
  "MASTER_STARTUP_TIMEOUT = 5000"

definition MASTER_STARTUP_POLL :: nat where
  "MASTER_STARTUP_POLL = 50"

datatype startup_error = StartupTimedOut | StartupIo io_kind

definition not_up :: "io_kind \<Rightarrow> bool" where
  "not_up e \<longleftrightarrow> e = NotFound \<or> e = ConnectionRefused"

function wait_from ::
  "(nat \<Rightarrow> (io_kind + unit) \<times> nat) \<Rightarrow> nat \<Rightarrow> nat \<Rightarrow> (startup_error + unit) \<times> nat" where
  "wait_from dial deadline now = (case dial now of
      (Inr _, d) \<Rightarrow> (Inr (), now + d)
    | (Inl e, d) \<Rightarrow>
        if \<not> not_up e then (Inl (StartupIo e), now + d)
        else if deadline \<le> now + d then (Inl StartupTimedOut, now + d)
        else wait_from dial deadline (now + d + MASTER_STARTUP_POLL))"
  by pat_completeness auto
termination
  by (relation "measure (\<lambda>(c, deadline, now). deadline - now)") (auto simp: MASTER_STARTUP_POLL_def)

declare wait_from.simps [simp del]

definition wait_for_master :: "(nat \<Rightarrow> (io_kind + unit) \<times> nat) \<Rightarrow> (startup_error + unit) \<times> nat" where
  "wait_for_master dial = wait_from dial MASTER_STARTUP_TIMEOUT 0"

lemma wait_from_bounded:
  assumes "\<forall>t. snd (dial t) \<le> D"
  shows "snd (wait_from dial deadline now) \<le> max now (deadline + MASTER_STARTUP_POLL) + D"
  using assms
proof (induction dial deadline now rule: wait_from.induct)
  case (1 dial deadline now)
  obtain r d where c: "dial now = (r, d)" by fastforce
  with "1.prems" have d: "d \<le> D" by (metis snd_conv)
  show ?case
  proof (cases "\<exists>e. r = Inl e \<and> not_up e \<and> now + d < deadline")
    case True
    then obtain e where r: "r = Inl e" "not_up e" "now + d < deadline" by blast
    with c have "wait_from dial deadline now
        = wait_from dial deadline (now + d + MASTER_STARTUP_POLL)"
      by (simp add: wait_from.simps [of dial deadline now])
    moreover have "snd (wait_from dial deadline (now + d + MASTER_STARTUP_POLL))
        \<le> max (now + d + MASTER_STARTUP_POLL) (deadline + MASTER_STARTUP_POLL) + D"
      using "1.IH" [OF c [symmetric] r(1)] r(2,3) "1.prems" by simp
    ultimately show ?thesis using r(3) by simp
  next
    case False
    with c have "snd (wait_from dial deadline now) = now + d"
      by (auto simp: wait_from.simps [of dial deadline now] split: sum.split)
    with d show ?thesis by simp
  qed
qed

lemma wait_from_finds:
  assumes "\<forall>t. snd (dial t) \<le> D" "up + D < deadline"
    and "\<forall>t \<ge> up. fst (dial t) = Inr ()"
    and "\<forall>t < up. \<exists>e. fst (dial t) = Inl e \<and> not_up e"
  shows "fst (wait_from dial deadline now) = Inr ()"
  using assms
proof (induction dial deadline now rule: wait_from.induct)
  case (1 dial deadline now)
  obtain r d where c: "dial now = (r, d)" by fastforce
  with "1.prems"(1) have d: "d \<le> D" by (metis snd_conv)
  show ?case
  proof (cases "up \<le> now")
    case True
    with "1.prems"(3) c show ?thesis by (auto simp: wait_from.simps [of dial deadline now])
  next
    case False
    with "1.prems"(4) c obtain e where r: "r = Inl e" "not_up e" by (metis fst_conv not_le)
    moreover have "\<not> deadline \<le> now + d" using False d "1.prems"(2) by simp
    ultimately have "wait_from dial deadline now
        = wait_from dial deadline (now + d + MASTER_STARTUP_POLL)"
      using c by (simp add: wait_from.simps [of dial deadline now])
    with "1.IH" [OF c [symmetric] r(1)] r(2) \<open>\<not> deadline \<le> now + d\<close> "1.prems" show ?thesis by simp
  qed
qed

section \<open>Lemmas on the shared forwards\<close>

text \<open>
  On the control stream a handler's requests are those of a client with its own connection: the same
  messages are sent, the same replies read, and the outcome is the same.
\<close>

definition agreed :: "forwards_end \<Rightarrow> bool" where
  "agreed e \<longleftrightarrow> e = ForwardsAgreed"

lemma register_forwards_request:
  "register_forwards fs sh = (e, sh') \<Longrightarrow>
   request_forwards fs (sm_replies sh) (sm_control sh) = (r, ms, k) \<Longrightarrow>
     (agreed e \<longleftrightarrow> r = Inr ()) \<and> sm_control sh' = k \<and> (agreed e \<longrightarrow> sm_replies sh' = ms)"
proof (induction fs arbitrary: sh)
  case (Cons f fs)
  show ?case
  proof (cases "send (TcpForwardRequest (fw_bind_addr f) (fw_bind_port f)) (sm_control sh)")
    case (Pair ok k1)
    with Cons show ?thesis
      by (cases ok)
        (auto simp: register_forward_def agreed_def Let_def send_or_def
          split: list.splits control_message.splits)
  qed
qed (auto simp: agreed_def)

lemma add_spec_keys: "forward_key ` set (add_spec f table) = insert (forward_key f) (forward_key ` set table)"
  by (auto simp: add_spec_def same_forward_def forward_key_def)

lemma add_spec_distinct:
  "distinct (map forward_key table) \<Longrightarrow> distinct (map forward_key (add_spec f table))"
  by (auto simp: add_spec_def same_forward_def forward_key_def)

lemma drop_spec_keys: "forward_key ` set (drop_spec f table) = forward_key ` set table - {forward_key f}"
  by (auto simp: drop_spec_def same_forward_def forward_key_def)

lemma drop_spec_distinct:
  "distinct (map forward_key table) \<Longrightarrow> distinct (map forward_key (drop_spec f table))"
  by (simp add: drop_spec_def distinct_map_filter)

text \<open>The table holds at most one specification for an address.\<close>

lemma register_forward_distinct:
  "distinct (map forward_key (sm_table sh)) \<Longrightarrow> distinct (map forward_key (sm_table (snd (register_forward f sh))))"
  by (simp add: register_forward_def Let_def send_or_def add_spec_distinct drop_spec_distinct
      split: prod.split bool.split list.split control_message.split)

text \<open>A handler whose forwards were all agreed has put their addresses in the table, and nothing else.\<close>

lemma register_forwards_table:
  "register_forwards fs sh = (ForwardsAgreed, sh') \<Longrightarrow>
     forward_key ` set (sm_table sh') = forward_key ` set (sm_table sh) \<union> forward_key ` set fs"
proof (induction fs arbitrary: sh)
  case (Cons f fs)
  obtain e sh1 where 1: "register_forward f sh = (e, sh1)" by fastforce
  with Cons.prems have e: "e = ForwardsAgreed" and 2: "register_forwards fs sh1 = (ForwardsAgreed, sh')"
    by (auto split: forwards_end.splits)
  from 1 e have "sm_table sh1 = add_spec f (sm_table sh)"
    by (auto simp: register_forward_def Let_def send_or_def
        split: prod.splits bool.splits list.splits control_message.splits)
  with Cons.IH [OF 2] show ?case by (auto simp: add_spec_keys)
qed simp

section \<open>Properties\<close>

text \<open>
  The master never leaves a client alone. However its clients come and go, it closes the connection
  only when no handler runs and none has an unread end, and only if it was given an idle time.
\<close>

lemma master_never_abandons_clients:
  assumes "sv_status (foldl (serve_step persist) serve_start es) = Left"
  shows "sv_running (foldl (serve_step persist) serve_start es) = 0
    \<and> sv_done (foldl (serve_step persist) serve_start es) = 0
    \<and> persist_idle_timeout persist \<noteq> None"
  using serving.inv_run [OF serve_start_inv, of persist es] assms by (simp add: serve_inv_def)

lemma master_never_abandons_clients_instance:
  "sv_running (foldl (serve_step (PersistFor 30)) serve_start
     [ClientAccepted, IdleElapsed, HandlerEnded, IdleElapsed, DoneReceived, IdleElapsed]) = 0"
  using master_never_abandons_clients [of "PersistFor 30"
      "[ClientAccepted, IdleElapsed, HandlerEnded, IdleElapsed, DoneReceived, IdleElapsed]"]
  by (simp add: serve_step_def serve_start_def)

lemma handlers_end:
  "sv_status s = Running \<Longrightarrow> n \<le> sv_running s \<Longrightarrow>
     foldl (serve_step persist) s (replicate n HandlerEnded)
       = s\<lparr>sv_running := sv_running s - n, sv_done := sv_done s + n\<rparr>"
  by (induction n arbitrary: s) (simp_all add: serve_step_def)

lemma ends_are_read:
  "sv_status s = Running \<Longrightarrow> n \<le> sv_done s \<Longrightarrow> n \<le> sv_active s \<Longrightarrow>
     foldl (serve_step persist) s (replicate n DoneReceived)
       = s\<lparr>sv_active := sv_active s - n, sv_done := sv_done s - n\<rparr>"
  by (induction n arbitrary: s) (simp_all add: serve_step_def)

text \<open>
  C30: the master does not outlive its use. From every state it can reach, once the handlers that run
  have ended and it has read that they did, the idle time ends its loop; the counter is never off
  so that it would wait for a client that is gone.
\<close>

theorem master_exits_when_idle:
  assumes "s = foldl (serve_step persist) serve_start es" "sv_status s = Running"
    and "persist_idle_timeout persist \<noteq> None"
  shows "sv_status (foldl (serve_step persist) s (replicate (sv_running s) HandlerEnded
      @ replicate (sv_active s) DoneReceived @ [IdleElapsed])) = Left"
proof -
  have "sv_active s = sv_running s + sv_done s"
    using serving.inv_run [OF serve_start_inv, of persist es] assms(1) by (simp add: serve_inv_def)
  with assms(2,3) show ?thesis by (simp add: handlers_end ends_are_read serve_step_def)
qed

theorem master_exits_when_idle_witness:
  "sv_status (foldl (serve_step (PersistFor 5))
     (foldl (serve_step (PersistFor 5)) serve_start [ClientAccepted, ClientAccepted, HandlerEnded])
     [HandlerEnded, DoneReceived, DoneReceived, IdleElapsed]) = Left"
  using master_exits_when_idle [OF refl, of "PersistFor 5"
      "[ClientAccepted, ClientAccepted, HandlerEnded]"]
  by (simp add: serve_step_def serve_start_def numeral_2_eq_2)

text \<open>
  C29: waiting for a background master always ends, at the latest 5.05 seconds and one attempt after it
  began; and a master that accepts from some time on, an attempt before the five seconds are over,
  is found.
\<close>

theorem wait_for_master_ends:
  assumes "\<forall>t. snd (dial t) \<le> D"
  shows "snd (wait_for_master dial) \<le> 5050 + D
    \<and> (up + D < 5000 \<and> (\<forall>t \<ge> up. fst (dial t) = Inr ())
         \<and> (\<forall>t < up. fst (dial t) \<in> {Inl NotFound, Inl ConnectionRefused})
       \<longrightarrow> fst (wait_for_master dial) = Inr ())"
proof (intro conjI impI)
  show "snd (wait_for_master dial) \<le> 5050 + D"
    using wait_from_bounded [OF assms, of MASTER_STARTUP_TIMEOUT 0]
    by (simp add: wait_for_master_def MASTER_STARTUP_TIMEOUT_def MASTER_STARTUP_POLL_def)
  assume a: "up + D < 5000 \<and> (\<forall>t \<ge> up. fst (dial t) = Inr ())
    \<and> (\<forall>t < up. fst (dial t) \<in> {Inl NotFound, Inl ConnectionRefused})"
  then have "\<forall>t < up. \<exists>e. fst (dial t) = Inl e \<and> not_up e" by (auto simp: not_up_def)
  with a show "fst (wait_for_master dial) = Inr ()"
    unfolding wait_for_master_def
    by (intro wait_from_finds [OF assms]) (simp_all add: MASTER_STARTUP_TIMEOUT_def)
qed

theorem wait_for_master_ends_witness:
  "fst (wait_for_master (\<lambda>t. (if t < 120 then Inl NotFound else Inr (), 3))) = Inr ()"
  using wait_for_master_ends [of "\<lambda>t. (if t < 120 then Inl NotFound else Inr (), 3)" 3 120] by simp

text \<open>
  Remote forwards through a shared connection are routed. When the addresses are allowed, no two
  the same and within the limit, a first client's handler has them all agreed, and the master has
  a specification for exactly the addresses the server listens on.
\<close>

lemma shared_forwards_routed:
  assumes "distinct (map forward_key fws)" "length fws \<le> max_remote_forwards_per_connection cfg"
    and "\<forall>f \<in> set fws.
      remote_forward_allowed (fw_bind_addr f) (fw_bind_port f) (remote_forward_allowlist cfg)"
    and "s = foldl (conn_step cfg) (conn_start cfg open_sink) (map forward_event fws)"
    and "register_forwards fws \<lparr>sm_table = [], sm_replies = sent (c_control s), sm_control = open_sink\<rparr>
      = (e, sh)"
  shows "e = ForwardsAgreed \<and> forward_key ` set (sm_table sh) = snd ` set (c_listeners s)"
proof -
  have s: "sent (c_control s) = map (\<lambda>f. TcpForwardConfirm (fw_bind_port f)) fws"
      "map snd (c_listeners s) = map forward_key fws"
    using server_confirms [of "conn_start cfg open_sink" fws cfg] assms(1-4)
    by (simp_all add: conn_start_def)
  have "agreed e"
    using register_forwards_request [OF assms(5)] client_accepts_confirms [of open_sink fws "[]"] s(1)
    by simp
  then have e: "e = ForwardsAgreed" by (simp add: agreed_def)
  moreover have "forward_key ` set (sm_table sh) = forward_key ` set fws"
    using register_forwards_table [OF assms(5) [unfolded e]] by simp
  moreover have "snd ` set (c_listeners s) = forward_key ` set fws"
    using arg_cong [OF s(2), of set] by simp
  ultimately show ?thesis by simp
qed

text \<open>
  C34: repeating a remote forward breaks it. When a second client asks for a forward that a first one
  has (or the same client again, since nothing cancels a forward when its client goes), the server
  refuses it as already active and keeps listening, but the master drops the first client's
  specification: every connection to the address is refused from then on.
\<close>

theorem repeated_forward_breaks_routing:
  assumes "remote_forward_allowed (fw_bind_addr f) (fw_bind_port f) (remote_forward_allowlist cfg)"
    and "0 < max_remote_forwards_per_connection cfg" "same_forward f g" "tp_port p = fw_bind_port f"
    and "s = foldl (conn_step cfg) (conn_start cfg open_sink) [forward_event f, forward_event g]"
    and "register_forward f \<lparr>sm_table = [], sm_replies = sent (c_control s), sm_control = open_sink\<rparr>
      = (e1, sh1)"
    and "register_forward g sh1 = (e2, sh2)"
  shows "e1 = ForwardsAgreed \<and> (\<exists>d. e2 = ForwardRejected d)
    \<and> forward_key f \<in> snd ` set (c_listeners s)
    \<and> fst (handle_remote_forward_stream dial (sm_table sh2)
        (Open ForwardedTcpip (ForwardedTcpipParams p) # rest) k) = ForwardErr (NoHandler (tp_port p))"
proof -
  let ?refused = "TcpForwardFailure (''remote forward already active for '' @ show_key (forward_key f))"
  have g: "fw_bind_addr g = fw_bind_addr f" "fw_bind_port g = fw_bind_port f"
    using assms(3) by (simp_all add: same_forward_def)
  have s: "sent (c_control s) = [TcpForwardConfirm (fw_bind_port f), ?refused]"
      "map snd (c_listeners s) = [forward_key f]"
    using assms(1,2,5) g
    by (simp_all add: conn_start_def forward_event_def conn_step_def control_received_def
        forward_request_def control_send_def forward_key_def)
  with assms(6,7) g show ?thesis
    by (auto simp: register_forward_def add_spec_def drop_spec_def same_forward_def
        handle_remote_forward_stream_def)
qed

section \<open>Witnesses\<close>

definition demo_replies :: "forward_spec list \<Rightarrow> shared_control" where
  "demo_replies fws = \<lparr>sm_table = [], sm_replies = sent (c_control (foldl (conn_step demo_config)
     (conn_start demo_config open_sink) (map forward_event fws))), sm_control = open_sink\<rparr>"

lemma shared_forwards_routed_instance:
  "\<exists>sh. register_forwards [demo_local] (demo_replies [demo_local]) = (ForwardsAgreed, sh)
     \<and> forward_key ` set (sm_table sh) = {(''localhost'', 8080)}"
proof -
  obtain e sh where r: "register_forwards [demo_local] (demo_replies [demo_local]) = (e, sh)" by fastforce
  have "e = ForwardsAgreed \<and> forward_key ` set (sm_table sh) = snd ` set (c_listeners
      (foldl (conn_step demo_config) (conn_start demo_config open_sink) (map forward_event [demo_local])))"
    using r unfolding demo_replies_def
    by (intro shared_forwards_routed [OF _ _ _ refl]) (simp_all add: demo_local_def)
  with r show ?thesis
    by (simp add: demo_local_def conn_start_def forward_event_def conn_step_def control_received_def
        forward_request_def control_send_def forward_key_def)
qed

theorem repeated_forward_breaks_routing_witness:
  "\<exists>sh1 sh2 d. register_forward demo_local (demo_replies [demo_local, demo_local]) = (ForwardsAgreed, sh1)
     \<and> register_forward demo_local sh1 = (ForwardRejected d, sh2)
     \<and> fst (handle_remote_forward_stream (\<lambda>_. None) (sm_table sh2)
         [Open ForwardedTcpip (ForwardedTcpipParams
           \<lparr>tp_host = ''localhost'', tp_port = 8080, tp_originator_addr = ''h'', tp_originator_port = 1\<rparr>)]
         open_sink) = ForwardErr (NoHandler 8080)"
proof -
  let ?p = "\<lparr>tp_host = ''localhost'', tp_port = 8080, tp_originator_addr = ''h'', tp_originator_port = 1\<rparr>"
  obtain e1 sh1 where 1: "register_forward demo_local (demo_replies [demo_local, demo_local]) = (e1, sh1)"
    by fastforce
  obtain e2 sh2 where 2: "register_forward demo_local sh1 = (e2, sh2)" by fastforce
  have "remote_forward_allowed (fw_bind_addr demo_local) (fw_bind_port demo_local)
      (remote_forward_allowlist demo_config)" "0 < max_remote_forwards_per_connection demo_config"
    "same_forward demo_local demo_local" "tp_port ?p = fw_bind_port demo_local"
    by (simp_all add: demo_local_def same_forward_def)
  from repeated_forward_breaks_routing [OF this refl _ 2, of e1 "\<lambda>_. None" "[]" open_sink] 1 2
  show ?thesis by (auto simp: demo_replies_def)
qed

end
