(* ===== verification/Control_Socket.thy ===== *)
theory Control_Socket
  imports Control_Master
begin

text \<open>
  The socket of a shared connection and the way to it, \<^verbatim>\<open>sqsh/src/control.rs\<close>: the files
  (\<^verbatim>\<open>prepare_socket_path\<close>, \<^verbatim>\<open>remove_socket_file\<close>, \<^verbatim>\<open>run_master\<close>), the request that finds a master or
  starts one (\<^verbatim>\<open>run_via_master_or_spawn\<close>), and the command line of the started one. The argument
  parser (clap) is a parameter.
\<close>

datatype control_error =
    SocketFile file_error
  | NotASocket path
  | SlaveSession slave_failure
  | Startup startup_error
  | DidNotAccept path

definition ctl_io :: "(io_kind + 'a) \<times> fsys \<Rightarrow> (control_error + 'a) \<times> fsys" where
  "ctl_io r = (case r of (Inl e, fs) \<Rightarrow> (Inl (SocketFile (FileIo e)), fs) | (Inr a, fs) \<Rightarrow> (Inr a, fs))"

section \<open>Socket files\<close>

definition is_unix_socket :: "fnode \<Rightarrow> bool" where
  "is_unix_socket n \<longleftrightarrow> nd_kind n = Socket"

definition remove_socket_file :: "path \<Rightarrow> fsys \<Rightarrow> (control_error + unit) \<times> fsys" where
  "remove_socket_file p fs = (case metadata p fs of
      Inl e \<Rightarrow> if e = NotFound then (Inr (), fs) else (Inl (SocketFile (FileIo e)), fs)
    | Inr m \<Rightarrow> if \<not> is_unix_socket m then (Inl (NotASocket p), fs) else ctl_io (remove_file p fs))"

definition remove_stale_socket :: "path \<Rightarrow> fsys \<Rightarrow> (control_error + unit) \<times> fsys" where
  "remove_stale_socket p fs = remove_socket_file p fs"

definition set_owner_only_permissions :: "path \<Rightarrow> fsys \<Rightarrow> (io_kind + unit) \<times> fsys" where
  "set_owner_only_permissions p fs = set_permissions p mode_700 fs"

definition prepare_socket_path :: "path \<Rightarrow> fsys \<Rightarrow> (control_error + unit) \<times> fsys" where
  "prepare_socket_path p fs = then_do
     (case parent p of
        None \<Rightarrow> (Inr (), fs)
      | Some d \<Rightarrow> then_do (ctl_io (create_dir_all d fs)) (\<lambda>_ fs. ctl_io (set_owner_only_permissions d fs)))
     (\<lambda>_ fs. remove_socket_file p fs)"

text \<open>
  \<open>run_master\<close> up to its loop, and what follows the loop when an idle time has ended it: the file at the
  path is removed, whatever it is, and a failure to do so is ignored.
\<close>

definition run_master :: "client_config \<Rightarrow> fsys \<Rightarrow> (control_error + unit) \<times> fsys" where
  "run_master cc fs = then_do (prepare_socket_path (cc_control_path cc) fs)
     (\<lambda>_ fs. ctl_io (bind_socket (cc_control_path cc) fs))"

definition leave_master :: "client_config \<Rightarrow> fsys \<Rightarrow> fsys" where
  "leave_master cc fs = snd (remove_file (cc_control_path cc) fs)"

section \<open>Finding a master or starting one\<close>

text \<open>\<open>dialled\<close> is what connecting to the socket gave; \<open>session\<close> is how the session over it ended.\<close>

definition send_request_to_master ::
  "client_config \<Rightarrow> io_kind + unit \<Rightarrow> slave_failure + unit \<Rightarrow> fsys \<Rightarrow> (control_error + bool) \<times> fsys" where
  "send_request_to_master cc dialled session fs = (case dialled of
      Inl e \<Rightarrow>
        if e = NotFound then (Inr False, fs)
        else if e = ConnectionRefused
          then then_do (remove_stale_socket (cc_control_path cc) fs) (\<lambda>_ fs. (Inr False, fs))
        else (Inl (SocketFile (FileIo e)), fs)
    | Inr _ \<Rightarrow> (case session of Inl e \<Rightarrow> (Inl (SlaveSession e), fs) | Inr _ \<Rightarrow> (Inr True, fs)))"

text \<open>
  The world around the request: the outcome of both dials, what starting the process does to the files
  until it is up (\<open>Inl\<close>: it cannot be started), and the attempts of the wait.
\<close>

record master_world =
  mw_first :: "io_kind + unit"
  mw_spawn :: "fsys \<Rightarrow> (io_kind + unit) \<times> fsys"
  mw_poll :: "nat \<Rightarrow> (io_kind + unit) \<times> nat"
  mw_second :: "io_kind + unit"

definition run_via_master_or_spawn ::
  "client_config \<Rightarrow> master_world \<Rightarrow> slave_failure + unit \<Rightarrow> fsys \<Rightarrow> (control_error + bool) \<times> fsys" where
  "run_via_master_or_spawn cc w session fs =
     then_do (send_request_to_master cc (mw_first w) session fs) (\<lambda>ok fs1.
       if ok then (Inr True, fs1)
       else if \<not> persist_is_enabled (cc_control_persist cc) then (Inr False, fs1)
       else then_do (ctl_io (mw_spawn w fs1)) (\<lambda>_ fs2.
         case fst (wait_for_master (mw_poll w)) of
           Inl e \<Rightarrow> (Inl (Startup e), fs2)
         | Inr _ \<Rightarrow> then_do (send_request_to_master cc (mw_second w) session fs2) (\<lambda>ok fs3.
             if ok then (Inr True, fs3) else (Inl (DidNotAccept (cc_control_path cc)), fs3))))"

section \<open>The started master\<close>

definition spawn_master_args :: "client_config \<Rightarrow> string list" where
  "spawn_master_args cc =
     [''--control-master'', ''--control-path'', path_text (cc_control_path cc),
      ''--control-persist'',
      (case persist_as_arg (cc_control_persist cc) of Some s \<Rightarrow> s | None \<Rightarrow> ''yes''),
      ''-p'', show_u16 (cc_port cc), ''-l'', cc_username cc,
      ''-i'', path_text (cc_identity_path cc), cc_host cc]"

section \<open>Lemmas on the files\<close>

lemma ctl_io_simps [simp]:
  "ctl_io (Inl e, fs) = (Inl (SocketFile (FileIo e)), fs)" "ctl_io (Inr a, fs) = (Inr a, fs)"
  by (simp_all add: ctl_io_def)

lemma ctl_io_InrD: "ctl_io r = (Inr a, fs) \<Longrightarrow> r = (Inr a, fs)"
  by (auto simp: ctl_io_def split: prod.splits sum.splits)

lemma ctl_io_snd: "ctl_io r0 = (r, fs) \<Longrightarrow> fs = snd r0"
  by (auto simp: ctl_io_def split: prod.splits sum.splits)

text \<open>Everything but a socket at the path keeps its kind and contents.\<close>

definition kept_but_socket :: "string list \<Rightarrow> fsys \<Rightarrow> fsys \<Rightarrow> bool" where
  "kept_but_socket here fs fs' \<longleftrightarrow> (\<forall>q n. nodes fs q = Some n \<longrightarrow> q = here \<and> nd_kind n = Socket
     \<or> (\<exists>n'. nodes fs' q = Some n' \<and> nd_data n' = nd_data n \<and> nd_kind n' = nd_kind n))"

lemma kept_but_socket_kept: "contents_kept fs fs' \<Longrightarrow> kept_but_socket here fs fs'"
  unfolding contents_kept_def kept_but_socket_def by blast

lemma kept_but_socket_trans:
  "kept_but_socket here a b \<Longrightarrow> kept_but_socket here b c \<Longrightarrow> kept_but_socket here a c"
  unfolding kept_but_socket_def by metis

lemma remove_file_cases:
  "snd (remove_file p fs) = fs \<or> snd (remove_file p fs) = fs\<lparr>nodes := (nodes fs)(resolve fs p := None)\<rparr>"
  by (auto simp: remove_file_def split: option.split)

lemma remove_socket_file_cases:
  assumes "remove_socket_file p fs = (r, fs')"
  shows "fs' = fs \<or> (\<exists>n. nodes fs (resolve fs p) = Some n \<and> nd_kind n = Socket)
    \<and> fs' = fs\<lparr>nodes := (nodes fs)(resolve fs p := None)\<rparr>"
proof (cases "metadata p fs")
  case (Inr m)
  with assms have m: "nodes fs (resolve fs p) = Some m" and
      "if is_unix_socket m then ctl_io (remove_file p fs) = (r, fs') else fs' = fs"
    by (auto simp: remove_socket_file_def metadata_def ok_or_def split: option.splits if_splits)
  then show ?thesis using remove_file_cases [of p fs]
    by (auto simp: is_unix_socket_def dest!: ctl_io_snd split: if_splits)
qed (use assms in \<open>auto simp: remove_socket_file_def split: if_splits\<close>)

lemma remove_socket_file_kept:
  "remove_socket_file p fs = (r, fs') \<Longrightarrow> kept_but_socket (resolve fs p) fs fs'"
  by (drule remove_socket_file_cases) (fastforce simp: kept_but_socket_def)

lemma remove_socket_file_setting:
  "remove_socket_file p fs = (r, fs') \<Longrightarrow> same_setting fs fs'"
  by (drule remove_socket_file_cases) (auto simp: same_setting_def)

lemma remove_socket_file_free:
  "remove_socket_file p fs = (Inr (), fs') \<Longrightarrow> fs_check Stat p fs = None \<Longrightarrow>
     nodes fs' (resolve fs p) = None \<and> (\<forall>q. q \<noteq> resolve fs p \<longrightarrow> nodes fs' q = nodes fs q)"
  by (auto simp: remove_socket_file_def metadata_def ok_or_def remove_file_def is_unix_socket_def
      dest!: ctl_io_InrD split: sum.splits option.splits if_splits)

lemma prepare_parent:
  assumes "(case parent p of None \<Rightarrow> (Inr (), fs)
      | Some d \<Rightarrow> then_do (ctl_io (create_dir_all d fs)) (\<lambda>_ fs. ctl_io (set_owner_only_permissions d fs)))
    = (r, fs1)"
  shows "same_setting fs fs1 \<and> contents_kept fs fs1
    \<and> (\<forall>d. r = Inr () \<and> parent p = Some d \<longrightarrow>
        (\<exists>n. nodes fs1 (resolve fs d) = Some n \<and> nd_mode n = mode_700))"
proof (cases "parent p")
  case None
  with assms show ?thesis by simp
next
  case (Some d)
  obtain r0 fs0 where 0: "create_dir_all d fs = (r0, fs0)" by fastforce
  note k0 = create_dir_all_setting [OF 0] create_dir_all_keeps [OF 0]
  show ?thesis
  proof (cases r0)
    case (Inl e)
    with assms Some 0 k0 show ?thesis by auto
  next
    case (Inr u)
    obtain r1 f1 where 1: "set_permissions d mode_700 fs0 = (r1, f1)" by fastforce
    note k1 = set_permissions_setting [OF 1] set_permissions_keeps [OF 1]
    have "\<exists>n. nodes f1 (resolve fs d) = Some n \<and> nd_mode n = mode_700" if "r1 = Inr ()"
      using 1 that same_settingD(4) [OF k0(1)]
      by (auto simp: set_permissions_def split: option.splits)
    moreover have "fs1 = f1" "r = Inr () \<longrightarrow> r1 = Inr ()"
      using assms Some 0 1 Inr by (auto simp: set_owner_only_permissions_def ctl_io_def split: sum.splits)
    ultimately show ?thesis
      using Some k0 k1 by (auto intro: same_setting_trans contents_kept_trans)
  qed
qed

lemma prepare_socket_path_kept:
  assumes "prepare_socket_path p fs = (r, fs')"
  shows "same_setting fs fs' \<and> kept_but_socket (resolve fs p) fs fs'"
proof -
  obtain r0 fs0 where 0: "(case parent p of None \<Rightarrow> (Inr (), fs)
      | Some d \<Rightarrow> then_do (ctl_io (create_dir_all d fs)) (\<lambda>_ fs. ctl_io (set_owner_only_permissions d fs)))
    = (r0, fs0)" by fastforce
  note k = prepare_parent [OF this]
  show ?thesis
  proof (cases r0)
    case (Inl e)
    with assms 0 k show ?thesis by (auto simp: prepare_socket_path_def intro: kept_but_socket_kept)
  next
    case (Inr u)
    with assms 0 have "remove_socket_file p fs0 = (r, fs')" by (simp add: prepare_socket_path_def)
    moreover from this have "kept_but_socket (resolve fs p) fs0 fs'"
      using remove_socket_file_kept [of p fs0] k by (auto simp: same_settingD)
    ultimately show ?thesis
      using k remove_socket_file_setting
      by (auto intro: same_setting_trans kept_but_socket_trans kept_but_socket_kept)
  qed
qed

lemma bind_socket_keeps: "bind_socket p fs = (r, fs') \<Longrightarrow> contents_kept fs fs'"
  by (auto simp: bind_socket_def contents_kept_def split: option.splits if_splits)

lemma run_master_setting:
  assumes "run_master cc fs = (r, fs')"
  shows "same_setting fs fs'"
proof -
  obtain r0 fs0 where 0: "prepare_socket_path (cc_control_path cc) fs = (r0, fs0)" by fastforce
  with assms have "fs' = fs0 \<or> fs' = snd (bind_socket (cc_control_path cc) fs0)"
    by (cases r0) (auto simp: run_master_def dest: ctl_io_snd)
  with prepare_socket_path_kept [OF 0] bind_socket_setting show ?thesis
    by (metis prod.collapse same_setting_trans)
qed

text \<open>A started master's socket, in its private directory.\<close>

lemma run_master_socket:
  assumes "run_master cc fs = (Inr (), fs')" "cc_control_path cc = Path a (ds @ [name])" "name \<noteq> ''.''"
  shows "(\<exists>n. nodes fs' (resolve fs (cc_control_path cc)) = Some n \<and> nd_kind n = Socket)
    \<and> (\<exists>n. nodes fs' (resolve fs (Path a ds)) = Some n \<and> nd_mode n = mode_700 \<and> nd_kind n = Directory)"
proof -
  let ?p = "cc_control_path cc" and ?d = "Path a ds"
  have d: "parent ?p = Some ?d" by (cases ds) (simp_all add: assms(2) butlast_append)
  have here: "resolve f ?p = resolve f ?d @ [name]" for f using assms(2,3) by (simp add: resolve_def)
  obtain fs0 where 0: "prepare_socket_path ?p fs = (Inr (), fs0)" "bind_socket ?p fs0 = (Inr (), fs')"
    using assms(1) by (auto simp: run_master_def dest!: ctl_io_InrD elim!: then_do_InrE)
  obtain f1 where 1: "then_do (ctl_io (create_dir_all ?d fs)) (\<lambda>_ fs. ctl_io (set_owner_only_permissions ?d fs))
      = (Inr (), f1)" "remove_socket_file ?p f1 = (Inr (), fs0)"
    using 0(1) d by (auto simp: prepare_socket_path_def elim!: then_do_InrE)
  obtain n where n: "same_setting fs f1" "nodes f1 (resolve fs ?d) = Some n" "nd_mode n = mode_700"
    using prepare_parent [of fs ?p "Inr ()" f1] d 1(1) by auto
  have f0: "same_setting f1 fs0" "nodes fs0 (resolve fs ?d) = Some n"
    using remove_socket_file_setting [OF 1(2)] remove_socket_file_cases [OF 1(2)] n(2)
    by (auto simp: here resolve_cong [OF same_settingD(1) [OF n(1)]])
  have s0: "resolve fs0 q = resolve fs q" for q
    using same_settingD(4) [OF same_setting_trans [OF n(1) f0(1)]] by simp
  then show ?thesis using 0(2) f0(2) n(3)
    by (auto simp: bind_socket_def parent_is_dir_def here put_node_def s0 split: option.splits if_splits)
qed

lemma run_master_kept:
  assumes "run_master cc fs = (r, fs')"
  shows "kept_but_socket (resolve fs (cc_control_path cc)) fs fs'"
proof -
  obtain r0 fs0 where 0: "prepare_socket_path (cc_control_path cc) fs = (r0, fs0)" by fastforce
  with assms have "fs' = fs0 \<or> fs' = snd (bind_socket (cc_control_path cc) fs0)"
    by (cases r0) (auto simp: run_master_def dest: ctl_io_snd)
  with prepare_socket_path_kept [OF 0] show ?thesis
    by (metis bind_socket_keeps kept_but_socket_kept kept_but_socket_trans prod.collapse)
qed

section \<open>Properties of the socket files\<close>

text \<open>
  Becoming a master takes no file but a stale socket. Whatever happens, every file and directory
  keeps its contents, the only node that may go is a socket at the control path; and a master that
  starts has its socket there, in a directory only its owner can enter.
\<close>

lemma master_takes_only_sockets:
  assumes "run_master cc fs = (r, fs')" "cc_control_path cc = Path a (ds @ [name])" "name \<noteq> ''.''"
  shows "kept_but_socket (resolve fs (cc_control_path cc)) fs fs'
    \<and> (r = Inr () \<longrightarrow>
        (\<exists>n. nodes fs' (resolve fs (cc_control_path cc)) = Some n \<and> nd_kind n = Socket)
        \<and> (\<exists>n. nodes fs' (resolve fs (Path a ds)) = Some n \<and> nd_mode n = mode_700 \<and> nd_kind n = Directory))"
  using run_master_kept [OF assms(1)] run_master_socket [OF _ assms(2,3)] assms(1) by blast

definition demo_shared :: client_config where
  "demo_shared = demo_client\<lparr>cc_control_path := Path True [''home'', ''.config'', ''s''],
     cc_control_persist := PersistFor 60\<rparr>"

lemmas socket_eval = run_master_def prepare_socket_path_def remove_socket_file_def is_unix_socket_def
  set_owner_only_permissions_def bind_socket_def remove_file_def

lemma demo_run_master: "\<exists>fs'. run_master demo_shared demo_fs = (Inr (), fs')"
  by (simp add: socket_eval fs_eval demo_shared_def Let_def)

lemma master_takes_only_sockets_instance:
  "\<exists>fs'. run_master demo_shared demo_fs = (Inr (), fs')
     \<and> (\<exists>n. nodes fs' [''home'', ''.config'', ''s''] = Some n \<and> nd_kind n = Socket)"
proof -
  obtain fs' where r: "run_master demo_shared demo_fs = (Inr (), fs')" using demo_run_master by blast
  have "cc_control_path demo_shared = Path True ([''home'', ''.config''] @ [''s''])"
    by (simp add: demo_shared_def)
  from master_takes_only_sockets [OF r this] r show ?thesis
    by (auto simp: demo_shared_def resolve_def)
qed

text \<open>
  Two masters on one path. The second takes the first one's socket although it is in use; and when
  the first one's idle time ends its loop, it removes the second one's: the second then waits where
  no client finds it.
\<close>

lemma first_master_removes_seconds_socket:
  assumes "run_master cc fs = (Inr (), fs1)" "cc_control_path cc = Path a (ds @ [name])" "name \<noteq> ''.''"
    and "fault fs = (\<lambda>_ _. None)" "a \<or> ds \<noteq> []"
  shows "\<exists>fs2. run_master cc fs1 = (Inr (), fs2)
    \<and> nodes (leave_master cc fs2) (resolve fs (cc_control_path cc)) = None"
proof -
  let ?p = "cc_control_path cc" and ?d = "Path a ds"
  have d: "parent ?p = Some ?d" by (cases ds) (simp_all add: assms(2) butlast_append)
  have e: "\<not> empty_path ?d" "\<not> empty_path ?p" using assms(2,5) by (auto simp: empty_path_def)
  have here: "resolve f ?p = resolve f ?d @ [name]" for f using assms(2,3) by (simp add: resolve_def)
  obtain s n where n: "nodes fs1 (resolve fs ?p) = Some s" "nd_kind s = Socket"
      "nodes fs1 (resolve fs ?d) = Some n" "nd_kind n = Directory"
    using run_master_socket [OF assms(1-3)] by blast
  note set1 = same_settingD [OF run_master_setting [OF assms(1)]]
  have ok: "fs_check op q fs1 = None" if "\<not> empty_path q" for op q
    using that assms(4) set1(2) by (simp add: fs_check_def)
  let ?f1 = "put_node ?d (n\<lparr>nd_mode := mode_700\<rparr>) fs1"
  obtain f2 where f2: "f2 = ?f1\<lparr>nodes := (nodes ?f1)(resolve fs ?p := None)\<rparr>" by blast
  have "create_dir_all ?d fs1 = (Inr (), fs1)"
    using n ok e set1(4) by (simp add: create_dir_all_def is_dir_def metadata_def)
  moreover have "set_permissions ?d mode_700 fs1 = (Inr (), ?f1)"
    using n ok e set1(4) by (simp add: set_permissions_def)
  moreover have "remove_socket_file ?p ?f1 = (Inr (), f2)"
    using n ok e set1(4) here [of fs]
    by (simp add: f2 remove_socket_file_def metadata_def is_unix_socket_def remove_file_def)
  ultimately have p: "prepare_socket_path ?p fs1 = (Inr (), f2)"
    using d by (simp add: prepare_socket_path_def set_owner_only_permissions_def)
  have "resolve f2 ?p = resolve fs ?d @ [name]" using set1(1) here [of f2] by (simp add: f2 resolve_def)
  moreover have "fs_check BindSocket ?p f2 = None" using e(2) assms(4) set1(2) by (simp add: f2 fs_check_def)
  moreover have "nodes f2 (resolve fs ?d @ [name]) = None"
      "nodes f2 (resolve fs ?d) = Some (n\<lparr>nd_mode := mode_700\<rparr>)"
    using here [of fs] set1(4) by (simp_all add: f2)
  ultimately have "\<exists>fs2. bind_socket ?p f2 = (Inr (), fs2)"
    using n(4) by (simp add: bind_socket_def parent_is_dir_def)
  then obtain fs2 where b: "bind_socket ?p f2 = (Inr (), fs2)" by blast
  with p have r: "run_master cc fs1 = (Inr (), fs2)" by (simp add: run_master_def)
  note set2 = same_settingD [OF run_master_setting [OF r]]
  have "nodes fs2 (resolve fs ?p) \<noteq> None \<and> (\<forall>n. nodes fs2 (resolve fs ?p) = Some n \<longrightarrow> nd_kind n = Socket)"
    using run_master_socket [OF r assms(2,3)] set1(4) by auto
  then have "nodes (leave_master cc fs2) (resolve fs ?p) = None"
    using e(2) assms(4) set1(2,4) set2(2,4)
    by (auto simp: leave_master_def remove_file_def fs_check_def)
  with r show ?thesis by blast
qed

lemma first_master_removes_seconds_socket_instance:
  "\<exists>fs1 fs2. run_master demo_shared demo_fs = (Inr (), fs1) \<and> run_master demo_shared fs1 = (Inr (), fs2)
     \<and> nodes (leave_master demo_shared fs2) [''home'', ''.config'', ''s''] = None"
proof -
  obtain fs1 where r: "run_master demo_shared demo_fs = (Inr (), fs1)" using demo_run_master by blast
  have p: "cc_control_path demo_shared = Path True ([''home'', ''.config''] @ [''s''])"
    by (simp add: demo_shared_def)
  have "fault demo_fs = (\<lambda>_ _. None)" by (simp add: demo_fs_def)
  from first_master_removes_seconds_socket [OF r p _ this] r show ?thesis
    by (auto simp: p resolve_def)
qed

section \<open>Properties of the way to a master\<close>

text \<open>
  A session runs once. A client goes on to a connection of its own only when no master answered
  and none was started, so what the session does over a shared connection is never done again; and
  looking for the master took no file but a stale socket.
\<close>

lemma no_session_twice:
  assumes "run_via_master_or_spawn cc w session fs = (Inr took, fs')"
    and "connect_route cc took = RouteDirect" "connect_route cc True = RouteViaMaster"
  shows "mw_first w \<in> {Inl NotFound, Inl ConnectionRefused} \<and> cc_control_persist cc = Disabled
    \<and> kept_but_socket (resolve fs (cc_control_path cc)) fs fs'"
proof -
  have "\<not> took" using assms(2,3) by (auto simp: connect_route_def split: if_splits)
  then obtain f1 where s: "send_request_to_master cc (mw_first w) session fs = (Inr False, f1)"
      and p: "\<not> persist_is_enabled (cc_control_persist cc)" "fs' = f1"
    using assms(1)
    by (auto simp: run_via_master_or_spawn_def elim!: then_do_InrE split: if_splits sum.splits)
  from s have "mw_first w \<in> {Inl NotFound, Inl ConnectionRefused}
      \<and> kept_but_socket (resolve fs (cc_control_path cc)) fs f1"
    using kept_but_socket_kept [OF contents_kept_refl]
    by (auto simp: send_request_to_master_def remove_stale_socket_def elim!: then_do_InrE
        dest: remove_socket_file_kept split: sum.splits if_splits)
  with p show ?thesis by (simp add: persist_is_enabled_def)
qed

definition demo_world :: master_world where
  "demo_world = \<lparr>mw_first = Inl NotFound, mw_spawn = (\<lambda>fs. (Inr (), fs)), mw_poll = (\<lambda>t. (Inr (), 0)),
     mw_second = Inr ()\<rparr>"

lemma no_session_twice_instance:
  "mw_first demo_world \<noteq> Inr ()
     \<and> run_via_master_or_spawn (demo_client\<lparr>cc_control_path_explicit := True, cc_control_persist := Disabled\<rparr>)
         demo_world (Inr ()) demo_fs = (Inr False, demo_fs)"
proof -
  let ?cc = "demo_client\<lparr>cc_control_path_explicit := True, cc_control_persist := Disabled\<rparr>"
  have r: "run_via_master_or_spawn ?cc demo_world (Inr ()) demo_fs = (Inr False, demo_fs)"
    by (simp add: run_via_master_or_spawn_def send_request_to_master_def demo_world_def
        persist_is_enabled_def)
  have "connect_route ?cc False = RouteDirect" "connect_route ?cc True = RouteViaMaster"
    by (simp_all add: connect_route_def persist_is_enabled_def demo_client_def)
  from no_session_twice [OF r this] r show ?thesis by auto
qed

section \<open>Properties of the started master\<close>

text \<open>
  What clap documents of the options \<^verbatim>\<open>main.rs\<close> declares: an option takes the value after it, the
  word left is the target, and the rest has its default.
\<close>

definition option_value :: "string \<Rightarrow> bool" where
  "option_value s \<longleftrightarrow> s \<noteq> [] \<and> \<not> starts_with ''-'' s"

definition master_args :: "string \<Rightarrow> string \<Rightarrow> u16 \<Rightarrow> string \<Rightarrow> string \<Rightarrow> string \<Rightarrow> cli_args" where
  "master_args cp persist p usr ident host =
     \<lparr>a_target = host, a_port = Some p, a_ssh_port = Some 22, a_user = Some usr, a_identity = Some ident,
      a_command = [], a_subsystem = None, a_local_forwards = [], a_remote_forwards = [],
      a_no_shell = False, a_control_path = Some cp, a_control_master = True,
      a_control_persist = Some persist\<rparr>"

definition clap_laws :: "(string list \<Rightarrow> cli_args option) \<Rightarrow> bool" where
  "clap_laws clap \<longleftrightarrow> (\<forall>cp persist p usr ident host.
     list_all option_value [cp, persist, usr, ident, host] \<longrightarrow>
     clap [''--control-master'', ''--control-path'', cp, ''--control-persist'', persist,
       ''-p'', show_u16 p, ''-l'', usr, ''-i'', ident, host]
       = Some (master_args cp persist p usr ident host))"

definition plain_path :: "path \<Rightarrow> bool" where
  "plain_path p \<longleftrightarrow> absolute p \<and> (\<forall>c \<in> set (comps p). c \<noteq> [] \<and> c \<noteq> ''.'' \<and> CHR ''/'' \<notin> set c)"

lemma split_join:
  "\<forall>c \<in> set cs. sep \<notin> set c \<Longrightarrow> split_all sep (join_with [sep] cs) = (if cs = [] then [[]] else cs)"
proof (induction "[sep]" cs rule: join_with.induct)
  case (3 a b as)
  then show ?case by (simp add: split_all_append)
qed (simp_all add: split_all_no_sep)

lemma join_nonempty: "c \<noteq> [] \<Longrightarrow> join_with s (c # cs) \<noteq> []"
  by (cases cs) simp_all

lemma path_text_roundtrip: "plain_path p \<Longrightarrow> path_of_string (path_text p) = p"
proof -
  assume p: "plain_path p"
  have "split_all CHR ''/'' (path_text p) = [] # (if comps p = [] then [[]] else comps p)"
    using p split_join [of "comps p" "CHR ''/''"] by (simp add: path_text_def plain_path_def)
  moreover have "starts_with ''/'' (path_text p)" using p by (simp add: path_text_def plain_path_def starts_with_def)
  moreover have "filter (\<lambda>c. c \<noteq> []) (comps p) = comps p" "filter (\<lambda>c. c \<noteq> ''.'') (comps p) = comps p"
    using p by (auto simp: plain_path_def intro: filter_True)
  ultimately show ?thesis using p by (cases p) (simp add: path_of_string_def Let_def plain_path_def)
qed

lemma path_text_value: "plain_path p \<Longrightarrow> option_value (path_text p)"
  by (simp add: option_value_def path_text_def plain_path_def starts_with_def)

definition plain_host :: "string \<Rightarrow> bool" where
  "plain_host h \<longleftrightarrow> option_value h \<and> hd h \<noteq> CHR ''['' \<and> CHR ''@'' \<notin> set h \<and> CHR '':'' \<notin> set h"

lemma parse_plain_host:
  assumes "plain_host h"
  shows "parse_target h = Inr \<lparr>tg_user = None, tg_host = h, tg_port = None\<rparr>"
proof (cases h)
  case (Cons c cs)
  with assms have "strip_prefix ''['' h = None" by (auto simp: plain_host_def)
  moreover have "rsplit_once CHR '':'' h = None"
    using assms by (subst rsplit_once_None_iff) (simp add: plain_host_def)
  ultimately have "parse_target_address h = Inr (h, None)"
    by (simp add: parse_target_address_def del: rsplit_once_None_iff)
  with assms Cons show ?thesis
    by (simp add: parse_target_def parse_target_user_none plain_host_def del: split_once.simps)
qed (use assms in \<open>simp add: plain_host_def option_value_def\<close>)

lemma persist_arg_value: "persist_as_arg q = Some s \<Longrightarrow> option_value s"
proof (cases q)
  case (PersistFor d)
  assume s: "persist_as_arg q = Some s"
  have "CHR ''-'' \<notin> set (show_nat (unat d))" by (simp add: is_ascii_digit_def code_def)
  then have "\<not> starts_with ''-'' (show_nat (unat d))" by (auto simp: starts_with_def strip_prefix_Some_iff)
  with s PersistFor show ?thesis by (auto simp: option_value_def)
qed (auto simp: option_value_def starts_with_def)

text \<open>
  The started master is for the same server. From the command line it is given, it resolves to the
  host, port, user, key, pinned hosts, socket and idle time of the client that started it, and to being a
  master with no session of its own; provided the configuration file does not rename the host again.
\<close>

lemma started_master_same_server:
  assumes "clap_laws clap" "cc = resolved sha256 home user_env a tg ssh lf rf persist"
    and "persist_is_enabled persist" "plain_host (cc_host cc)" "option_value (cc_username cc)"
    and "plain_path (cc_identity_path cc)" "plain_path (cc_control_path cc)"
    and "load_ssh_config (path_join (path_join home ''.ssh'') ''config'') fs (cc_host cc) = Inr ssh2"
    and "sh_host_name ssh2 \<in> {None, Some (cc_host cc)}"
  shows "\<exists>args m. clap (spawn_master_args cc) = Some args
    \<and> resolve_with_home sha256 home user_env fs args = Inr m
    \<and> cc_host m = cc_host cc \<and> cc_port m = cc_port cc \<and> cc_username m = cc_username cc
    \<and> cc_identity_path m = cc_identity_path cc \<and> cc_known_hosts_path m = cc_known_hosts_path cc
    \<and> cc_control_path m = cc_control_path cc \<and> cc_control_persist m = cc_control_persist cc
    \<and> cc_control_master m \<and> cc_command m = None \<and> cc_subsystem m = None"
proof -
  have p: "cc_control_persist cc = persist" by (simp add: assms(2) resolved_def Let_def)
  obtain s where s: "persist_as_arg persist = Some s"
    using assms(3) by (cases persist) (auto simp: persist_is_enabled_def)
  let ?args = "master_args (path_text (cc_control_path cc)) s (cc_port cc) (cc_username cc)
    (path_text (cc_identity_path cc)) (cc_host cc)"
  have "clap (spawn_master_args cc) = Some ?args"
    using assms(1,4-7) s persist_arg_value [OF s]
    by (simp add: clap_laws_def spawn_master_args_def p plain_host_def path_text_value)
  moreover have "parse_control_persist (Some s) = Inr persist"
    using control_persist_roundtrip [of persist] s by simp
  then have "resolve_with_home sha256 home user_env fs ?args = Inr (resolved sha256 home user_env ?args
      \<lparr>tg_user = None, tg_host = cc_host cc, tg_port = None\<rparr> ssh2 [] [] persist)"
    using assms(8) parse_plain_host [OF assms(4)]
    by (simp add: resolve_with_home_def master_args_def)
  moreover have "cc_known_hosts_path cc = path_join (path_join (path_join home ''.config'') ''sqsh'') ''known_hosts''"
    by (simp add: assms(2) resolved_def Let_def)
  ultimately show ?thesis
    using assms(6,7,9) by (auto simp: resolved_def Let_def master_args_def path_text_roundtrip p)
qed

definition demo_clap :: "string list \<Rightarrow> cli_args option" where
  "demo_clap ws = (case ws of [_, _, cp, _, persist, _, p, _, usr, _, ident, host] \<Rightarrow>
     map_option (\<lambda>n. master_args cp persist n usr ident host) (parse_u16 p) | _ \<Rightarrow> None)"

definition demo_ssh_args :: cli_args where
  "demo_ssh_args = \<lparr>a_target = ''alice@box'', a_port = None, a_ssh_port = Some 22, a_user = None,
     a_identity = Some ''/home/.config/id'', a_command = [''make''], a_subsystem = None,
     a_local_forwards = [], a_remote_forwards = [], a_no_shell = False,
     a_control_path = Some ''/home/.config/s'', a_control_master = False, a_control_persist = Some ''yes''\<rparr>"

lemma started_master_same_server_instance:
  "\<exists>cc args m. resolve_with_home rev (path_of_string ''/home'') None demo_fs demo_ssh_args = Inr cc
     \<and> demo_clap (spawn_master_args cc) = Some args
     \<and> resolve_with_home rev (path_of_string ''/home'') None demo_fs args = Inr m
     \<and> cc_command cc = Some ''make'' \<and> cc_host m = ''box'' \<and> cc_username m = ''alice''
     \<and> cc_command m = None \<and> cc_control_master m"
proof -
  let ?tg = "\<lparr>tg_user = Some ''alice'', tg_host = ''box'', tg_port = None\<rparr>"
  let ?cc = "resolved rev (path_of_string ''/home'') None demo_ssh_args ?tg default_ssh_host_config [] []
    Forever"
  have load: "load_ssh_config (path_join (path_join (path_of_string ''/home'') ''.ssh'') ''config'') demo_fs h
      = Inr default_ssh_host_config" for h
    by (simp add: load_ssh_config_def read_to_string_def read_def demo_fs_simps path_join_def
        path_of_string_def starts_with_def)
  have "parse_target ''alice@box'' = Inr ?tg"
    using target_roundtrip [of ?tg] by (simp add: show_target_def wf_target_def)
  moreover have "parse_control_persist (Some ''yes'') = Inr Forever"
    using control_persist_roundtrip [of Forever] by simp
  ultimately have cc: "resolve_with_home rev (path_of_string ''/home'') None demo_fs demo_ssh_args = Inr ?cc"
    by (simp add: resolve_with_home_def load demo_ssh_args_def)
  have paths: "cc_identity_path ?cc = Path True [''home'', ''.config'', ''id'']"
      "cc_control_path ?cc = Path True [''home'', ''.config'', ''s'']"
      "cc_host ?cc = ''box''" "cc_username ?cc = ''alice''" "cc_command ?cc = Some ''make''"
    by (simp_all add: resolved_def Let_def demo_ssh_args_def default_ssh_host_config_def
        path_of_string_def starts_with_def)
  have "clap_laws demo_clap" by (simp add: clap_laws_def demo_clap_def)
  moreover have "persist_is_enabled Forever" "plain_host (cc_host ?cc)" "option_value (cc_username ?cc)"
    by (simp_all add: paths persist_is_enabled_def plain_host_def option_value_def starts_with_def)
  moreover have "plain_path (cc_identity_path ?cc)" "plain_path (cc_control_path ?cc)"
    by (simp_all add: paths plain_path_def)
  moreover have "sh_host_name default_ssh_host_config \<in> {None, Some (cc_host ?cc)}"
    by (simp add: default_ssh_host_config_def)
  ultimately have "\<exists>args m. demo_clap (spawn_master_args ?cc) = Some args
      \<and> resolve_with_home rev (path_of_string ''/home'') None demo_fs args = Inr m
      \<and> cc_host m = cc_host ?cc \<and> cc_username m = cc_username ?cc \<and> cc_command m = None
      \<and> cc_control_master m"
    using started_master_same_server [OF _ refl _ _ _ _ _ load] by blast
  with cc paths(3-5) show ?thesis by auto
qed

section \<open>A master whose connection is lost\<close>

lemma register_forwards_lost:
  "room (sm_control sh) = Some 0 \<Longrightarrow> fs \<noteq> [] \<Longrightarrow> \<exists>e sh1. register_forwards fs sh = (ForwardsBroken e, sh1)"
  by (cases fs) (auto simp: register_forward_def send_or_def send_def Let_def)

lemma lost_connection_says_nothing:
  assumes "room (sm_control sh) = Some 0" "\<not> (mr_no_shell req \<and> mr_remote_forwards req = [])"
  shows "h_local (handle_master_client sched (ClientOpen req # rest) None sh l) = l"
proof (cases "mr_remote_forwards req")
  case Nil
  with assms(2) show ?thesis by (simp add: handle_master_client_def Let_def)
next
  case (Cons f fs)
  with register_forwards_lost [OF assms(1), of "f # fs"] obtain e sh1 where
    "register_forwards (mr_remote_forwards req) sh = (ForwardsBroken e, sh1)" by auto
  then show ?thesis by (simp add: handle_master_client_def Let_def)
qed

text \<open>
  A master that lost its connection to the server does not notice: its loop waits for clients and their ends
  only. Without an idle time it serves on for ever, no session can be opened and no forward requested on its
  connection, and each client that finds its socket fails, without an attempt on a connection of its own.
\<close>

lemma lost_connection_strands_clients:
  assumes "persist_idle_timeout persist = None" "AcceptFailed \<notin> set es" "room (sm_control sh) = Some 0"
    and "\<not> (cc_no_shell cc \<and> cc_remote_forwards cc = [])" "room k = None" "mw_first w = Inr ()"
  shows "let ms = sent (h_local (handle_master_client sched
        (ClientOpen (slave_request cc env vars tsize) # rest) None sh open_sink));
      result = fst (run_slave_session cc env vars tsize lt ctrl_c outs ssched ms k)
    in sv_status (foldl (serve_step persist) serve_start es) = Running
      \<and> result = Some (Inl SlaveStreamEnded)
      \<and> run_via_master_or_spawn cc w (the result) fs = (Inl (SlaveSession SlaveStreamEnded), fs)"
proof -
  have "sv_status (foldl (serve_step persist) s es) = Running" if "sv_status s = Running" for s
    using that assms(1,2)
    by (induction es arbitrary: s) (auto simp: serve_step_def split: serve_event.splits)
  moreover have "h_local (handle_master_client sched
      (ClientOpen (slave_request cc env vars tsize) # rest) None sh open_sink) = open_sink"
    using lost_connection_says_nothing [OF assms(3)] assms(4) by (simp add: slave_request_def)
  ultimately show ?thesis
    using assms(5,6)
    by (simp add: run_slave_session_def Let_def send_or_def open_sink_def run_via_master_or_spawn_def
        send_request_to_master_def serve_start_def)
qed

lemma lost_connection_strands_clients_instance:
  "sv_status (foldl (serve_step Forever) serve_start [ClientAccepted, IdleElapsed, HandlerEnded]) = Running
     \<and> run_via_master_or_spawn demo_client (demo_world\<lparr>mw_first := Inr ()\<rparr>) (Inl SlaveStreamEnded) demo_fs
       = (Inl (SlaveSession SlaveStreamEnded), demo_fs)"
proof -
  have "\<not> (cc_no_shell demo_client \<and> cc_remote_forwards demo_client = [])" by (simp add: demo_client_def)
  from lost_connection_strands_clients [of Forever "[ClientAccepted, IdleElapsed, HandlerEnded]"
      "\<lparr>sm_table = [], sm_replies = [], sm_control = open_sink\<lparr>room := Some 0\<rparr>\<rparr>", OF _ _ _ this,
      of open_sink "demo_world\<lparr>mw_first := Inr ()\<rparr>" "\<lambda>_ _. []" "\<lambda>_. None" "[]" None "[]" demo_tty True "(None, None)"
        "\<lambda>_. []" demo_fs]
  show ?thesis by (auto simp: Let_def)
qed

end
