(* ===== verification/Client_Main.thy ===== *)
theory Client_Main
  imports Bootstrap Control_Socket
begin

text \<open>
  The client as a process: \<^verbatim>\<open>connect\<close>, \<^verbatim>\<open>connect_once\<close> and \<^verbatim>\<open>connect_direct\<close> of \<^verbatim>\<open>sqsh/src/connection.rs\<close>, put
  together from the components: the choice of the way, the tasks that are spawned, the session, and the
  second attempt after the key was installed over ssh.
\<close>

datatype main_failure =
    MainClient client_error
  | MainSession session_failure
  | MainControl control_error
  | MainAccept
  | MainSignal
  | MainInstall boot_error

text \<open>The tasks that run beside the session.\<close>

datatype direct_task =
    MigrationMonitor
  | AcceptRemoteForwards "forward_spec list"
  | AcceptSharedForwards
  | LocalListener forward_spec

definition direct_tasks :: "client_config \<Rightarrow> direct_task list" where
  "direct_tasks cc =
     (if cc_remote_forwards cc \<noteq> [] then [AcceptRemoteForwards (cc_remote_forwards cc)] else [])
     @ map LocalListener (cc_local_forwards cc)"

text \<open>
  Everything a run meets: the server's certificate and its messages on the control stream and on the
  channel of the session, the terminal, the events of standard input, whether \<^verbatim>\<open>Ctrl-C\<close> was waited for
  with success, and for the shared ways the socket, the session over it and the events of a master.
\<close>

record main_world =
  mn_resolves :: "string \<Rightarrow> bool"
  mn_presented :: presented
  mn_control :: "control_message list"
  mn_channel :: "channel_message list"
  mn_env :: environment
  mn_vars :: "(string \<times> string) list"
  mn_tsize :: "(u16 \<times> u16) option"
  mn_tty :: local_tty
  mn_out_room :: "nat option"
  mn_stdin :: "stdin_event list"
  mn_ctrl_c :: "bool option"
  mn_socket :: master_world
  mn_shared :: "slave_failure + unit"
  mn_serving :: "serve_event list"

text \<open>How a run ends, \<open>None\<close> while it goes on, and what it has done.\<close>

record main_end =
  me_result :: "(main_failure + unit) option"
  me_tasks :: "direct_task list"
  me_control :: "control_message sink"
  me_channel :: "channel_message sink"
  me_shown :: shown
  me_closed :: bool
  me_fs :: fsys

definition ended :: "(main_failure + unit) option \<Rightarrow> fsys \<Rightarrow> main_end" where
  "ended r fs = \<lparr>me_result = r, me_tasks = [], me_control = open_sink, me_channel = open_sink,
     me_shown = nothing_shown None, me_closed = False, me_fs = fs\<rparr>"

section \<open>A direct connection\<close>

definition connect_direct ::
  "client_library \<Rightarrow> iteration_order \<Rightarrow> client_config \<Rightarrow> main_world \<Rightarrow> fsys \<Rightarrow> main_end" where
  "connect_direct lib order cc w fs =
     (case establish_connection lib order cc (mn_resolves w) (mn_presented w) (mn_control w) open_sink fs of
        ((Inl e, ms, k), fs1) \<Rightarrow> (ended (Some (Inl (MainClient e))) fs1)\<lparr>me_control := k\<rparr>
      | ((Inr _, ms, k), fs1) \<Rightarrow>
          (let start = (ended None fs1)\<lparr>me_tasks := [MigrationMonitor]\<rparr> in
           case request_forwards (cc_remote_forwards cc) ms k of
             (Inl e, ms1, k1) \<Rightarrow> start\<lparr>me_control := k1, me_result := Some (Inl (MainClient e))\<rparr>
           | (Inr _, ms1, k1) \<Rightarrow>
               (let running = start\<lparr>me_control := k1, me_tasks := MigrationMonitor # direct_tasks cc\<rparr> in
                if cc_no_shell cc then (case mn_ctrl_c w of
                    None \<Rightarrow> running
                  | Some False \<Rightarrow> running\<lparr>me_result := Some (Inl MainSignal)\<rparr>
                  | Some True \<Rightarrow> running\<lparr>me_result := Some (Inr ()), me_closed := True\<rparr>)
                else (case session_run cc (mn_env w) (mn_vars w) (mn_tsize w) (mn_tty w) (mn_out_room w)
                    (mn_stdin w) (mn_channel w, open_sink) of
                    None \<Rightarrow> running
                  | Some (Inl e, r, c) \<Rightarrow>
                      running\<lparr>me_result := Some (Inl (MainSession e)), me_shown := r, me_channel := c\<rparr>
                  | Some (Inr _, r, c) \<Rightarrow>
                      running\<lparr>me_result := Some (Inr ()), me_shown := r, me_channel := c, me_closed := True\<rparr>))))"

section \<open>One attempt\<close>

text \<open>
  A master once its socket is bound: its two tasks, the loop over its clients, and at the end of the loop
  the connection closed and the socket removed.
\<close>

definition serve_master ::
  "client_config \<Rightarrow> serve_event list \<Rightarrow> control_message sink \<Rightarrow> fsys \<Rightarrow> main_end" where
  "serve_master cc es k fs =
     (let serving = (ended None fs)\<lparr>me_control := k, me_tasks := [MigrationMonitor, AcceptSharedForwards]\<rparr> in
      case sv_status (foldl (serve_step (cc_control_persist cc)) serve_start es) of
        Left \<Rightarrow> serving\<lparr>me_result := Some (Inr ()), me_closed := True, me_fs := leave_master cc fs\<rparr>
      | Returned _ \<Rightarrow> serving\<lparr>me_result := Some (Inl MainAccept)\<rparr>
      | _ \<Rightarrow> serving)"

definition become_master ::
  "client_library \<Rightarrow> iteration_order \<Rightarrow> client_config \<Rightarrow> main_world \<Rightarrow> fsys \<Rightarrow> main_end" where
  "become_master lib order cc w fs =
     (case establish_connection lib order cc (mn_resolves w) (mn_presented w) (mn_control w) open_sink fs of
        ((Inl e, ms, k), fs1) \<Rightarrow> (ended (Some (Inl (MainClient e))) fs1)\<lparr>me_control := k\<rparr>
      | ((Inr _, ms, k), fs1) \<Rightarrow> (case run_master cc fs1 of
          (Inl e, fs2) \<Rightarrow> (ended (Some (Inl (MainControl e))) fs2)\<lparr>me_control := k\<rparr>
        | (Inr _, fs2) \<Rightarrow> serve_master cc (mn_serving w) k fs2))"

definition connect_once ::
  "client_library \<Rightarrow> iteration_order \<Rightarrow> client_config \<Rightarrow> main_world \<Rightarrow> fsys \<Rightarrow> main_end" where
  "connect_once lib order cc w fs =
     (if cc_subsystem cc \<noteq> None then connect_direct lib order cc w fs
      else if cc_control_master cc then become_master lib order cc w fs
      else if cc_control_path_explicit cc \<or> cc_control_master_auto cc
          \<or> persist_is_enabled (cc_control_persist cc)
      then (case run_via_master_or_spawn cc (mn_socket w) (mn_shared w) fs of
          (Inl e, fs1) \<Rightarrow> ended (Some (Inl (MainControl e))) fs1
        | (Inr True, fs1) \<Rightarrow> ended (Some (Inr ())) fs1
        | (Inr False, fs1) \<Rightarrow> connect_direct lib order cc w fs1)
      else connect_direct lib order cc w fs)"

section \<open>The retry\<close>

text \<open>\<open>w1\<close> and \<open>w2\<close> are what the two attempts meet; \<open>log\<close> collects the processes that install the key.\<close>

definition connect_main ::
  "client_library \<Rightarrow> iteration_order \<Rightarrow> (byte list \<Rightarrow> string) \<Rightarrow> client_config \<Rightarrow> main_world
    \<Rightarrow> boot_world \<Rightarrow> main_world \<Rightarrow> fsys \<Rightarrow> main_end \<times> process list" where
  "connect_main lib order encode cc w1 bw w2 fs =
     (let first = connect_once lib order cc w1 fs in
      if me_result first = Some (Inl (MainClient KeyRejected))
      then (case install_key_via_ssh lib encode bw cc \<lparr>bt_log = [], bt_fs = me_fs first\<rparr> of
          (Inl e, s) \<Rightarrow> (first\<lparr>me_result := Some (Inl (MainInstall e)), me_fs := bt_fs s\<rparr>, bt_log s)
        | (Inr _, s) \<Rightarrow> (connect_once lib order cc w2 (bt_fs s), bt_log s))
      else (first, []))"

section \<open>Lemmas\<close>

text \<open>What a client without a subsystem sends on the channel of its session until the child runs.\<close>

definition session_opening ::
  "client_config \<Rightarrow> environment \<Rightarrow> (u16 \<times> u16) option \<Rightarrow> (string \<times> string) list \<Rightarrow> channel_message list" where
  "session_opening cc env tsize vars = Open Session SessionParams
     # (if interactive cc then [Request (pty_request (env ''TERM'') tsize) True] else [])
     @ map (\<lambda>(n, v). Request (Env n v) False) (forwarded_env vars) @ [Request (start_request cc) True]"

definition session_replies :: "client_config \<Rightarrow> channel_message list" where
  "session_replies cc = (if interactive cc then [RequestSuccess] else []) @ [RequestSuccess]"

lemma start_session_opens:
  "room k = None \<Longrightarrow> start_session cc env vars tsize (OpenConfirmation n # session_replies cc @ ms, k)
     = Inr (ms, k\<lparr>sent := sent k @ session_opening cc env tsize vars\<rparr>)"
  by (simp add: start_session_def open_session_def send_env_sends request_and_reply_def
      session_opening_def session_replies_def)

text \<open>The server's side: the variables it takes, and the child it starts.\<close>

definition accepted_env :: "server_config \<Rightarrow> (string \<times> string) list \<Rightarrow> (string \<times> string) list" where
  "accepted_env cfg vars = take 64 (filter (\<lambda>(n, v). env_accepted cfg n) (forwarded_env vars))"

lemma session_requests_vars:
  "session_requests cfg fs r (map (\<lambda>(n, v). Request (Env n v) False) vs @ ms) k
     = session_requests cfg fs (r\<lparr>r_env := r_env r
         @ take (64 - length (r_env r)) (filter (\<lambda>(n, v). env_accepted cfg n) vs)\<rparr>) ms k"
proof (induction vs arbitrary: r)
  case (Cons v vs)
  obtain n x where v: "v = (n, x)" by (cases v)
  have step: "session_requests cfg fs r (map (\<lambda>(n, v). Request (Env n v) False) (v # vs) @ ms) k
      = session_requests cfg fs (add_env cfg n x r) (map (\<lambda>(n, v). Request (Env n v) False) vs @ ms) k"
    by (simp add: v reply_then_def)
  show ?case
  proof (cases "env_accepted cfg n \<and> length (r_env r) < 64")
    case True
    then have "64 - length (r_env r) = Suc (64 - Suc (length (r_env r)))" by arith
    with True show ?thesis unfolding step Cons.IH by (simp add: v add_env_def)
  next
    case False
    then show ?thesis unfolding step Cons.IH by (auto simp: v add_env_def)
  qed
qed simp

definition opening_pty :: "client_config \<Rightarrow> environment \<Rightarrow> (u16 \<times> u16) option \<Rightarrow> pty_req_params option" where
  "opening_pty cc env tsize = (if interactive cc
     then (case pty_request (env ''TERM'') tsize of PtyReq p \<Rightarrow> Some p | _ \<Rightarrow> None) else None)"

lemma dispatch_opening:
  assumes "cc_subsystem cc = None" "from_name lib user = Inr (Some u)"
  shows "dispatch_channel lib cfg fs os sch dial user (session_opening cc env tsize vars @ ms) open_sink
    = (case run_child os (pump_of sch ms) u (cc_command cc) (opening_pty cc env tsize) (accepted_env cfg vars)
        (open_sink\<lparr>sent := OpenConfirmation (32 * 1024) # session_replies cc\<rparr>) of
      (e, cmd, k) \<Rightarrow> (dispatched (SessionDone e) k)\<lparr>d_child := cmd\<rparr>)"
  using assms
  by (simp add: dispatch_channel_def session_opening_def session_handle_def session_requests_vars
      reply_then_def opening_pty_def pty_request_def accepted_env_def no_requests_def start_request_def
      session_replies_def Let_def split: option.split prod.split)

lemma typed_then_done:
  "room k = None \<Longrightarrow> foldl stdin_step (start_stdin k) (map StdinRead ds @ [StdoutDone])
     = \<lparr>sp_sink = k\<lparr>sent := sent k @ map Data ds\<rparr>, sp_status = Left\<rparr>"
proof -
  have "foldl stdin_step \<lparr>sp_sink = k, sp_status = Running\<rparr> (map StdinRead ds)
      = \<lparr>sp_sink = k\<lparr>sent := sent k @ map Data ds\<rparr>, sp_status = Running\<rparr>" if "room k = None" for k
    using that by (induction ds arbitrary: k) (simp_all add: stdin_step_def)
  then show "room k = None \<Longrightarrow> ?thesis" by (simp add: start_stdin_def stdin_step_def)
qed

lemma session_run_opens:
  assumes "tty_ready (interactive cc) lt" "list_all streaming ms"
  shows "session_run cc env vars tsize lt None (map StdinRead ds @ [StdoutDone])
      (OpenConfirmation n # session_replies cc @ ms @ [Eof, ExitStatus st, Close], open_sink)
    = Some (Inr (), \<lparr>sh_out = data_stream ms, sh_err = ext_stream ms, sh_exit = None\<rparr>,
        open_sink\<lparr>sent := session_opening cc env tsize vars @ map Data ds @ [Close]\<rparr>)"
proof -
  have "stdout_pump None (ms @ [Eof, ExitStatus st, Close])
      = \<lparr>sh_out = data_stream ms, sh_err = ext_stream ms, sh_exit = None\<rparr>"
    using stdout_pump_streaming [OF assms(2), of "[ExitStatus st, Close]" None] by (simp add: shown.equality)
  then show ?thesis
    using assms(1) by (auto simp: session_run_def tty_ready_def end_session_def start_session_opens typed_then_done Let_def simp del: foldl_append)
qed

section \<open>A client and its server\<close>

definition unshared :: "client_config \<Rightarrow> bool" where
  "unshared cc \<longleftrightarrow> \<not> cc_control_master cc \<and> \<not> cc_control_path_explicit cc
     \<and> \<not> cc_control_master_auto cc \<and> \<not> persist_is_enabled (cc_control_persist cc)"

text \<open>The server's address resolves, it presents the certificate with this fingerprint, and that is the pinned one.\<close>

definition pinned_server ::
  "client_library \<Rightarrow> client_config \<Rightarrow> main_world \<Rightarrow> fsys \<Rightarrow> byte list \<Rightarrow> bool" where
  "pinned_server cl cc w fs fp \<longleftrightarrow>
     (let host_port = cc_host cc @ '':'' @ show_u16 (cc_port cc) in
      mn_resolves w host_port \<and> ps_chain (mn_presented w) \<noteq> []
      \<and> cert_fingerprint (cl_sha256 cl) (hd (ps_chain (mn_presented w))) = fp
      \<and> (\<exists>kh. load (cc_known_hosts_path cc) fs = Inr kh \<and> map_of (entries kh) host_port = Some (cl_hex cl fp)))"

definition forwards_granted :: "server_config \<Rightarrow> forward_spec list \<Rightarrow> bool" where
  "forwards_granted cfg fws \<longleftrightarrow> distinct (map forward_key fws)
     \<and> length fws \<le> max_remote_forwards_per_connection cfg
     \<and> (\<forall>f \<in> set fws. remote_forward_allowed (fw_bind_addr f) (fw_bind_port f) (remote_forward_allowlist cfg))"

text \<open>
  The server: its connection after the client's requests for forwards, and its end of the session's channel,
  which is given what the client sends when the user types \<open>ds\<close>.
\<close>

definition server_conn :: "server_config \<Rightarrow> client_config \<Rightarrow> conn" where
  "server_conn cfg cc = foldl (conn_step cfg) (conn_start cfg open_sink) (map forward_event (cc_remote_forwards cc))"

definition session_input :: "client_config \<Rightarrow> main_world \<Rightarrow> byte list list \<Rightarrow> channel_message list" where
  "session_input cc w ds =
     session_opening cc (mn_env w) (mn_tsize w) (mn_vars w) @ map Data ds @ [Close]"

definition server_session ::
  "('vk, 'sig) auth_library \<Rightarrow> server_config \<Rightarrow> fsys \<Rightarrow> child_os \<Rightarrow> schedule \<Rightarrow> client_config
    \<Rightarrow> main_world \<Rightarrow> byte list list \<Rightarrow> dispatch_result" where
  "server_session lib cfg sfs os sch cc w ds =
     dispatch_channel lib cfg sfs os sch (\<lambda>_. None) (cc_username cc) (session_input cc w ds) open_sink"

text \<open>
  What the client meets is this server, which lets it in; the user types \<open>ds\<close> until the output ends, on a
  terminal that takes everything.
\<close>

definition meets ::
  "('vk, 'sig) auth_library \<Rightarrow> server_config \<Rightarrow> fsys \<Rightarrow> child_os \<Rightarrow> schedule \<Rightarrow> client_config
    \<Rightarrow> main_world \<Rightarrow> byte list list \<Rightarrow> byte list \<Rightarrow> bool" where
  "meets lib cfg sfs os sch cc w ds nonce \<longleftrightarrow>
     mn_control w = [AuthChallenge nonce, AuthResult Success] @ sent (c_control (server_conn cfg cc))
     \<and> mn_channel w = sent (d_sink (server_session lib cfg sfs os sch cc w ds))
     \<and> mn_stdin w = map StdinRead ds @ [StdoutDone] \<and> mn_out_room w = None
     \<and> tty_ready (interactive cc) (mn_tty w)"

lemma establish_pinned_server:
  "pinned_server cl cc w fs fp \<Longrightarrow>
     establish_connection cl order cc (mn_resolves w) (mn_presented w) ms k fs
       = (client_authenticate cl cc fs fp ms k, fs)"
  by (cases "ps_chain (mn_presented w)") (auto simp: pinned_server_def establish_pinned Let_def)

lemma server_conn_confirms:
  assumes "forwards_granted cfg (cc_remote_forwards cc)"
  shows "sent (c_control (server_conn cfg cc)) = map (\<lambda>f. TcpForwardConfirm (fw_bind_port f)) (cc_remote_forwards cc)
    \<and> map snd (c_listeners (server_conn cfg cc)) = map forward_key (cc_remote_forwards cc)"
  using server_confirms [of "conn_start cfg open_sink" "cc_remote_forwards cc" cfg] assms
  by (simp add: server_conn_def forwards_granted_def)

text \<open>The server's end of the session, when the child ran.\<close>

lemma server_session_ran:
  assumes "cc_subsystem cc = None" "from_name lib (cc_username cc) = Inr (Some u)"
    and "d_end (server_session lib cfg sfs os sch cc w ds) = SessionDone SessionOk"
  obtains ms st cmd where "list_all streaming ms"
    "sent (d_sink (server_session lib cfg sfs os sch cc w ds))
      = OpenConfirmation (32 * 1024) # session_replies cc @ ms @ [Eof, ExitStatus st, Close]"
    "d_child (server_session lib cfg sfs os sch cc w ds) = Some cmd"
    "configure_child (os_euid os) (child_command_line u (cc_command cc)) u (accepted_env cfg (mn_vars w))
      (Some (case opening_pty cc (mn_env w) (mn_tsize w) of Some p \<Rightarrow> pr_term p | None \<Rightarrow> ''xterm'')) True = Inr cmd"
proof -
  let ?k = "open_sink\<lparr>sent := OpenConfirmation (32 * 1024) # session_replies cc\<rparr>"
  obtain e cmd k where r: "run_child os (pump_of sch (map Data ds @ [Close])) u (cc_command cc)
      (opening_pty cc (mn_env w) (mn_tsize w)) (accepted_env cfg (mn_vars w)) ?k = (e, cmd, k)"
    using prod_cases3 by blast
  then have d: "server_session lib cfg sfs os sch cc w ds = (dispatched (SessionDone e) k)\<lparr>d_child := cmd\<rparr>"
    using dispatch_opening [OF assms(1,2)] by (simp add: server_session_def session_input_def)
  with assms(3) have e: "e = SessionOk" by (simp add: dispatched_def)
  obtain ms st where "list_all streaming ms" "sent k = sent ?k @ ms @ [Eof, ExitStatus st, Close]"
    using run_child_streams [OF r [unfolded e]] by auto
  moreover obtain c where "cmd = Some c"
    "configure_child (os_euid os) (child_command_line u (cc_command cc)) u (accepted_env cfg (mn_vars w))
      (Some (case opening_pty cc (mn_env w) (mn_tsize w) of Some p \<Rightarrow> pr_term p | None \<Rightarrow> ''xterm'')) True = Inr c"
    using r e by (auto simp: run_child_def Let_def split: if_splits sum.splits option.splits prod.splits)
  ultimately show thesis using that d by (simp add: dispatched_def)
qed

text \<open>
  The run that is expected: the exchange and the requests on the control stream, the session's input, all
  output shown, the tasks started, the connection closed and the files as they were.
\<close>

definition finished ::
  "client_config \<Rightarrow> main_world \<Rightarrow> byte list list \<Rightarrow> byte list \<Rightarrow> byte list \<Rightarrow> fsys \<Rightarrow> main_end" where
  "finished cc w ds pk sg fs =
     \<lparr>me_result = Some (Inr ()), me_tasks = MigrationMonitor # direct_tasks cc,
       me_control = open_sink\<lparr>sent := [ClientHello PROTOCOL_VERSION (cc_username cc), AuthResponse pk sg]
         @ map (\<lambda>f. TcpForwardRequest (fw_bind_addr f) (fw_bind_port f)) (cc_remote_forwards cc)\<rparr>,
       me_channel = open_sink\<lparr>sent := session_input cc w ds\<rparr>,
       me_shown = \<lparr>sh_out = data_stream (mn_channel w), sh_err = ext_stream (mn_channel w), sh_exit = None\<rparr>,
       me_closed = True, me_fs = fs\<rparr>"

text \<open>An attempt that the server lets in: what it does and what both ends then know.\<close>

lemma attempt_let_in:
  assumes "unshared cc" "cc_subsystem cc = None" "\<not> cc_no_shell cc"
    and "enrolled cl lib cc fs sfs" "signature_laws cl lib"
    and "pinned_server cl cc w fs (live_cert_fingerprint cfg)" "forwards_granted cfg (cc_remote_forwards cc)"
    and "meets lib cfg sfs os sch cc w ds nonce"
    and "d_end (server_session lib cfg sfs os sch cc w ds) = SessionDone SessionOk"
  obtains pk sg where
    "connect_once cl order cc w fs =
      finished cc w ds pk sg fs"
    "authenticate lib cfg sfs nonce [ClientHello PROTOCOL_VERSION (cc_username cc), AuthResponse pk sg] open_sink
      = (Inr (cc_username cc), [], open_sink\<lparr>sent := [AuthChallenge nonce, AuthResult Success]\<rparr>)"
proof -
  let ?hello = "\<lambda>pk sg. [ClientHello PROTOCOL_VERSION (cc_username cc), AuthResponse pk sg]"
  let ?confirms = "map (\<lambda>f. TcpForwardConfirm (fw_bind_port f)) (cc_remote_forwards cc)"
  obtain seed where seed: "load_signing_key (cc_identity_path cc) fs = Inr seed" "length seed = 32"
    and u: "\<exists>u. from_name lib (cc_username cc) = Inr (Some u)"
    using assms(4) by (auto simp: enrolled_def)
  obtain u where u: "from_name lib (cc_username cc) = Inr (Some u)" using u by blast
  obtain pk sg where a: "client_authenticate cl cc fs (live_cert_fingerprint cfg)
        [AuthChallenge nonce, AuthResult Success] open_sink = (Inr (), [], open_sink\<lparr>sent := ?hello pk sg\<rparr>)"
    and sv: "authenticate lib cfg sfs nonce (?hello pk sg) open_sink
      = (Inr (cc_username cc), [], open_sink\<lparr>sent := [AuthChallenge nonce, AuthResult Success]\<rparr>)"
    using enrolled_exchange [where nonce = nonce, OF assms(4,5) refl] by blast
  have "client_authenticate cl cc fs (live_cert_fingerprint cfg)
      ([AuthChallenge nonce, AuthResult Success] @ ?confirms) open_sink
    = (Inr (), ?confirms, open_sink\<lparr>sent := ?hello pk sg\<rparr>)"
    using a by (auto simp: client_authenticate_def answer_challenge_def split: option.splits sum.splits)
  then have e: "establish_connection cl order cc (mn_resolves w) (mn_presented w) (mn_control w) open_sink fs
    = ((Inr (), ?confirms, open_sink\<lparr>sent := ?hello pk sg\<rparr>), fs)"
    using assms(8) server_conn_confirms [OF assms(7)]
    by (simp add: establish_pinned_server [OF assms(6)] meets_def)
  obtain ms st where ms: "list_all streaming ms"
    "mn_channel w = OpenConfirmation (32 * 1024) # session_replies cc @ ms @ [Eof, ExitStatus st, Close]"
    using server_session_ran [OF assms(2) u assms(9)] assms(8) unfolding meets_def by metis
  have streams: "data_stream (mn_channel w) = data_stream ms" "ext_stream (mn_channel w) = ext_stream ms"
    by (simp_all add: ms(2) session_replies_def)
  have s: "session_run cc (mn_env w) (mn_vars w) (mn_tsize w) (mn_tty w) (mn_out_room w) (mn_stdin w)
      (mn_channel w, open_sink)
    = Some (Inr (), \<lparr>sh_out = data_stream ms, sh_err = ext_stream ms, sh_exit = None\<rparr>,
        open_sink\<lparr>sent := session_input cc w ds\<rparr>)"
    using assms(8) session_run_opens [OF _ ms(1), of cc "mn_tty w"]
    unfolding ms(2) by (simp add: meets_def session_input_def)
  have "connect_once cl order cc w fs = connect_direct cl order cc w fs"
    using assms(1) by (simp add: connect_once_def unshared_def)
  with e s assms(3) sv show thesis
    using client_accepts_confirms [of "open_sink\<lparr>sent := ?hello pk sg\<rparr>" "cc_remote_forwards cc" "[]"]
    by (intro that [of pk sg]) (simp_all add: connect_direct_def ended_def Let_def streams finished_def)
qed

text \<open>A client whose key the server does not have.\<close>

lemma refused_exchange:
  assumes "load_signing_key (cc_identity_path cc) cfs = Inr seed" "length seed = 32"
    and "length (cc_username cc) < 65536" "from_name lib (cc_username cc) = Inr (Some usr)"
    and "load_user_authorized_keys lib sfs usr = Inr ks" "cl_public_key cl seed \<notin> set ks"
  shows "\<exists>k. client_authenticate cl cc cfs fp [AuthChallenge nonce, AuthResult Failure] open_sink
      = (Inl KeyRejected, [], k)
    \<and> authenticate lib cfg sfs nonce (sent k) open_sink
      = (Inl (AuthFailedFor (cc_username cc)), [], open_sink\<lparr>sent := [AuthChallenge nonce, AuthResult Failure]\<rparr>)"
  using assms
  by (simp add: client_authenticate_def answer_challenge_def build_challenge_payload_def authenticate_def
      challenge_user_def check_response_def)

lemma install_key_via_ssh_InrD:
  assumes "install_key_via_ssh cl encode bw cc s = (Inr (), s')"
    and "load_signing_key (cc_identity_path cc) (bt_fs s) = Inr seed"
  obtains name where "bt_fs s' = bt_fs s"
    "bt_log s' = bt_log s @
      [upload_process \<lparr>rn_user = Some (cc_username cc), rn_host = cc_host cc, rn_port = cc_ssh_port cc\<rparr> name
         (str_bytes (format_authorized_key encode (cl_public_key cl seed) [] @ [NL])) REMOTE_TEMP_KEY,
       run_process \<lparr>rn_user = Some (cc_username cc), rn_host = cc_host cc, rn_port = cc_ssh_port cc\<rparr>
         (authorized_key_install_command REMOTE_TEMP_KEY)]"
proof -
  from assms show thesis
    by (auto simp: install_key_via_ssh_def and_then_def on_files_def install_authorized_key_def
        write_remote_file_def upload_def spawn_process_def run_cmd_def give_def
        split: prod.splits sum.splits option.splits if_splits intro!: that)
qed

section \<open>Properties\<close>

text \<open>
  C2: a session from end to end. A client that is enrolled and has pinned the server runs its shell or command
  once: the server knows it as the user it asked for, listens on exactly the forwards it asked for, and starts
  exactly its shell or command for that user with the variables the policy accepts; the client has sent what
  the user typed, shows exactly what the server sent, ends with success, and changed no file.
\<close>

theorem direct_session_end_to_end:
  assumes "unshared cc" "cc_subsystem cc = None" "\<not> cc_no_shell cc"
    and "enrolled cl lib cc fs sfs" "signature_laws cl lib"
    and "pinned_server cl cc w fs (live_cert_fingerprint cfg)" "forwards_granted cfg (cc_remote_forwards cc)"
    and "meets lib cfg sfs os sch cc w ds nonce"
    and "d_end (server_session lib cfg sfs os sch cc w ds) = SessionDone SessionOk"
  shows "\<exists>pk sg u cmd trm.
    connect_main cl order encode cc w bw w2 fs =
     (finished cc w ds pk sg fs, [])
    \<and> authenticate lib cfg sfs nonce [ClientHello PROTOCOL_VERSION (cc_username cc), AuthResponse pk sg] open_sink
      = (Inr (cc_username cc), [], open_sink\<lparr>sent := [AuthChallenge nonce, AuthResult Success]\<rparr>)
    \<and> map snd (c_listeners (server_conn cfg cc)) = map forward_key (cc_remote_forwards cc)
    \<and> from_name lib (cc_username cc) = Inr (Some u)
    \<and> d_child (server_session lib cfg sfs os sch cc w ds) = Some cmd
    \<and> configure_child (os_euid os) (child_command_line u (cc_command cc)) u (accepted_env cfg (mn_vars w))
        (Some trm) True = Inr cmd"
proof -
  obtain u where u: "from_name lib (cc_username cc) = Inr (Some u)" using assms(4) by (auto simp: enrolled_def)
  from server_session_ran [OF assms(2) u assms(9)] obtain cmd trm where
    "d_child (server_session lib cfg sfs os sch cc w ds) = Some cmd"
    "configure_child (os_euid os) (child_command_line u (cc_command cc)) u (accepted_env cfg (mn_vars w))
      (Some trm) True = Inr cmd" by metis
  note c = this
  obtain pk sg where "connect_once cl order cc w fs =
      finished cc w ds pk sg fs"
    "authenticate lib cfg sfs nonce [ClientHello PROTOCOL_VERSION (cc_username cc), AuthResponse pk sg] open_sink
      = (Inr (cc_username cc), [], open_sink\<lparr>sent := [AuthChallenge nonce, AuthResult Success]\<rparr>)"
    by (rule attempt_let_in [OF assms, of order])
  with u c server_conn_confirms [OF assms(7)] show ?thesis
    by (intro exI [of _ pk] exI [of _ sg] exI [of _ u] exI [of _ cmd] exI [of _ trm]) (simp add: connect_main_def finished_def)
qed


section \<open>Witnesses\<close>

definition demo_main_client :: client_config where
  "demo_main_client = demo_client\<lparr>cc_command := Some ''id''\<rparr>"

definition demo_main_schedule :: schedule where
  "demo_main_schedule = demo_schedule\<lparr>pump_of := (\<lambda>ms. [PtyReadable (ReadBytes [65]), ChildExited (Some (Exited 0))])\<rparr>"

definition demo_main_world :: "control_message list \<Rightarrow> channel_message list \<Rightarrow> main_world" where
  "demo_main_world cs ms = \<lparr>mn_resolves = (\<lambda>_. True),
     mn_presented = \<lparr>ps_chain = [[48]], ps_transcript = [], ps_signature = []\<rparr>,
     mn_control = cs, mn_channel = ms, mn_env = (\<lambda>_. None), mn_vars = [(''LANG'', ''C'')], mn_tsize = None,
     mn_tty = demo_tty, mn_out_room = None, mn_stdin = [StdinRead [104], StdoutDone], mn_ctrl_c = None,
     mn_socket = \<lparr>mw_first = Inl NotFound, mw_spawn = (\<lambda>fs. (Inr (), fs)),
       mw_poll = (\<lambda>_. (Inl NotFound, 0)), mw_second = Inl NotFound\<rparr>,
     mn_shared = Inr (), mn_serving = []\<rparr>"

definition demo_main_output :: "channel_message list" where
  "demo_main_output = [OpenConfirmation (32 * 1024), RequestSuccess, Data [65], Eof, ExitStatus 0, Close]"

definition demo_let_in :: "control_message list" where
  "demo_let_in = [AuthChallenge demo_nonce, AuthResult Success]"

lemma demo_main_client_simps [simp]:
  "cc_username demo_main_client = ''alice''" "cc_command demo_main_client = Some ''id''"
  "cc_subsystem demo_main_client = None" "cc_remote_forwards demo_main_client = []"
  "cc_no_shell demo_main_client = False" "cc_identity_path demo_main_client = demo_identity"
  "unshared demo_main_client" "\<not> interactive demo_main_client"
  by (simp_all add: demo_main_client_def demo_client_def unshared_def interactive_def persist_is_enabled_def)

lemma demo_server_ran:
  "d_end (server_session demo_server_lib (demo_server [48]) sfs demo_os demo_main_schedule demo_main_client
      (demo_main_world cs ms) [[104]]) = SessionDone SessionOk"
  "sent (d_sink (server_session demo_server_lib (demo_server [48]) sfs demo_os demo_main_schedule demo_main_client
      (demo_main_world cs ms) [[104]])) = demo_main_output"
proof -
  have "from_name demo_server_lib ''alice'' = Inr (Some demo_alice)"
    by (simp add: demo_server_lib_def demo_auth_def)
  moreover have "env_accepted (demo_server [48]) n = env_accepted demo_config n" for n
    by (simp add: env_accepted_def demo_server_def)
  then have "accepted_env (demo_server [48]) [(''LANG'', ''C'')] = [(''LANG'', ''C'')]"
    by (simp add: accepted_env_def forwarded_env_def is_forwarded_env_key_def demo_env_accepted)
  ultimately have "server_session demo_server_lib (demo_server [48]) sfs demo_os demo_main_schedule
      demo_main_client (demo_main_world cs ms) [[104]]
    = (dispatched (SessionDone SessionOk) (open_sink\<lparr>sent := demo_main_output\<rparr>))\<lparr>d_child := Some demo_child\<rparr>"
    using demo_configure
    by (simp add: server_session_def session_input_def dispatch_opening demo_main_world_def
        opening_pty_def session_replies_def run_child_def demo_os_def demo_main_schedule_def io_pump_def
        start_pump_def pump_step_def pump_read_def pump_exited_def send_exit_def demo_main_output_def Let_def)
  then show "d_end (server_session demo_server_lib (demo_server [48]) sfs demo_os demo_main_schedule demo_main_client
      (demo_main_world cs ms) [[104]]) = SessionDone SessionOk"
    "sent (d_sink (server_session demo_server_lib (demo_server [48]) sfs demo_os demo_main_schedule demo_main_client
      (demo_main_world cs ms) [[104]])) = demo_main_output"
    by (simp_all add: dispatched_def)
qed

lemma demo_meets:
  "meets demo_server_lib (demo_server [48]) sfs demo_os demo_main_schedule demo_main_client
     (demo_main_world demo_let_in demo_main_output) [[104]] demo_nonce"
  "forwards_granted (demo_server [48]) (cc_remote_forwards demo_main_client)"
  by (simp_all add: meets_def demo_server_ran forwards_granted_def server_conn_def conn_start_def)
    (simp_all add: demo_main_world_def demo_let_in_def)

lemma demo_pinned_server:
  "pinned_server demo_client_lib demo_main_client (demo_main_world cs ms) demo_pinned_fs
     (live_cert_fingerprint (demo_server [48]))"
proof -
  have "cc_host demo_main_client = cc_host demo_client" "cc_port demo_main_client = cc_port demo_client"
    "cc_known_hosts_path demo_main_client = cc_known_hosts_path demo_client"
    by (simp_all add: demo_main_client_def)
  moreover have "cl_hex demo_client_lib b = ''ab''" for b by (simp add: demo_client_lib_def)
  ultimately show ?thesis
    using demo_load_pinned by (simp add: pinned_server_def demo_main_world_def demo_server_def)
qed

lemma demo_main_enrolled:
  "enrolled demo_client_lib demo_server_lib demo_main_client demo_pinned_fs demo_auth_fs"
  using demo_enrolled_pinned by (simp add: enrolled_def demo_main_client_def)

theorem direct_session_end_to_end_witness:
  "\<exists>e. connect_main demo_client_lib (\<lambda>es. es) demo_encode demo_main_client
       (demo_main_world demo_let_in demo_main_output) demo_boot_world (demo_main_world [] []) demo_pinned_fs = (e, [])
     \<and> me_result e = Some (Inr ()) \<and> sh_out (me_shown e) = [65]
     \<and> data_stream (sent (me_channel e)) = [104]"
proof -
  let ?w = "demo_main_world demo_let_in demo_main_output"
  have out: "data_stream (mn_channel ?w) = [65]" by (simp add: demo_main_world_def demo_main_output_def)
  have input: "data_stream (session_input demo_main_client ?w [[104]]) = [104]"
    by (simp add: session_input_def session_opening_def demo_main_world_def forwarded_env_def
        is_forwarded_env_key_def)
  from direct_session_end_to_end [OF _ _ _ demo_main_enrolled demo_signatures demo_pinned_server demo_meets(2,1)
      demo_server_ran(1), of "\<lambda>es. es" demo_encode demo_boot_world "demo_main_world [] []"] out input
  show ?thesis by (force simp: finished_def)
qed

definition demo_keys_fs :: "string \<Rightarrow> fsys" where
  "demo_keys_fs text = demo_fs\<lparr>nodes := (nodes demo_fs)(demo_keys_path \<mapsto>
     \<lparr>nd_kind = RegularFile, nd_uid = 1000, nd_mode = 0x1A4, nd_data = str_bytes text\<rparr>)\<rparr>"

lemma demo_load_text:
  assumes "ascii_text text"
  shows "load_user_authorized_keys demo_server_lib (demo_keys_fs text) demo_alice
    = Inr (parse_authorized_keys (base64_decode demo_server_lib) text)"
  using utf8_valid_ascii [OF assms] assms
  unfolding load_user_authorized_keys_def demo_keys_path_eq Let_def
  by (simp add: demo_keys_fs_def demo_server_lib_def demo_auth_def
      demo_alice_def read_to_string_def read_def demo_fs_simps demo_keys_path_def)


end
