(* ===== verification/Sftp.thy ===== *)
theory Sftp
  imports Client_Session
begin

text \<open>
  \<^verbatim>\<open>sqsh/src/sftp.rs\<close>: the channel of the \<^verbatim>\<open>sftp\<close> subsystem and the two tasks that bridge it to the SFTP
  library, which reads and writes a pipe in memory.
\<close>

datatype sftp_failure =
    SftpSend
  | SftpStreamEnded
  | SftpOpenFailed channel_failure_reason string
  | SftpUnexpected channel_message
  | NoSubsystem string

section \<open>The channel\<close>

definition SFTP_SUBSYSTEM :: string where
  "SFTP_SUBSYSTEM = ''sftp''"

fun sftp_env :: "(string \<times> string) list \<Rightarrow> cs_stream \<Rightarrow> sftp_failure + cs_stream" where
  "sftp_env [] s = Inr s"
| "sftp_env ((n, v) # vars) s = (case s of (ms, k) \<Rightarrow>
     send_or (Request (Env n v) False) k (\<lambda>k1. Inl SftpSend) (\<lambda>k1. sftp_env vars (ms, k1)))"

definition sftp_open :: "cs_stream \<Rightarrow> sftp_failure + cs_stream" where
  "sftp_open s = (case s of (ms, k) \<Rightarrow>
     send_or (Open Session SessionParams) k (\<lambda>k1. Inl SftpSend)
       (\<lambda>k1. case ms of
            [] \<Rightarrow> Inl SftpStreamEnded
          | OpenConfirmation n # rest \<Rightarrow> Inr (rest, k1)
          | OpenFailure r d # rest \<Rightarrow> Inl (SftpOpenFailed r d)
          | m # rest \<Rightarrow> Inl (SftpUnexpected m)))"

definition request_subsystem :: "string \<Rightarrow> cs_stream \<Rightarrow> sftp_failure + cs_stream" where
  "request_subsystem name s = (case s of (ms, k) \<Rightarrow>
     send_or (Request (Subsystem name) True) k (\<lambda>k1. Inl SftpSend)
       (\<lambda>k1. case ms of
            [] \<Rightarrow> Inl SftpStreamEnded
          | RequestSuccess # rest \<Rightarrow> Inr (rest, k1)
          | RequestFailure # rest \<Rightarrow> Inl (NoSubsystem name)
          | m # rest \<Rightarrow> Inl (SftpUnexpected m)))"

definition open_subsystem_channel ::
  "string \<Rightarrow> (string \<times> string) list \<Rightarrow> cs_stream \<Rightarrow> sftp_failure + cs_stream" where
  "open_subsystem_channel name env s =
     res_bind (sftp_open s) (\<lambda>s1. res_bind (sftp_env env s1) (\<lambda>s2. request_subsystem name s2))"

section \<open>From the library to the channel\<close>

definition CHUNK :: nat where
  "CHUNK = 32 * 1024"

definition BRIDGE_BUF :: nat where
  "BRIDGE_BUF = 256 * 1024"

text \<open>
  The pipe holds \<open>bo_pending\<close>; of what the library writes it takes what fits, which \<open>bo_taken\<close> records.
  Whenever the task runs it reads at most one chunk.
\<close>

datatype writer_event =
    LibraryWrites "byte list"
  | LibraryCloses
  | WriterRuns
  | PipeFails

record bridge_writer =
  bo_pending :: "byte list"
  bo_closed :: bool
  bo_taken :: "byte list"
  bo_sink :: "channel_message sink"
  bo_status :: "unit loop_status"

definition writer_step :: "bridge_writer \<Rightarrow> writer_event \<Rightarrow> bridge_writer" where
  "writer_step s e = (case bo_status s of
      Running \<Rightarrow> (case e of
          LibraryWrites d \<Rightarrow>
            if bo_closed s then s
            else let t = take (BRIDGE_BUF - length (bo_pending s)) d
              in s\<lparr>bo_pending := bo_pending s @ t, bo_taken := bo_taken s @ t\<rparr>
        | LibraryCloses \<Rightarrow> s\<lparr>bo_closed := True\<rparr>
        | WriterRuns \<Rightarrow>
            let buf = take CHUNK (bo_pending s); rest = drop CHUNK (bo_pending s) in
            if buf = []
            then (if bo_closed s
              then s\<lparr>bo_sink := send_quietly Eof (bo_sink s), bo_status := Left\<rparr> else s)
            else send_or (Data buf) (bo_sink s)
              (\<lambda>k. s\<lparr>bo_sink := k, bo_pending := rest, bo_status := Left\<rparr>)
              (\<lambda>k. s\<lparr>bo_sink := k, bo_pending := rest\<rparr>)
        | PipeFails \<Rightarrow> s\<lparr>bo_status := Left\<rparr>)
    | _ \<Rightarrow> s)"

definition start_writer :: "channel_message sink \<Rightarrow> bridge_writer" where
  "start_writer k = \<lparr>bo_pending = [], bo_closed = False, bo_taken = [], bo_sink = k, bo_status = Running\<rparr>"

section \<open>From the channel to the library\<close>

text \<open>
  \<open>bi_room\<close> is how many bytes the library still takes before it goes away (\<open>None\<close>: it stays). When the
  loop is left, the library sees the end of the pipe.
\<close>

record bridge_reader =
  bi_given :: "byte list"
  bi_room :: "nat option"
  bi_stderr :: "byte list"
  bi_status :: "unit loop_status"

definition reader_step :: "bridge_reader \<Rightarrow> channel_message option \<Rightarrow> bridge_reader" where
  "reader_step s m = (case bi_status s of
      Running \<Rightarrow> (case m of
          Some (Data d) \<Rightarrow> (case bi_room s of
              None \<Rightarrow> s\<lparr>bi_given := bi_given s @ d\<rparr>
            | Some n \<Rightarrow>
                if length d \<le> n then s\<lparr>bi_given := bi_given s @ d, bi_room := Some (n - length d)\<rparr>
                else s\<lparr>bi_given := bi_given s @ take n d, bi_room := Some 0, bi_status := Left\<rparr>)
        | Some (ExtendedData t d) \<Rightarrow> s\<lparr>bi_stderr := bi_stderr s @ d\<rparr>
        | Some Eof \<Rightarrow> s\<lparr>bi_status := Left\<rparr>
        | Some Close \<Rightarrow> s\<lparr>bi_status := Left\<rparr>
        | None \<Rightarrow> s\<lparr>bi_status := Left\<rparr>
        | Some _ \<Rightarrow> s)
    | _ \<Rightarrow> s)"

definition start_reader :: bridge_reader where
  "start_reader = \<lparr>bi_given = [], bi_room = None, bi_stderr = [], bi_status = Running\<rparr>"

section \<open>Lemmas\<close>

text \<open>
  While the writer runs, everything it took from the library has been sent in frames of at most one
  chunk or is still in the pipe.
\<close>

definition writer_inv :: "bridge_writer \<Rightarrow> bool" where
  "writer_inv s \<longleftrightarrow> (bo_status s = Running \<longrightarrow>
     (\<exists>ds. sent (bo_sink s) = map Data ds \<and> concat ds @ bo_pending s = bo_taken s
        \<and> list_all (\<lambda>d. d \<noteq> [] \<and> length d \<le> CHUNK) ds))
     \<and> length (bo_pending s) \<le> BRIDGE_BUF"

lemma writer_inv_sent:
  assumes "writer_inv s" "bo_status s = Running" "take CHUNK (bo_pending s) \<noteq> []"
    and "sent k = sent (bo_sink s) @ [Data (take CHUNK (bo_pending s))]"
  shows "writer_inv (s\<lparr>bo_sink := k, bo_pending := drop CHUNK (bo_pending s)\<rparr>)"
proof -
  obtain ds where ds: "sent (bo_sink s) = map Data ds" "concat ds @ bo_pending s = bo_taken s"
      "list_all (\<lambda>d. d \<noteq> [] \<and> length d \<le> CHUNK) ds"
    using assms(1,2) by (auto simp: writer_inv_def)
  let ?ds = "ds @ [take CHUNK (bo_pending s)]"
  have "concat ?ds @ drop CHUNK (bo_pending s) = concat ds @ bo_pending s" by simp
  then have "concat ?ds @ drop CHUNK (bo_pending s) = bo_taken s" by (simp only: ds(2))
  moreover have "sent k = map Data ?ds" by (simp add: assms(4) ds(1))
  moreover have "list_all (\<lambda>d. d \<noteq> [] \<and> length d \<le> CHUNK) ?ds"
    using ds(3) assms(3) by simp
  ultimately have "\<exists>ds. sent k = map Data ds \<and> concat ds @ drop CHUNK (bo_pending s) = bo_taken s
      \<and> list_all (\<lambda>d. d \<noteq> [] \<and> length d \<le> CHUNK) ds"
    by blast
  moreover have "length (bo_pending s) \<le> BRIDGE_BUF" using assms(1) by (simp add: writer_inv_def)
  then have "length (drop CHUNK (bo_pending s)) \<le> BRIDGE_BUF" by simp
  ultimately show ?thesis unfolding writer_inv_def by simp
qed

lemma writer_step_inv: "writer_inv s \<Longrightarrow> writer_inv (writer_step s e)"
proof (cases "bo_status s")
  case Running
  assume i: "writer_inv s"
  show ?thesis
  proof (cases e)
    case (LibraryWrites d)
    let ?t = "take (BRIDGE_BUF - length (bo_pending s)) d"
    obtain ds where "sent (bo_sink s) = map Data ds" "concat ds @ bo_pending s = bo_taken s"
        "list_all (\<lambda>d. d \<noteq> [] \<and> length d \<le> CHUNK) ds"
      using i Running by (auto simp: writer_inv_def)
    then have "sent (bo_sink s) = map Data ds \<and> concat ds @ (bo_pending s @ ?t) = bo_taken s @ ?t
        \<and> list_all (\<lambda>d. d \<noteq> [] \<and> length d \<le> CHUNK) ds"
      by (simp flip: append_assoc)
    moreover have "length (bo_pending s @ ?t) \<le> BRIDGE_BUF"
      using i by (auto simp: writer_inv_def)
    ultimately have "writer_inv (s\<lparr>bo_pending := bo_pending s @ ?t, bo_taken := bo_taken s @ ?t\<rparr>)"
      unfolding writer_inv_def by auto
    with i Running LibraryWrites show ?thesis by (simp add: writer_step_def Let_def)
  next
    case WriterRuns
    show ?thesis
    proof (cases "take CHUNK (bo_pending s) = []")
      case True
      with i Running WriterRuns show ?thesis by (auto simp: writer_inv_def writer_step_def)
    next
      case False
      note ne = this
      show ?thesis
      proof (cases rule: send_or_cases [of "Data (take CHUNK (bo_pending s))" "bo_sink s"
          "\<lambda>k. s\<lparr>bo_sink := k, bo_pending := drop CHUNK (bo_pending s), bo_status := Left\<rparr>"
          "\<lambda>k. s\<lparr>bo_sink := k, bo_pending := drop CHUNK (bo_pending s)\<rparr>"])
        case (accepted k)
        from writer_inv_sent [OF i Running ne accepted(3)] accepted(2) Running WriterRuns ne
        show ?thesis by (simp add: writer_step_def Let_def)
      next
        case refused
        with i Running WriterRuns ne show ?thesis
          by (simp add: writer_step_def Let_def) (auto simp: writer_inv_def)
      qed
    qed
  qed (use i Running in \<open>auto simp: writer_inv_def writer_step_def\<close>)
qed (auto simp: writer_inv_def writer_step_def)

interpretation bridge_out: event_loop writer_step writer_inv
  by unfold_locales (rule writer_step_inv)

lemma writer_step_room: "room (bo_sink s) = None \<Longrightarrow> room (bo_sink (writer_step s e)) = None"
  by (auto simp: writer_step_def Let_def split: loop_status.split writer_event.split)

interpretation writer_room: event_loop writer_step "\<lambda>s. room (bo_sink s) = None"
  by unfold_locales (rule writer_step_room)

lemma start_writer_inv: "writer_inv (start_writer open_sink)"
  by (simp add: writer_inv_def start_writer_def)

lemma data_stream_Data [simp]: "data_stream (map Data ds) = concat ds"
  by (induction ds) simp_all

text \<open>What the server's side of a subsystem is given, and what it keeps of it.\<close>

fun sub_received :: "sub_event \<Rightarrow> channel_message list" where
  "sub_received (SubClient (Some m)) = [m]"
| "sub_received _ = []"

lemma sub_step_stdin:
  assumes "sub_stays e" "\<not> s_left s" "s_stdin_open s" "s_stdin_room s = None" "room (s_sink s) = None"
    and "sub_received e = map Data ds"
  shows "s_stdin_open (sub_step s e)" "s_stdin_room (sub_step s e) = None"
    "s_stdin_bytes (sub_step s e) = s_stdin_bytes s @ concat ds"
  using assms
  by (cases e rule: sub_received.cases; auto simp: sub_step_def sub_client_def sub_write_def
      split: pipe_read.splits if_splits)+

lemma sub_run_stdin:
  assumes "list_all sub_stays es" "\<not> s_left s" "s_stdin_open s" "s_stdin_room s = None"
    and "room (s_sink s) = None" "concat (map sub_received es) = map Data ds"
  shows "s_stdin_bytes (foldl sub_step s es) = s_stdin_bytes s @ concat ds"
  using assms
proof (induction es arbitrary: s ds)
  case (Cons e es)
  obtain ds1 ds2 where d: "ds = ds1 @ ds2" "sub_received e = map Data ds1"
      "concat (map sub_received es) = map Data ds2"
    using Cons.prems(6) by (auto simp: append_eq_map_conv)
  have e: "sub_stays e" "list_all sub_stays es" using Cons.prems(1) by simp_all
  note st = sub_step_stdin [OF e(1) Cons.prems(2-5) d(2)]
  note sy = sub_step_stays [OF e(1) Cons.prems(2,5)]
  from Cons.IH [OF e(2) _ st(1,2) _ d(3)] sy st(3) show ?case by (simp add: d(1))
qed simp

lemma sub_step_sends_streaming:
  assumes "list_all streaming (sent (s_sink s))"
  shows "list_all streaming (sent (s_sink (sub_step s e)))"
  using assms
  by (auto simp: sub_step_def send_or_def sub_client_def intro!: send_quietly_streaming
      dest: send_TrueD send_FalseD
      split: sub_event.split pipe_read.split option.split channel_message.split prod.split bool.split)

interpretation sub_streams: event_loop sub_step "\<lambda>s. list_all streaming (sent (s_sink s))"
  by unfold_locales (rule sub_step_sends_streaming)

lemma reader_streaming:
  "list_all streaming ms \<Longrightarrow> bi_status s = Running \<Longrightarrow> bi_room s = None \<Longrightarrow>
     bi_given (foldl reader_step s (map Some ms)) = bi_given s @ data_stream ms
     \<and> bi_status (foldl reader_step s (map Some ms)) = Running"
proof (induction ms arbitrary: s)
  case (Cons m ms)
  then show ?case by (cases m) (auto simp: reader_step_def)
qed simp

text \<open>Enough runs of the task empty the pipe.\<close>

lemma writer_closed_stays:
  "bo_closed s \<Longrightarrow> e \<noteq> PipeFails \<Longrightarrow> e \<noteq> WriterRuns \<Longrightarrow> writer_step s e = s"
  by (cases e) (auto simp: writer_step_def split: loop_status.split)

lemma writer_left_run: "bo_status s = Left \<Longrightarrow> foldl writer_step s es = s"
  by (induction es) (simp_all add: writer_step_def)

lemma writer_drains:
  assumes "bo_status s = Running" "bo_closed s" "room (bo_sink s) = None" "PipeFails \<notin> set es"
    and "length (bo_pending s) + CHUNK \<le> CHUNK * count_list es WriterRuns"
  shows "\<exists>ds. sent (bo_sink (foldl writer_step s es)) = sent (bo_sink s) @ map Data ds @ [Eof]
    \<and> concat ds = bo_pending s \<and> bo_status (foldl writer_step s es) = Left"
  using assms
proof (induction es arbitrary: s)
  case Nil
  then show ?case by (simp add: CHUNK_def)
next
  case (Cons e es)
  show ?case
  proof (cases "e = WriterRuns")
    case False
    then have "writer_step s e = s" using Cons.prems(2,4) by (intro writer_closed_stays) auto
    moreover have "count_list (e # es) WriterRuns = count_list es WriterRuns" using False by simp
    ultimately show ?thesis using Cons.IH [OF Cons.prems(1-3)] Cons.prems(4,5) by simp
  next
    case True
    show ?thesis
    proof (cases "bo_pending s = []")
      case True
      then have "writer_step s e = s\<lparr>bo_sink := send_quietly Eof (bo_sink s), bo_status := Left\<rparr>"
        using Cons.prems \<open>e = WriterRuns\<close> by (simp add: writer_step_def)
      then show ?thesis
        using Cons.prems(3) True by (simp add: writer_left_run)
    next
      case False
      let ?k = "bo_sink s\<lparr>sent := sent (bo_sink s) @ [Data (take CHUNK (bo_pending s))]\<rparr>"
      let ?s = "s\<lparr>bo_sink := ?k, bo_pending := drop CHUNK (bo_pending s)\<rparr>"
      have pos: "0 < length (bo_pending s)" using False by simp
      have "take CHUNK (bo_pending s) \<noteq> []" using False by (simp add: CHUNK_def)
      then have st: "writer_step s e = ?s"
        using Cons.prems True by (simp add: writer_step_def Let_def)
      have "length (bo_pending s) + CHUNK \<le> CHUNK + CHUNK * count_list es WriterRuns"
        using Cons.prems(5) True by simp
      with pos have "length (bo_pending ?s) + CHUNK \<le> CHUNK * count_list es WriterRuns"
        by (cases "count_list es WriterRuns") (auto simp: max_def)
      with Cons.IH [of ?s] Cons.prems
      obtain ds where ds: "sent (bo_sink (foldl writer_step ?s es)) = sent ?k @ map Data ds @ [Eof]"
          "concat ds = drop CHUNK (bo_pending s)" "bo_status (foldl writer_step ?s es) = Left"
        by auto
      then show ?thesis
        by (intro exI [of _ "take CHUNK (bo_pending s) # ds"]) (simp add: st)
    qed
  qed
qed

section \<open>Properties\<close>

text \<open>
  The bridge is transparent in both directions. However its tasks, the library and the server's
  subsystem are scheduled, what the subsystem has been given, what is under way and what is still in
  the pipe are together exactly what the library wrote, in order, in frames of at most 32 KiB; and
  the library is given exactly what was read from the subsystem's standard output.
\<close>

lemma bridge_transparent:
  assumes "bo_status (foldl writer_step (start_writer open_sink) ws) = Running"
    and "sent (bo_sink (foldl writer_step (start_writer open_sink) ws))
      = concat (map sub_received es) @ under_way"
    and "list_all sub_stays es"
  shows "s_stdin_bytes (foldl sub_step (start_sub None open_sink) es) @ data_stream under_way
      @ bo_pending (foldl writer_step (start_writer open_sink) ws)
      = bo_taken (foldl writer_step (start_writer open_sink) ws)
    \<and> (\<forall>m \<in> set (sent (bo_sink (foldl writer_step (start_writer open_sink) ws))).
        \<exists>d. m = Data d \<and> length d \<le> 32768)
    \<and> bi_given (foldl reader_step start_reader
        (map Some (sent (s_sink (foldl sub_step (start_sub None open_sink) es)))))
      = concat (map stdout_bytes es)"
proof -
  let ?srv = "foldl sub_step (start_sub None open_sink) es"
  obtain ds where ds: "concat (map sub_received es) @ under_way = map Data ds"
      "concat ds @ bo_pending (foldl writer_step (start_writer open_sink) ws)
        = bo_taken (foldl writer_step (start_writer open_sink) ws)"
      "list_all (\<lambda>d. d \<noteq> [] \<and> length d \<le> CHUNK) ds"
    using bridge_out.inv_run [OF start_writer_inv, of ws] assms(1,2) by (auto simp: writer_inv_def)
  obtain ds1 ds2 where d: "ds = ds1 @ ds2" "concat (map sub_received es) = map Data ds1"
      "under_way = map Data ds2"
    using ds(1) by (auto simp: append_eq_map_conv)
  have "s_stdin_bytes ?srv = concat ds1"
    using sub_run_stdin [OF assms(3) _ _ _ _ d(2), of "start_sub None open_sink"]
    by (simp add: start_sub_def)
  moreover have "list_all streaming (sent (s_sink ?srv))"
    by (rule sub_streams.inv_run) (simp add: start_sub_def)
  moreover have "data_stream (sent (s_sink ?srv)) = concat (map stdout_bytes es)"
    using sub_run_stays [OF assms(3), of "start_sub None open_sink"] by (simp add: start_sub_def)
  ultimately show ?thesis
    using ds d reader_streaming [of "sent (s_sink ?srv)" start_reader]
    by (auto simp: start_reader_def assms(2) list_all_iff CHUNK_def)
qed

text \<open>
  The bridge drains. Once the library has closed its side, as many runs of the task as there are
  chunks in the pipe and one more send everything that was left, then the end of the data, and the
  task ends, whatever else happens in between.
\<close>

lemma sftp_bridge_drains:
  assumes "bo_status (foldl writer_step (start_writer open_sink) ws) = Running"
    and "bo_closed (foldl writer_step (start_writer open_sink) ws)"
    and "PipeFails \<notin> set es"
    and "length (bo_pending (foldl writer_step (start_writer open_sink) ws)) + CHUNK
      \<le> CHUNK * count_list es WriterRuns"
  shows "\<exists>ds. sent (bo_sink (foldl writer_step (start_writer open_sink) (ws @ es))) = map Data ds @ [Eof]
    \<and> concat ds = bo_taken (foldl writer_step (start_writer open_sink) ws)
    \<and> bo_status (foldl writer_step (start_writer open_sink) (ws @ es)) = Left"
proof -
  let ?w = "foldl writer_step (start_writer open_sink) ws"
  obtain ds1 where d1: "sent (bo_sink ?w) = map Data ds1" "concat ds1 @ bo_pending ?w = bo_taken ?w"
    using bridge_out.inv_run [OF start_writer_inv, of ws] assms(1) by (auto simp: writer_inv_def)
  have "room (bo_sink ?w) = None" by (rule writer_room.inv_run) (simp add: start_writer_def)
  from writer_drains [OF assms(1,2) this assms(3,4)]
  obtain ds2 where "sent (bo_sink (foldl writer_step ?w es)) = sent (bo_sink ?w) @ map Data ds2 @ [Eof]"
      "concat ds2 = bo_pending ?w" "bo_status (foldl writer_step ?w es) = Left"
    by auto
  with d1 show ?thesis by (intro exI [of _ "ds1 @ ds2"]) simp
qed

section \<open>Witnesses\<close>

lemma bridge_transparent_instance:
  "s_stdin_bytes (foldl sub_step (start_sub None open_sink)
       [StdoutRead (PipeBytes [7]), SubClient (Some (Data [1, 2]))]) @ [3] @ [4] = [1, 2, 3, 4]
   \<and> bi_given (foldl reader_step start_reader
       (map Some (sent (s_sink (foldl sub_step (start_sub None open_sink)
         [StdoutRead (PipeBytes [7]), SubClient (Some (Data [1, 2]))]))))) = [7]"
proof -
  let ?ws = "[LibraryWrites [1, 2], WriterRuns, LibraryWrites [3], WriterRuns, LibraryWrites [4]]"
  let ?es = "[StdoutRead (PipeBytes [7]), SubClient (Some (Data [1, 2]))]"
  have "bo_status (foldl writer_step (start_writer open_sink) ?ws) = Running"
      "sent (bo_sink (foldl writer_step (start_writer open_sink) ?ws))
        = concat (map sub_received ?es) @ [Data [3]]"
      "list_all sub_stays ?es" "bo_pending (foldl writer_step (start_writer open_sink) ?ws) = [4]"
      "bo_taken (foldl writer_step (start_writer open_sink) ?ws) = [1, 2, 3, 4]"
    by (simp_all add: writer_step_def start_writer_def Let_def CHUNK_def BRIDGE_BUF_def)
  from bridge_transparent [OF this(1-3)] this(4,5) show ?thesis by simp
qed

lemma sftp_bridge_drains_instance:
  "\<exists>ds. sent (bo_sink (foldl writer_step (start_writer open_sink)
       ([LibraryWrites [1, 2], LibraryCloses] @ [WriterRuns, WriterRuns]))) = map Data ds @ [Eof]
     \<and> concat ds = [1, 2]"
proof -
  let ?w = "foldl writer_step (start_writer open_sink) [LibraryWrites [1, 2], LibraryCloses]"
  have "bo_status ?w = Running" "bo_closed ?w" "PipeFails \<notin> set [WriterRuns, WriterRuns]"
      "length (bo_pending ?w) + CHUNK \<le> CHUNK * count_list [WriterRuns, WriterRuns] WriterRuns"
      "bo_taken ?w = [1, 2]"
    by (simp_all add: writer_step_def start_writer_def Let_def CHUNK_def BRIDGE_BUF_def)
  from sftp_bridge_drains [OF this(1-4)] this(5) show ?thesis by auto
qed

end
