(* ===== verification/File_Copy.thy ===== *)
theory File_Copy
  imports Sftp "HOL-Library.Sublist"
begin

text \<open>
  \<^verbatim>\<open>sqsh/src/bin/sqcp.rs\<close>: copying files and trees from and to a server. The SFTP library with all that is
  behind it is an argument: a record of its calls on a state of its own, so what the server answers may
  depend on everything before. The local side is the file system of \<^verbatim>\<open>Files\<close>.
\<close>

datatype copy_error =
    RemoteFailed string string
  | LocalFailed io_kind
  | OmitsDirectory string
  | NoBasename
  | BothRemote
  | NeitherRemote
  | CopyConfig config_error
  | MissingArgument string
  | NotADirectory string
  | UnknownCommand string

text \<open>
  An entry of a listing is a name and whether it is a directory, if the server said so. A listing that
  never ends is not represented; a file that never ends is.
\<close>

type_synonym remote_entry = "string \<times> bool option"

record 'r sftp =
  sf_metadata :: "string \<Rightarrow> 'r \<Rightarrow> (string + bool option) \<times> 'r"
  sf_open_dir :: "string \<Rightarrow> 'r \<Rightarrow> (string + (string + remote_entry) list) \<times> 'r"
  sf_canonicalize :: "string \<Rightarrow> 'r \<Rightarrow> (string + string) \<times> 'r"
  sf_create_dir :: "string \<Rightarrow> 'r \<Rightarrow> (string + unit) \<times> 'r"
  sf_remove_dir :: "string \<Rightarrow> 'r \<Rightarrow> (string + unit) \<times> 'r"
  sf_remove_file :: "string \<Rightarrow> 'r \<Rightarrow> (string + unit) \<times> 'r"
  sf_rename :: "string \<Rightarrow> string \<Rightarrow> 'r \<Rightarrow> (string + unit) \<times> 'r"
  sf_open :: "string \<Rightarrow> 'r \<Rightarrow> (string + nat) \<times> 'r"
  sf_create :: "string \<Rightarrow> 'r \<Rightarrow> (string + nat) \<times> 'r"
  sf_read :: "nat \<Rightarrow> nat \<Rightarrow> 'r \<Rightarrow> (string + byte list option) \<times> 'r"
  sf_write :: "nat \<Rightarrow> byte list \<Rightarrow> 'r \<Rightarrow> (string + unit) \<times> 'r"
  sf_close :: "nat \<Rightarrow> 'r \<Rightarrow> (string + unit) \<times> 'r"

record 'r transfer =
  tf_remote :: 'r
  tf_local :: fsys
  tf_printed :: "string list"

text \<open>
  A part of a transfer: its result, \<open>None\<close> while it still runs with its fuel used up, and the state.
\<close>

type_synonym ('r, 'a) action = "'r transfer \<Rightarrow> (copy_error + 'a) option \<times> 'r transfer"

definition copy_then :: "('r, 'a) action \<Rightarrow> ('a \<Rightarrow> ('r, 'b) action) \<Rightarrow> ('r, 'b) action" where
  "copy_then m f s = (case m s of
      (None, s1) \<Rightarrow> (None, s1)
    | (Some (Inl e), s1) \<Rightarrow> (Some (Inl e), s1)
    | (Some (Inr a), s1) \<Rightarrow> f a s1)"

definition copy_give :: "'a \<Rightarrow> ('r, 'a) action" where
  "copy_give a s = (Some (Inr a), s)"

definition copy_fail :: "copy_error \<Rightarrow> ('r, 'a) action" where
  "copy_fail e s = (Some (Inl e), s)"

definition still_running :: "('r, 'a) action" where
  "still_running s = (None, s)"

definition print_line :: "string \<Rightarrow> ('r, unit) action" where
  "print_line l s = (Some (Inr ()), s\<lparr>tf_printed := tf_printed s @ [l]\<rparr>)"

definition on_remote :: "string \<Rightarrow> ('r \<Rightarrow> (string + 'a) \<times> 'r) \<Rightarrow> ('r, 'a) action" where
  "on_remote what f s = (case f (tf_remote s) of
      (Inl e, r) \<Rightarrow> (Some (Inl (RemoteFailed what e)), s\<lparr>tf_remote := r\<rparr>)
    | (Inr a, r) \<Rightarrow> (Some (Inr a), s\<lparr>tf_remote := r\<rparr>))"

text \<open>A call whose failure the code handles itself.\<close>

definition ask_remote :: "('r \<Rightarrow> (string + 'a) \<times> 'r) \<Rightarrow> ('r, string + 'a) action" where
  "ask_remote f s = (case f (tf_remote s) of (r, r1) \<Rightarrow> (Some (Inr r), s\<lparr>tf_remote := r1\<rparr>))"

definition on_local :: "(fsys \<Rightarrow> (io_kind + 'a) \<times> fsys) \<Rightarrow> ('r, 'a) action" where
  "on_local f s = (case f (tf_local s) of
      (Inl e, fs) \<Rightarrow> (Some (Inl (LocalFailed e)), s\<lparr>tf_local := fs\<rparr>)
    | (Inr a, fs) \<Rightarrow> (Some (Inr a), s\<lparr>tf_local := fs\<rparr>))"

definition look_local :: "(fsys \<Rightarrow> io_kind + 'a) \<Rightarrow> ('r, 'a) action" where
  "look_local f = on_local (\<lambda>fs. (f fs, fs))"

section \<open>Arguments and paths\<close>

fun find_from :: "char \<Rightarrow> string \<Rightarrow> nat option" where
  "find_from c [] = None"
| "find_from c (x # xs) = (if x = c then Some 0 else map_option Suc (find_from c xs))"

definition parse_remote :: "string \<Rightarrow> (string \<times> string) option" where
  "parse_remote arg =
     (let at = (\<lambda>colon. let path = drop (colon + 1) arg in
        (take colon arg, if path = [] then ''.'' else path)) in
      case find_from CHR ''['' arg of
        Some lb \<Rightarrow> (case find_from CHR '']'' (drop lb arg) of
            None \<Rightarrow> None
          | Some r \<Rightarrow> let rb = r + lb in
              map_option (\<lambda>c. at (c + rb + 1)) (find_from CHR '':'' (drop (rb + 1) arg)))
      | None \<Rightarrow> (case find_from CHR '':'' arg of
            None \<Rightarrow> None
          | Some c \<Rightarrow> (case find_from CHR ''/'' arg of
              Some slash \<Rightarrow> if slash < c then None else Some (at c)
            | None \<Rightarrow> Some (at c))))"

text \<open>\<open>PathBuf::join\<close> on texts, and \<open>Path::file_name\<close>.\<close>

definition str_join :: "string \<Rightarrow> string \<Rightarrow> string" where
  "str_join a b =
     (if starts_with ''/'' b then b else if a = [] \<or> ends_with ''/'' a then a @ b else a @ ''/'' @ b)"

definition file_name :: "string \<Rightarrow> string option" where
  "file_name s = (let cs = comps (path_of_string s) in
     if cs = [] \<or> last cs \<in> {''.'', ''..''} then None else Some (last cs))"

definition remote_basename :: "'r sftp \<Rightarrow> string \<Rightarrow> ('r, string) action" where
  "remote_basename lib rpath = (case file_name rpath of
      Some name \<Rightarrow> copy_give name
    | None \<Rightarrow> copy_then (on_remote ''canonicalize'' (sf_canonicalize lib rpath)) (\<lambda>real.
        case file_name real of Some n \<Rightarrow> copy_give n | None \<Rightarrow> copy_fail NoBasename))"

section \<open>Download\<close>

definition COPY_CHUNK :: nat where
  "COPY_CHUNK = 32 * 1024"

text \<open>The fuel counts the reads of a file and the directories of a tree.\<close>

primrec copy_down :: "nat \<Rightarrow> 'r sftp \<Rightarrow> nat \<Rightarrow> string \<Rightarrow> ('r, unit) action" where
  "copy_down 0 lib h local = still_running"
| "copy_down (Suc n) lib h local =
     copy_then (on_remote ''read'' (sf_read lib h COPY_CHUNK)) (\<lambda>r. case r of
         Some (b # bs) \<Rightarrow> copy_then (on_local (file_write_all (path_of_string local) (b # bs)))
           (\<lambda>_. copy_down n lib h local)
       | _ \<Rightarrow> copy_give ())"

definition download_file :: "nat \<Rightarrow> 'r sftp \<Rightarrow> string \<Rightarrow> string \<Rightarrow> ('r, unit) action" where
  "download_file n lib rpath local =
     copy_then (on_remote ''open'' (sf_open lib rpath)) (\<lambda>h.
     copy_then (on_local (create_truncate (path_of_string local) 0x1B6)) (\<lambda>_.
     copy_then (copy_down n lib h local) (\<lambda>_.
     copy_then (on_remote ''close'' (sf_close lib h)) (\<lambda>_.
       print_line (''sqcp: '' @ rpath @ '' -> '' @ local)))))"

fun download_files :: "nat \<Rightarrow> 'r sftp \<Rightarrow> (string \<times> string) list \<Rightarrow> ('r, unit) action" where
  "download_files n lib [] = copy_give ()"
| "download_files n lib ((rchild, lchild) # files) =
     copy_then (download_file n lib rchild lchild) (\<lambda>_. download_files n lib files)"

text \<open>
  What the entries of a directory add: directories to the stack of work (its top first), other entries
  to the files.
\<close>

fun scan_entries :: "string \<Rightarrow> string \<Rightarrow> (string + remote_entry) list
    \<Rightarrow> (string \<times> string) list \<times> (string \<times> string) list
    \<Rightarrow> string + (string \<times> string) list \<times> (string \<times> string) list" where
  "scan_entries rdir ldir [] acc = Inr acc"
| "scan_entries rdir ldir (Inl e # es) acc = Inl e"
| "scan_entries rdir ldir (Inr (name, d) # es) (work, files) =
     (if name = ''.'' \<or> name = ''..'' then scan_entries rdir ldir es (work, files)
      else let child = (str_join rdir name, str_join ldir name) in
        if d = Some True then scan_entries rdir ldir es (child # work, files)
        else scan_entries rdir ldir es (work, files @ [child]))"

primrec tree_down :: "nat \<Rightarrow> 'r sftp \<Rightarrow> (string \<times> string) list \<Rightarrow> ('r, unit) action" where
  "tree_down 0 lib work = still_running"
| "tree_down (Suc n) lib work = (case work of
      [] \<Rightarrow> copy_give ()
    | (rdir, ldir) # rest \<Rightarrow>
        copy_then (on_local (create_dir_all (path_of_string ldir))) (\<lambda>_.
        copy_then (on_remote ''open_dir'' (sf_open_dir lib rdir)) (\<lambda>es.
          case scan_entries rdir ldir es (rest, []) of
            Inl e \<Rightarrow> copy_fail (RemoteFailed ''read_dir'' e)
          | Inr (work1, files) \<Rightarrow>
              copy_then (download_files n lib files) (\<lambda>_. tree_down n lib work1))))"

definition download_tree :: "nat \<Rightarrow> 'r sftp \<Rightarrow> string \<Rightarrow> string \<Rightarrow> ('r, unit) action" where
  "download_tree n lib remote_root local_root = tree_down n lib [(remote_root, local_root)]"

definition download_inner ::
  "nat \<Rightarrow> 'r sftp \<Rightarrow> bool \<Rightarrow> string \<Rightarrow> string \<Rightarrow> ('r, unit) action" where
  "download_inner n lib recursive rpath dst =
     copy_then (on_remote ''stat'' (sf_metadata lib rpath)) (\<lambda>md.
     copy_then (look_local (\<lambda>fs. Inr (is_dir (path_of_string dst) fs))) (\<lambda>dst_is_dir.
       if md = Some True \<and> \<not> recursive then copy_fail (OmitsDirectory rpath)
       else copy_then (if dst_is_dir
             then copy_then (remote_basename lib rpath) (\<lambda>b. copy_give (str_join dst b))
             else copy_give dst)
           (\<lambda>target. if md = Some True then download_tree n lib rpath target
              else download_file n lib rpath target)))"

section \<open>Upload\<close>

text \<open>What the operating system lists of a local directory: the names, or an error in between.\<close>

type_synonym local_listing = "string \<Rightarrow> fsys \<Rightarrow> io_kind + (io_kind + string) list"

text \<open>Opening for reading: a directory can be opened, but not read.\<close>

definition open_local :: "path \<Rightarrow> fsys \<Rightarrow> io_kind + (io_kind + byte list)" where
  "open_local p fs = (case fs_check ReadFile p fs of
      Some e \<Rightarrow> Inl e
    | None \<Rightarrow> (case nodes fs (resolve fs p) of
        None \<Rightarrow> Inl NotFound
      | Some nd \<Rightarrow> (case nd_kind nd of
          RegularFile \<Rightarrow> Inr (Inr (nd_data nd))
        | Directory \<Rightarrow> Inr (Inl OtherIo)
        | Socket \<Rightarrow> Inl OtherIo)))"

function chunks :: "byte list \<Rightarrow> byte list list" where
  "chunks [] = []"
| "chunks (b # bs) = take COPY_CHUNK (b # bs) # chunks (drop COPY_CHUNK (b # bs))"
  by pat_completeness auto
termination
  by (relation "measure length") (simp_all add: COPY_CHUNK_def)

fun copy_up :: "'r sftp \<Rightarrow> nat \<Rightarrow> byte list list \<Rightarrow> ('r, unit) action" where
  "copy_up lib h [] = copy_give ()"
| "copy_up lib h (c # cs) =
     copy_then (on_remote ''write'' (sf_write lib h c)) (\<lambda>_. copy_up lib h cs)"

definition upload_file :: "'r sftp \<Rightarrow> string \<Rightarrow> string \<Rightarrow> ('r, unit) action" where
  "upload_file lib local rpath =
     copy_then (look_local (open_local (path_of_string local))) (\<lambda>contents.
     copy_then (on_remote ''create'' (sf_create lib rpath)) (\<lambda>h.
     copy_then (case contents of Inl e \<Rightarrow> copy_fail (LocalFailed e) | Inr d \<Rightarrow> copy_up lib h (chunks d)) (\<lambda>_.
     copy_then (on_remote ''close'' (sf_close lib h)) (\<lambda>_.
       print_line (''sqcp: '' @ local @ '' -> '' @ rpath)))))"

fun upload_files :: "'r sftp \<Rightarrow> (string \<times> string) list \<Rightarrow> ('r, unit) action" where
  "upload_files lib [] = copy_give ()"
| "upload_files lib ((lchild, rchild) # files) =
     copy_then (upload_file lib lchild rchild) (\<lambda>_. upload_files lib files)"

definition ensure_remote_dir :: "'r sftp \<Rightarrow> string \<Rightarrow> ('r, unit) action" where
  "ensure_remote_dir lib p =
     copy_then (ask_remote (sf_create_dir lib p)) (\<lambda>made. case made of
         Inr _ \<Rightarrow> copy_give ()
       | Inl e \<Rightarrow> copy_then (ask_remote (sf_metadata lib p)) (\<lambda>md.
           if md = Inr (Some True) then copy_give () else copy_fail (RemoteFailed ''mkdir'' e)))"

fun scan_local :: "'r sftp \<Rightarrow> string \<Rightarrow> string \<Rightarrow> (io_kind + string) list
    \<Rightarrow> (string \<times> string) list \<times> (string \<times> string) list
    \<Rightarrow> ('r, (string \<times> string) list \<times> (string \<times> string) list) action" where
  "scan_local lib ldir rdir [] acc = copy_give acc"
| "scan_local lib ldir rdir (Inl e # es) acc = copy_fail (LocalFailed e)"
| "scan_local lib ldir rdir (Inr name # es) (work, files) =
     (let lchild = str_join ldir name; rchild = str_join rdir name in
      copy_then (look_local (metadata (path_of_string lchild))) (\<lambda>nd.
        if nd_kind nd = Directory
        then copy_then (ensure_remote_dir lib rchild)
          (\<lambda>_. scan_local lib ldir rdir es ((lchild, rchild) # work, files))
        else scan_local lib ldir rdir es (work, files @ [(lchild, rchild)])))"

primrec tree_up :: "nat \<Rightarrow> 'r sftp \<Rightarrow> local_listing \<Rightarrow> (string \<times> string) list \<Rightarrow> ('r, unit) action" where
  "tree_up 0 lib ls work = still_running"
| "tree_up (Suc n) lib ls work = (case work of
      [] \<Rightarrow> copy_give ()
    | (ldir, rdir) # rest \<Rightarrow>
        copy_then (look_local (ls ldir)) (\<lambda>es.
        copy_then (scan_local lib ldir rdir es (rest, [])) (\<lambda>(work1, files).
        copy_then (upload_files lib files) (\<lambda>_. tree_up n lib ls work1))))"

definition upload_tree ::
  "nat \<Rightarrow> 'r sftp \<Rightarrow> local_listing \<Rightarrow> string \<Rightarrow> string \<Rightarrow> ('r, unit) action" where
  "upload_tree n lib ls local_root remote_root =
     copy_then (ensure_remote_dir lib remote_root) (\<lambda>_. tree_up n lib ls [(local_root, remote_root)])"

definition upload_inner ::
  "nat \<Rightarrow> 'r sftp \<Rightarrow> local_listing \<Rightarrow> bool \<Rightarrow> string \<Rightarrow> string \<Rightarrow> ('r, unit) action" where
  "upload_inner n lib ls recursive src rpath =
     copy_then (look_local (metadata (path_of_string src))) (\<lambda>meta.
     copy_then (ask_remote (sf_metadata lib rpath)) (\<lambda>md.
       if nd_kind meta = Directory \<and> \<not> recursive then copy_fail (OmitsDirectory src)
       else copy_then (if md = Inr (Some True)
             then (case file_name src of None \<Rightarrow> copy_fail NoBasename | Some b \<Rightarrow> copy_give (str_join rpath b))
             else copy_give rpath)
           (\<lambda>target. if nd_kind meta = Directory then upload_tree n lib ls src target
              else upload_file lib src target)))"

section \<open>The program\<close>

record copy_cli =
  cp_recursive :: bool
  cp_identity :: "string option"
  cp_port :: "u16 option"
  cp_src :: string
  cp_dst :: string

definition copy_args :: "copy_cli \<Rightarrow> string \<Rightarrow> cli_args" where
  "copy_args cli host =
     \<lparr>a_target = host, a_port = cp_port cli, a_ssh_port = None, a_user = None,
      a_identity = cp_identity cli, a_command = [], a_subsystem = None, a_local_forwards = [],
      a_remote_forwards = [], a_no_shell = False, a_control_path = None, a_control_master = False,
      a_control_persist = None\<rparr>"

text \<open>
  \<open>resolving\<close> is \<open>ClientConfig::resolve\<close>; \<open>dial\<close> connects to the server and starts the SFTP session.
\<close>

definition copy_connect ::
  "(cli_args \<Rightarrow> config_error + client_config) \<Rightarrow> (client_config \<Rightarrow> 'r \<Rightarrow> (string + unit) \<times> 'r)
    \<Rightarrow> copy_cli \<Rightarrow> string \<Rightarrow> ('r, unit) action" where
  "copy_connect resolving dial cli host s = (case resolving (copy_args cli host) of
      Inl e \<Rightarrow> (Some (Inl (CopyConfig e)), s)
    | Inr cc \<Rightarrow> on_remote ''connect'' (dial cc) s)"

text \<open>
  A transfer over a connection of its own: whatever it ends with, \<open>hang_up\<close> (\<open>SftpClient::close\<close>) comes before
  that is returned.
\<close>

definition closing :: "('r \<Rightarrow> 'r) \<Rightarrow> ('r, 'a) action \<Rightarrow> ('r, 'a) action" where
  "closing hang_up m s = (case m s of
      (None, t) \<Rightarrow> (None, t)
    | (Some res, t) \<Rightarrow> (Some res, t\<lparr>tf_remote := hang_up (tf_remote t)\<rparr>))"

definition copy_download ::
  "nat \<Rightarrow> 'r sftp \<Rightarrow> (cli_args \<Rightarrow> config_error + client_config)
    \<Rightarrow> (client_config \<Rightarrow> 'r \<Rightarrow> (string + unit) \<times> 'r) \<Rightarrow> ('r \<Rightarrow> 'r) \<Rightarrow> copy_cli \<Rightarrow> string \<Rightarrow> string
    \<Rightarrow> ('r, unit) action" where
  "copy_download n lib resolving dial hang_up cli host rpath =
     copy_then (copy_connect resolving dial cli host)
       (\<lambda>_. closing hang_up (download_inner n lib (cp_recursive cli) rpath (cp_dst cli)))"

definition copy_upload ::
  "nat \<Rightarrow> 'r sftp \<Rightarrow> local_listing \<Rightarrow> (cli_args \<Rightarrow> config_error + client_config)
    \<Rightarrow> (client_config \<Rightarrow> 'r \<Rightarrow> (string + unit) \<times> 'r) \<Rightarrow> ('r \<Rightarrow> 'r) \<Rightarrow> copy_cli \<Rightarrow> string \<Rightarrow> string
    \<Rightarrow> ('r, unit) action" where
  "copy_upload n lib ls resolving dial hang_up cli host rpath =
     copy_then (copy_connect resolving dial cli host)
       (\<lambda>_. closing hang_up (upload_inner n lib ls (cp_recursive cli) (cp_src cli) rpath))"

definition sqcp_main ::
  "nat \<Rightarrow> 'r sftp \<Rightarrow> local_listing \<Rightarrow> (cli_args \<Rightarrow> config_error + client_config)
    \<Rightarrow> (client_config \<Rightarrow> 'r \<Rightarrow> (string + unit) \<times> 'r) \<Rightarrow> ('r \<Rightarrow> 'r) \<Rightarrow> copy_cli \<Rightarrow> ('r, unit) action" where
  "sqcp_main n lib ls resolving dial hang_up cli =
     (case (parse_remote (cp_src cli), parse_remote (cp_dst cli)) of
      (Some (host, rpath), None) \<Rightarrow> copy_download n lib resolving dial hang_up cli host rpath
    | (None, Some (host, rpath)) \<Rightarrow> copy_upload n lib ls resolving dial hang_up cli host rpath
    | (Some _, Some _) \<Rightarrow> copy_fail BothRemote
    | (None, None) \<Rightarrow> copy_fail NeitherRemote)"

section \<open>Relations an action keeps\<close>

text \<open>
  The interface of a relation between the states before and after a part of a transfer: it holds of
  doing nothing and of two parts one after the other.
\<close>

locale kept_relation =
  fixes R :: "'r transfer \<Rightarrow> 'r transfer \<Rightarrow> bool"
  assumes R_refl: "R s s" and R_trans: "R s t \<Longrightarrow> R t u \<Longrightarrow> R s u"
    and R_printed: "R s (s\<lparr>tf_printed := out\<rparr>)"
begin

lemma keeps_then:
  "R s (snd (m s)) \<Longrightarrow> (\<And>a t. m s = (Some (Inr a), t) \<Longrightarrow> R t (snd (f a t))) \<Longrightarrow> R s (snd (copy_then m f s))"
  by (auto simp: copy_then_def split: prod.split option.split sum.split intro: R_trans)

lemma keeps_basic [simp]:
  "R s (snd (copy_give a s))" "R s (snd (copy_fail e s))" "R s (snd (still_running s))"
  "R s (snd (print_line l s))" "R s (snd (look_local f s))"
proof -
  have "snd (look_local f s) = s" by (simp add: look_local_def on_local_def split: sum.split)
  then show "R s (snd (look_local f s))" by (simp add: R_refl)
qed (simp_all add: copy_give_def copy_fail_def still_running_def print_line_def R_refl R_printed)

end

section \<open>Where names lead\<close>

lemma split_all_append_sep: "split_all c (a @ c # b) = split_all c a @ split_all c b"
proof (induction a)
  case (Cons x a)
  then show ?case by (cases "split_all c a") (auto simp: Let_def)
qed simp

definition real_comps :: "string \<Rightarrow> string list" where
  "real_comps s = filter (\<lambda>c. c \<noteq> [] \<and> c \<noteq> ''.'') (split_all CHR ''/'' s)"

lemma resolve_string:
  "resolve fs (path_of_string s) = (if starts_with ''/'' s then [] else cwd fs) @ real_comps s"
proof -
  let ?xs = "filter (\<lambda>c. c \<noteq> []) (split_all CHR ''/'' s)"
  have "real_comps s = filter (\<lambda>c. c \<noteq> ''.'') ?xs" by (simp add: real_comps_def conj_commute)
  moreover have "filter (\<lambda>c. c \<noteq> ''.'') (if b \<and> xs \<noteq> [] \<and> hd xs = ''.''
      then hd xs # filter (\<lambda>c. c \<noteq> ''.'') (tl xs) else filter (\<lambda>c. c \<noteq> ''.'') xs)
    = filter (\<lambda>c. c \<noteq> ''.'') xs" for b and xs :: "string list"
    by (cases xs) simp_all
  ultimately show ?thesis by (simp add: resolve_def path_of_string_def Let_def)
qed

lemma real_comps_join:
  "real_comps (a @ CHR ''/'' # b) = real_comps a @ real_comps b"
  by (simp add: real_comps_def split_all_append_sep)

definition name_comps :: "string \<Rightarrow> string list" where
  "name_comps n = (if n = [] \<or> n = ''.'' then [] else [n])"

lemma real_comps_name: "CHR ''/'' \<notin> set n \<Longrightarrow> real_comps n = name_comps n"
  by (simp add: real_comps_def name_comps_def split_all_no_sep)

lemma resolve_str_join:
  assumes "CHR ''/'' \<notin> set n"
  shows "resolve fs (path_of_string (str_join p n)) = resolve fs (path_of_string p) @ name_comps n"
proof -
  have n: "\<not> starts_with ''/'' n" using assms by (auto simp: starts_with_iff)
  consider "p = []" | q where "p = q @ ''/''" | "p \<noteq> []" "\<not> ends_with ''/'' p"
    by (auto simp: ends_with_iff)
  then show ?thesis
  proof cases
    case 1
    moreover have "real_comps [] = []" "\<not> starts_with ''/'' []"
      by (simp_all add: real_comps_def starts_with_iff)
    ultimately show ?thesis
      using n by (simp add: str_join_def resolve_string real_comps_name [OF assms])
  next
    case 2
    then have "str_join p n = q @ CHR ''/'' # n" using n by (simp add: str_join_def ends_with_iff)
    moreover have "real_comps p = real_comps q" using 2 real_comps_join [of q "[]"]
      by (simp add: real_comps_def)
    moreover have "starts_with ''/'' (q @ CHR ''/'' # n) = starts_with ''/'' p"
      using 2 by (cases q) (simp_all add: starts_with_def)
    ultimately show ?thesis
      by (simp add: resolve_string real_comps_join real_comps_name [OF assms])
  next
    case 3
    then have "str_join p n = p @ CHR ''/'' # n" using n by (simp add: str_join_def)
    moreover have "starts_with ''/'' (p @ CHR ''/'' # n) = starts_with ''/'' p"
      using 3(1) by (cases p) (simp_all add: starts_with_def)
    ultimately show ?thesis
      by (simp add: resolve_string real_comps_join real_comps_name [OF assms])
  qed
qed

section \<open>Confinement\<close>

text \<open>
  What a change of the local files may touch: what is at or below \<open>root\<close>, and directories above it that
  were missing.
\<close>

definition confined :: "string list \<Rightarrow> fsys \<Rightarrow> fsys \<Rightarrow> bool" where
  "confined root fs fs' \<longleftrightarrow> same_setting fs fs' \<and> (\<forall>cs. nodes fs' cs = nodes fs cs \<or> prefix root cs
     \<or> (prefix cs root \<and> nodes fs cs = None \<and> (\<exists>nd. nodes fs' cs = Some nd \<and> nd_kind nd = Directory)))"

lemma confined_refl [simp]: "confined root fs fs"
  by (simp add: confined_def)

lemma confined_trans: "confined root a b \<Longrightarrow> confined root b c \<Longrightarrow> confined root a c"
proof -
  assume a: "confined root a b" and b: "confined root b c"
  have "nodes c cs = nodes a cs \<or> prefix root cs
     \<or> (prefix cs root \<and> nodes a cs = None \<and> (\<exists>nd. nodes c cs = Some nd \<and> nd_kind nd = Directory))" for cs
    using a [unfolded confined_def, THEN conjunct2, rule_format, of cs]
      b [unfolded confined_def, THEN conjunct2, rule_format, of cs] by auto
  with a b show ?thesis unfolding confined_def by (blast intro: same_setting_trans)
qed

lemma confined_cwd: "confined root fs fs' \<Longrightarrow> cwd fs' = cwd fs"
  by (simp add: confined_def same_setting_def)

lemma confined_update:
  "same_setting fs fs' \<Longrightarrow> nodes fs' = (nodes fs)(cs := x) \<Longrightarrow> prefix root cs \<Longrightarrow> confined root fs fs'"
  by (auto simp: confined_def)

lemma confined_same_nodes: "same_setting fs fs' \<Longrightarrow> nodes fs' = nodes fs \<Longrightarrow> confined root fs fs'"
  by (simp add: confined_def)

lemma create_truncate_confined:
  assumes "prefix root (resolve fs p)"
  shows "confined root fs (snd (create_truncate p m fs))"
  using assms
  by (auto simp: create_truncate_def confined_refl split: option.split
      intro: confined_update [of _ _ "resolve fs p"])

lemma file_write_all_confined:
  assumes "prefix root (resolve fs p)"
  shows "confined root fs (snd (file_write_all p bs fs))"
proof -
  have "same_setting fs (snd (file_write_all p bs fs))"
    using file_write_all_setting [of p bs fs] by (metis prod.collapse)
  moreover have "\<exists>x. nodes (snd (file_write_all p bs fs)) = (nodes fs)(resolve fs p := x)"
    by (cases "nodes fs (resolve fs p)")
      (auto simp: file_write_all_def fun_upd_idem intro: exI [of _ None] split: option.split)
  ultimately show ?thesis using assms by (auto intro: confined_update)
qed

lemma mkdirs_confined:
  "prefix root (pre @ cs) \<or> prefix (pre @ cs) root \<Longrightarrow> confined root fs (snd (mkdirs pre cs fs))"
proof (induction pre cs fs rule: mkdirs.induct)
  case (2 pre c cs fs)
  have mk: "confined root fs (snd (mkdir (pre @ [c]) fs))" if "nodes fs (pre @ [c]) = None"
  proof -
    have "prefix root (pre @ [c]) \<or> prefix (pre @ [c]) root"
      using "2.prems" prefix_same_cases [of root "pre @ c # cs" "pre @ [c]"]
      by (auto intro: append_prefixD [of "pre @ [c]" cs])
    with that show ?thesis
      using mkdir_setting [of "pre @ [c]" fs]
      by (auto simp: mkdir_def confined_def split: option.split)
  qed
  show ?case
    using 2 mk
    by (auto simp: Let_def confined_refl split: option.split sum.split prod.split intro: confined_trans)
qed (simp add: confined_refl)

lemma create_dir_all_confined:
  "prefix root (resolve fs p) \<Longrightarrow> confined root fs (snd (create_dir_all p fs))"
  by (simp add: create_dir_all_def confined_refl mkdirs_confined)

definition plain_names :: "'r sftp \<Rightarrow> bool" where
  "plain_names lib \<longleftrightarrow> (\<forall>p r es r1. sf_open_dir lib p r = (Inr es, r1) \<longrightarrow>
     (\<forall>name d. Inr (name, d) \<in> set es \<longrightarrow> CHR ''/'' \<notin> set name))"

lemma on_remote_local [simp]: "tf_local (snd (on_remote what f s)) = tf_local s"
  by (simp add: on_remote_def split: prod.split sum.split)

lemma on_local_local [simp]: "tf_local (snd (on_local f s)) = snd (f (tf_local s))"
  by (simp add: on_local_def split: prod.split sum.split)

lemma basic_local [simp]:
  "tf_local (snd (copy_give a s)) = tf_local s" "tf_local (snd (copy_fail e s)) = tf_local s"
  "tf_local (snd (print_line l s)) = tf_local s" "tf_local (snd (still_running s)) = tf_local s"
  by (simp_all add: copy_give_def copy_fail_def print_line_def still_running_def)

text \<open>\<open>below\<close>: where a local path leads does not change during a transfer.\<close>

definition below :: "string list \<Rightarrow> string \<Rightarrow> fsys \<Rightarrow> bool" where
  "below root p fs \<longleftrightarrow> prefix root (resolve fs (path_of_string p))"

lemma below_join: "below root p fs \<Longrightarrow> CHR ''/'' \<notin> set n \<Longrightarrow> below root (str_join p n) fs"
  by (simp add: below_def resolve_str_join)

lemma scan_entries_below:
  assumes "scan_entries rdir ldir es (work, files) = Inr (work1, files1)"
    and "\<forall>name d. Inr (name, d) \<in> set es \<longrightarrow> CHR ''/'' \<notin> set name"
    and "below root ldir fs" "\<forall>(p, l) \<in> set (work @ files). below root l fs"
  shows "\<forall>(p, l) \<in> set (work1 @ files1). below root l fs"
  using assms
proof (induction es arbitrary: work files)
  case (Cons e es)
  show ?case
  proof (cases e)
    case (Inr nd)
    obtain name d where nd: "nd = (name, d)" by fastforce
    have rest: "\<forall>name d. Inr (name, d) \<in> set es \<longrightarrow> CHR ''/'' \<notin> set name" using Cons.prems(2) by simp
    have "below root (str_join ldir name) fs"
      using Cons.prems(2,3) Inr nd by (auto intro: below_join)
    with Cons.prems(4) have "\<forall>(p, l) \<in> set (((str_join rdir name, str_join ldir name) # work) @ files). below root l fs"
        "\<forall>(p, l) \<in> set (work @ files @ [(str_join rdir name, str_join ldir name)]). below root l fs"
      by auto
    note more = this and same = Cons.prems(4)
    show ?thesis
    proof (cases "name = ''.'' \<or> name = ''..''")
      case True
      with Cons.prems(1) Inr nd have "scan_entries rdir ldir es (work, files) = Inr (work1, files1)" by auto
      from Cons.IH [OF this rest Cons.prems(3) same] show ?thesis .
    next
      case False
      with Cons.prems(1) Inr nd
      consider "scan_entries rdir ldir es ((str_join rdir name, str_join ldir name) # work, files) = Inr (work1, files1)"
        | "scan_entries rdir ldir es (work, files @ [(str_join rdir name, str_join ldir name)]) = Inr (work1, files1)"
        by (auto simp: Let_def split: if_splits)
      then show ?thesis
        by cases (rule Cons.IH [OF _ rest Cons.prems(3)], assumption, rule more)+
    qed
  qed (use Cons.prems in simp)
qed simp

lemma split_all_clean: "c \<in> set (split_all sep s) \<Longrightarrow> sep \<notin> set c"
proof (induction s arbitrary: c)
  case (Cons x s)
  then show ?case by (cases "split_all sep s") (auto simp: Let_def split: if_splits)
qed simp

lemma path_of_string_clean: "c \<in> set (comps (path_of_string s)) \<Longrightarrow> CHR ''/'' \<notin> set c"
proof -
  let ?parts = "filter (\<lambda>c. c \<noteq> []) (split_all CHR ''/'' s)"
  assume "c \<in> set (comps (path_of_string s))"
  then have "c \<in> set ?parts"
    by (cases ?parts) (auto simp: path_of_string_def Let_def split: if_splits)
  then show ?thesis by (auto dest: split_all_clean)
qed

lemma file_name_clean: "file_name s = Some b \<Longrightarrow> CHR ''/'' \<notin> set b"
  using path_of_string_clean [of "last (comps (path_of_string s))" s]
  by (auto simp: file_name_def Let_def split: if_splits)

section \<open>The effects of a download\<close>

text \<open>
  The interface of a relation between states of the files: the changes a download makes at or below
  \<open>root\<close> keep it. Then a download to a destination at or below \<open>root\<close> keeps it, if the names in the listings are plain.
\<close>

locale download_effects =
  fixes E :: "string list \<Rightarrow> fsys \<Rightarrow> fsys \<Rightarrow> bool"
  assumes E_refl [simp]: "E root fs fs" and E_trans: "E root x y \<Longrightarrow> E root y z \<Longrightarrow> E root x z"
    and E_cwd: "E root fs fs' \<Longrightarrow> cwd fs' = cwd fs"
    and E_truncate: "prefix root (resolve fs p) \<Longrightarrow> E root fs (snd (create_truncate p m fs))"
    and E_write_all: "prefix root (resolve fs p) \<Longrightarrow> E root fs (snd (file_write_all p bs fs))"
    and E_create_dir_all: "prefix root (resolve fs p) \<Longrightarrow> E root fs (snd (create_dir_all p fs))"
begin

lemma kept: "kept_relation (\<lambda>s t. E root (tf_local s) (tf_local t))"
  by unfold_locales (auto simp: E_refl intro: E_trans)

lemmas keeps_then = kept_relation.keeps_then [OF kept]

lemma below_kept: "E r fs fs' \<Longrightarrow> below root p fs' = below root p fs"
  by (simp add: below_def resolve_def E_cwd)

lemma copy_down_kept:
  "below root l (tf_local s) \<Longrightarrow> E root (tf_local s) (tf_local (snd (copy_down n lib h l s)))"
proof (induction n arbitrary: s)
  case (Suc n)
  show ?case
    unfolding copy_down.simps
  proof (rule keeps_then, goal_cases)
    case (2 a t)
    then have t: "tf_local t = tf_local s" by (metis on_remote_local snd_conv)
    show ?case
    proof (cases a)
      case (Some d)
      show ?thesis
      proof (cases d)
        case (Cons b bs)
        have w: "E root (tf_local t) (snd (file_write_all (path_of_string l) (b # bs) (tf_local t)))"
          using Suc.prems t by (simp add: E_write_all below_def)
        then have "E root (tf_local t) (tf_local (snd (copy_then
            (on_local (file_write_all (path_of_string l) (b # bs))) (\<lambda>_. copy_down n lib h l) t)))"
        proof (intro keeps_then, goal_cases)
          case (2 u v)
          then have "tf_local v = snd (file_write_all (path_of_string l) (b # bs) (tf_local t))"
            by (metis on_local_local snd_conv)
          with w have "below root l (tf_local v)" using below_kept Suc.prems t by metis
          then show ?case by (rule Suc.IH)
        qed simp
        with Some Cons show ?thesis by simp
      qed (simp add: Some)
    qed simp
  qed (simp add: E_refl)
qed simp

lemma step:
  assumes "E root (tf_local s) (tf_local (snd (m s)))"
    and "\<And>a t. m s = (Some (Inr a), t) \<Longrightarrow> E root (tf_local s) (tf_local t) \<Longrightarrow>
      E root (tf_local t) (tf_local (snd (f a t)))"
  shows "E root (tf_local s) (tf_local (snd (copy_then m f s)))"
  using assms by (intro keeps_then) auto

lemma remote_step:
  "(\<And>a t. tf_local t = tf_local s \<Longrightarrow> g (tf_remote s) = (Inr a, tf_remote t) \<Longrightarrow>
       E root (tf_local t) (tf_local (snd (f a t)))) \<Longrightarrow>
     E root (tf_local s) (tf_local (snd (copy_then (on_remote what g) f s)))"
  by (rule step) (auto simp: E_refl on_remote_def split: prod.splits sum.splits)

lemma local_step:
  assumes "E root (tf_local s) (snd (g (tf_local s)))" "below root l (tf_local s)"
    and "\<And>a t. below root l (tf_local t) \<Longrightarrow> E root (tf_local s) (tf_local t) \<Longrightarrow>
      tf_remote t = tf_remote s \<Longrightarrow> E root (tf_local t) (tf_local (snd (f a t)))"
  shows "E root (tf_local s) (tf_local (snd (copy_then (on_local g) f s)))"
proof (rule step, goal_cases)
  case (2 a t)
  have "tf_remote t = tf_remote s"
    using 2(1) by (auto simp: on_local_def split: prod.splits sum.splits)
  with 2(2) assms(2) below_kept show ?case by (metis assms(3))
qed (simp add: assms(1))

lemma download_file_kept:
  assumes "below root l (tf_local s)"
  shows "E root (tf_local s) (tf_local (snd (download_file n lib p l s)))"
  unfolding download_file_def
proof (rule remote_step, goal_cases)
  case (1 h t)
  with assms have b: "below root l (tf_local t)" by simp
  show ?case
  proof (rule local_step [OF _ b], goal_cases)
    case (2 a u)
    show ?case
    proof (rule step, goal_cases)
      case (2 x v)
      show ?case by (rule remote_step) (simp add: E_refl)
    qed (rule copy_down_kept [OF 2(1)])
  qed (use b in \<open>simp add: E_truncate below_def\<close>)
qed

lemma download_files_kept:
  "\<forall>(p, l) \<in> set files. below root l (tf_local s) \<Longrightarrow>
     E root (tf_local s) (tf_local (snd (download_files n lib files s)))"
proof (induction files arbitrary: s)
  case (Cons f files)
  obtain p l where f: "f = (p, l)" by fastforce
  show ?case
    unfolding f download_files.simps
  proof (rule step, goal_cases)
    case (2 a t)
    then have "\<forall>(p, l) \<in> set files. below root l (tf_local t)"
      using Cons.prems below_kept by fastforce
    then show ?case by (rule Cons.IH)
  qed (use Cons.prems f in \<open>simp add: download_file_kept\<close>)
qed simp

lemma tree_down_kept:
  assumes "plain_names lib"
  shows "\<forall>(p, l) \<in> set work. below root l (tf_local s) \<Longrightarrow>
     E root (tf_local s) (tf_local (snd (tree_down n lib work s)))"
proof (induction n arbitrary: work s)
  case (Suc n)
  show ?case
  proof (cases work)
    case (Cons w rest)
    obtain p l where w: "w = (p, l)" by fastforce
    have b: "below root l (tf_local s)" using Suc.prems Cons w by simp
    have r: "\<forall>(p, l) \<in> set rest. below root l fs" if "E root (tf_local s) fs" for fs
      using Suc.prems Cons that below_kept by fastforce
    show ?thesis
      unfolding Cons w tree_down.simps list.case prod.case
    proof (rule local_step [OF _ b], goal_cases)
      case (2 a t)
      show ?case
      proof (rule remote_step, goal_cases)
        case (1 es u)
        have plain: "\<forall>name d. Inr (name, d) \<in> set es \<longrightarrow> CHR ''/'' \<notin> set name"
          using assms 1(2) unfolding plain_names_def by blast
        show ?case
        proof (cases "scan_entries p l es (rest, [])")
          case (Inr acc)
          obtain work1 files where acc: "acc = (work1, files)" by fastforce
          have "below root l (tf_local u)" using 2(1) 1(1) by simp
          moreover have "\<forall>(p, l) \<in> set (rest @ []). below root l (tf_local u)"
            using r [OF 2(2)] 1(1) by simp
          ultimately have all: "\<forall>(p, l) \<in> set (work1 @ files). below root l (tf_local u)"
            using scan_entries_below [OF _ plain] Inr acc by blast
          have "E root (tf_local u) (tf_local (snd (copy_then (download_files n lib files)
              (\<lambda>_. tree_down n lib work1) u)))"
          proof (rule step, goal_cases)
            case (2 x v)
            then have "\<forall>(p, l) \<in> set work1. below root l (tf_local v)"
              using all below_kept by fastforce
            then show ?case by (rule Suc.IH)
          qed (use all in \<open>auto intro: download_files_kept\<close>)
          with Inr acc show ?thesis by simp
        qed simp
      qed
    qed (use b in \<open>simp add: E_create_dir_all below_def\<close>)
  qed simp
qed simp

lemma download_inner_kept:
  assumes "plain_names lib" "below root dst (tf_local s)"
  shows "E root (tf_local s) (tf_local (snd (download_inner n lib recursive rpath dst s)))"
  unfolding download_inner_def
proof (rule remote_step, goal_cases)
  case (1 md t)
  have b: "below root dst (tf_local t)" using 1(1) assms(2) by simp
  have go: "E root (tf_local u) (tf_local (snd (if md = Some True
      then download_tree n lib rpath target u else download_file n lib rpath target u)))"
    if "below root target (tf_local u)" for target u
    using that by (auto simp: download_tree_def intro: tree_down_kept [OF assms(1)] download_file_kept)
  show ?case
    unfolding look_local_def
  proof (rule local_step [OF _ b], goal_cases)
    case (2 d u)
    let ?target = "if d then copy_then (remote_basename lib rpath) (\<lambda>b. copy_give (str_join dst b))
      else copy_give dst"
    have target: "below root x (tf_local v)" if "?target u = (Some (Inr x), v)" for x v
      using that 2(1)
      by (auto simp: remote_basename_def copy_then_def copy_give_def copy_fail_def on_remote_def
          dest!: file_name_clean intro: below_join
          split: if_splits option.splits prod.splits sum.splits)
    have same: "tf_local (snd (?target u)) = tf_local u"
      by (auto simp: remote_basename_def copy_then_def copy_give_def copy_fail_def on_remote_def
          split: option.split prod.split sum.split)
    have "E root (tf_local u) (tf_local (snd (copy_then ?target (\<lambda>target. if md = Some True
        then download_tree n lib rpath target else download_file n lib rpath target) u)))"
    proof (rule step, goal_cases)
      case (2 x v)
      from go [OF target [OF 2(1)]] show ?case by (cases "md = Some True") simp_all
    qed (simp only: same E_refl)
    then show ?case by (simp)
  qed (simp add: E_refl)
qed

end

interpretation confining: download_effects confined
  by unfold_locales
    (auto simp: confined_refl create_truncate_confined file_write_all_confined create_dir_all_confined
      intro: confined_trans dest: confined_cwd)

section \<open>Uploads\<close>

text \<open>An upload leaves the local files alone.\<close>

interpretation uploading: kept_relation "\<lambda>s t. tf_local t = tf_local s"
  by unfold_locales simp_all

lemma ask_remote_local [simp]: "tf_local (snd (ask_remote f s)) = tf_local s"
  by (simp add: ask_remote_def split: prod.split)

lemma copy_up_local: "tf_local (snd (copy_up lib h cs s)) = tf_local s"
  by (induction cs arbitrary: s) (auto intro!: uploading.keeps_then)

lemma upload_file_local: "tf_local (snd (upload_file lib l p s)) = tf_local s"
  unfolding upload_file_def
  by (intro uploading.keeps_then) (auto simp: copy_up_local split: sum.split)

lemma upload_files_local: "tf_local (snd (upload_files lib fs s)) = tf_local s"
  by (induction fs arbitrary: s) (auto intro!: uploading.keeps_then simp: upload_file_local)

lemma ensure_remote_dir_local: "tf_local (snd (ensure_remote_dir lib p s)) = tf_local s"
  unfolding ensure_remote_dir_def
  by (intro uploading.keeps_then) (auto intro!: uploading.keeps_then split: sum.split)

lemma scan_local_local: "tf_local (snd (scan_local lib l p es acc s)) = tf_local s"
proof (induction lib l p es acc arbitrary: s rule: scan_local.induct)
  case (3 lib l p name es work files)
  show ?case
    unfolding scan_local.simps Let_def
    by (intro uploading.keeps_then)
      (auto intro!: uploading.keeps_then simp: ensure_remote_dir_local 3 [OF refl refl])
qed simp_all

lemma tree_up_local: "tf_local (snd (tree_up n lib ls work s)) = tf_local s"
proof (induction n arbitrary: work s)
  case (Suc n)
  then show ?case
    by (auto intro!: uploading.keeps_then simp: scan_local_local upload_files_local
        split: list.split prod.split)
qed simp

lemma upload_keeps_local: "tf_local (snd (upload_inner n lib ls recursive src rpath s)) = tf_local s"
  unfolding upload_inner_def upload_tree_def
  by (intro uploading.keeps_then)
    (auto intro!: uploading.keeps_then simp: ensure_remote_dir_local tree_up_local upload_file_local
      split: option.split)

text \<open>Writes that all succeed, one after the other.\<close>

fun writes :: "'r sftp \<Rightarrow> nat \<Rightarrow> 'r \<Rightarrow> byte list list \<Rightarrow> 'r \<Rightarrow> bool" where
  "writes lib h r [] r1 \<longleftrightarrow> r1 = r"
| "writes lib h r (c # cs) r1 \<longleftrightarrow> (\<exists>r2. sf_write lib h c r = (Inr (), r2) \<and> writes lib h r2 cs r1)"

lemma copy_then_InrD:
  "copy_then m f s = (Some (Inr b), t) \<Longrightarrow> \<exists>a u. m s = (Some (Inr a), u) \<and> f a u = (Some (Inr b), t)"
  by (auto simp: copy_then_def split: prod.splits option.splits sum.splits)

lemma on_remote_InrD: "on_remote what f s = (Some (Inr a), t) \<Longrightarrow> f (tf_remote s) = (Inr a, tf_remote t)"
  by (auto simp: on_remote_def split: prod.splits sum.splits)

lemma look_local_InrD:
  assumes "look_local f s = (Some (Inr a), t)"
  shows "t = s" "f (tf_local s) = Inr a"
  using assms by (auto simp: look_local_def on_local_def split: sum.splits)

lemma concat_chunks: "concat (chunks d) = d"
  by (induction d rule: chunks.induct) simp_all

lemma chunks_bounded: "c \<in> set (chunks d) \<Longrightarrow> c \<noteq> [] \<and> length c \<le> COPY_CHUNK"
  by (induction d rule: chunks.induct) (auto simp: COPY_CHUNK_def)

lemma copy_up_writes:
  "copy_up lib h cs s = (Some (Inr ()), t) \<Longrightarrow> writes lib h (tf_remote s) cs (tf_remote t)"
proof (induction cs arbitrary: s)
  case (Cons c cs)
  obtain r where "sf_write lib h c (tf_remote s) = (Inr (), r)"
      "copy_up lib h cs (s\<lparr>tf_remote := r\<rparr>) = (Some (Inr ()), t)"
    using Cons.prems by (auto simp: copy_then_def on_remote_def split: prod.splits sum.splits)
  with Cons.IH [of "s\<lparr>tf_remote := r\<rparr>"] show ?case by auto
qed (simp add: copy_give_def)

text \<open>
  An upload that succeeds has sent the whole file: between creating it and closing it, all writes
  succeeded, each of at most 32 KiB, and together they are the contents of the local file.
\<close>

lemma upload_sends_the_file:
  assumes "upload_file lib l p s = (Some (Inr ()), s1)"
  shows "\<exists>nd h r1 r2 cs. nodes (tf_local s) (resolve (tf_local s) (path_of_string l)) = Some nd
    \<and> nd_kind nd = RegularFile \<and> sf_create lib p (tf_remote s) = (Inr h, r1)
    \<and> writes lib h r1 cs r2 \<and> concat cs = nd_data nd \<and> (\<forall>c \<in> set cs. length c \<le> 32768)
    \<and> sf_close lib h r2 = (Inr (), tf_remote s1)"
proof -
  obtain c s2 where c: "look_local (open_local (path_of_string l)) s = (Some (Inr c), s2)"
      and a: "copy_then (on_remote ''create'' (sf_create lib p)) (\<lambda>h.
        copy_then (case c of Inl e \<Rightarrow> copy_fail (LocalFailed e) | Inr d \<Rightarrow> copy_up lib h (chunks d)) (\<lambda>_.
        copy_then (on_remote ''close'' (sf_close lib h)) (\<lambda>_.
          print_line (''sqcp: '' @ l @ '' -> '' @ p)))) s2 = (Some (Inr ()), s1)"
    using copy_then_InrD [OF assms [unfolded upload_file_def]] by blast
  obtain h s3 where h: "on_remote ''create'' (sf_create lib p) s2 = (Some (Inr h), s3)"
      and b: "copy_then (case c of Inl e \<Rightarrow> copy_fail (LocalFailed e) | Inr d \<Rightarrow> copy_up lib h (chunks d)) (\<lambda>_.
        copy_then (on_remote ''close'' (sf_close lib h)) (\<lambda>_.
          print_line (''sqcp: '' @ l @ '' -> '' @ p))) s3 = (Some (Inr ()), s1)"
    using copy_then_InrD [OF a] by blast
  obtain s4 where u: "(case c of Inl e \<Rightarrow> copy_fail (LocalFailed e) | Inr d \<Rightarrow> copy_up lib h (chunks d)) s3
        = (Some (Inr ()), s4)"
      and e: "copy_then (on_remote ''close'' (sf_close lib h)) (\<lambda>_.
          print_line (''sqcp: '' @ l @ '' -> '' @ p)) s4 = (Some (Inr ()), s1)"
    using copy_then_InrD [OF b] by auto
  obtain s5 where v: "on_remote ''close'' (sf_close lib h) s4 = (Some (Inr ()), s5)"
      and w: "print_line (''sqcp: '' @ l @ '' -> '' @ p) s5 = (Some (Inr ()), s1)"
    using copy_then_InrD [OF e] by auto
  note look = look_local_InrD [OF c]
  obtain d where d: "c = Inr d" using u by (cases c) (simp_all add: copy_fail_def)
  then obtain nd where nd: "nodes (tf_local s) (resolve (tf_local s) (path_of_string l)) = Some nd"
      "nd_kind nd = RegularFile" "nd_data nd = d"
    using look(2) by (auto simp: open_local_def split: option.splits node_kind.splits)
  have "writes lib h (tf_remote s3) (chunks d) (tf_remote s4)" using copy_up_writes u d by simp
  moreover have "\<forall>c \<in> set (chunks d). length c \<le> 32768"
    using chunks_bounded by (auto simp: COPY_CHUNK_def)
  moreover have "sf_create lib p (tf_remote s) = (Inr h, tf_remote s3)"
    using on_remote_InrD [OF h] look(1) by simp
  moreover have "sf_close lib h (tf_remote s4) = (Inr (), tf_remote s1)"
    using on_remote_InrD [OF v] w by (auto simp: print_line_def)
  ultimately show ?thesis using nd concat_chunks by blast
qed

section \<open>Arguments\<close>

lemma find_from_append: "c \<notin> set a \<Longrightarrow> find_from c (a @ c # b) = Some (length a)"
  by (induction a) auto

lemma find_from_None: "find_from c s = None \<longleftrightarrow> c \<notin> set s"
  by (induction s) auto

lemma find_from_absent [simp]: "c \<notin> set s \<Longrightarrow> find_from c s = None"
  by (simp add: find_from_None)

lemma find_from_notin_append: "c \<notin> set a \<Longrightarrow> find_from c (a @ b) = map_option (\<lambda>i. length a + i) (find_from c b)"
  by (induction a; cases "find_from c b") auto

text \<open>
  \<^verbatim>\<open>host:path\<close> is remote, an empty path being the home directory, and so is \<^verbatim>\<open>user@[address]:path\<close>; an
  argument with a slash before its first colon, or without a colon, is local.
\<close>

lemma parse_remote_host:
  "CHR '':'' \<notin> set h \<Longrightarrow> CHR ''/'' \<notin> set h \<Longrightarrow> CHR ''['' \<notin> set (h @ p) \<Longrightarrow>
     parse_remote (h @ CHR '':'' # p) = Some (h, if p = [] then ''.'' else p)"
  by (auto simp: parse_remote_def find_from_append find_from_notin_append Let_def split: option.split)

lemma parse_remote_ipv6:
  assumes "CHR ''['' \<notin> set u" "CHR '']'' \<notin> set a"
  shows "parse_remote (u @ CHR ''['' # a @ CHR '']'' # CHR '':'' # p)
    = Some (u @ CHR ''['' # a @ '']'', if p = [] then ''.'' else p)"
proof -
  have "find_from CHR '']'' (CHR ''['' # a @ CHR '']'' # CHR '':'' # p) = Some (Suc (length a))"
    using find_from_append [of "CHR '']''" "CHR ''['' # a" "CHR '':'' # p"] assms(2) by simp
  then show ?thesis using assms(1) by (simp add: parse_remote_def find_from_append Let_def numeral_3_eq_3)
qed

lemma parse_remote_local:
  "CHR '':'' \<notin> set s \<Longrightarrow> parse_remote s = None"
  "CHR '':'' \<notin> set a \<Longrightarrow> CHR ''['' \<notin> set (a @ CHR ''/'' # b) \<Longrightarrow> parse_remote (a @ CHR ''/'' # b) = None"
proof -
  show "parse_remote s = None" if "CHR '':'' \<notin> set s"
    using that by (auto simp: parse_remote_def Let_def find_from_None split: option.split dest: in_set_dropD)
  assume a: "CHR '':'' \<notin> set a" "CHR ''['' \<notin> set (a @ CHR ''/'' # b)"
  obtain k where "find_from CHR ''/'' (a @ CHR ''/'' # b) = Some k" "k \<le> length a"
  proof (cases "CHR ''/'' \<in> set a")
    case True
    then obtain x y where "a = x @ CHR ''/'' # y" "CHR ''/'' \<notin> set x" by (meson split_list_first)
    with that [of "length x"] show ?thesis by (simp add: find_from_append)
  qed (use that in \<open>simp add: find_from_append\<close>)
  with a show "parse_remote (a @ CHR ''/'' # b) = None"
    by (auto simp: parse_remote_def Let_def find_from_notin_append split: option.split)
qed

text \<open>
  A remote path with an opening bracket: the rule for addresses is applied to it, and without a colon
  behind the closing one the argument is taken for a local path.
\<close>

lemma bracket_in_remote_path:
  assumes "CHR ''['' \<notin> set (h @ a)" "CHR '':'' \<notin> set b"
  shows "parse_remote (h @ CHR '':'' # a @ CHR ''['' # b) = None"
proof -
  have lb: "find_from CHR ''['' (h @ CHR '':'' # a @ CHR ''['' # b) = Some (length (h @ CHR '':'' # a))"
    using find_from_append [of "CHR ''[''" "h @ CHR '':'' # a" b] assms(1) by simp
  have d: "drop (length (h @ CHR '':'' # a)) (h @ CHR '':'' # a @ CHR ''['' # b) = CHR ''['' # b" by simp
  show ?thesis
  proof (cases "find_from CHR '']'' (CHR ''['' # b)")
    case (Some r)
    have "drop (r + length (h @ CHR '':'' # a) + 1) (h @ CHR '':'' # a @ CHR ''['' # b) = drop (r + 1) (CHR ''['' # b)"
      using drop_drop [of "r + 1" "length (h @ CHR '':'' # a)" "h @ CHR '':'' # a @ CHR ''['' # b"] d
      by (simp only: add.assoc add.commute [of 1] add.left_commute)
    then have "find_from CHR '':'' (drop (r + length (h @ CHR '':'' # a) + 1) (h @ CHR '':'' # a @ CHR ''['' # b)) = None"
      using assms(2) by (auto simp: find_from_None dest: in_set_dropD)
    then show ?thesis
      unfolding parse_remote_def Let_def lb option.case d Some by simp
  qed (simp only: parse_remote_def Let_def lb option.case d)
qed

section \<open>Properties\<close>


section \<open>Witnesses\<close>

text \<open>A server with one directory \<open>d\<close> and one file in it; its state is what is left to read.\<close>

definition refused :: "'r \<Rightarrow> (string + 'a) \<times> 'r" where
  "refused r = (Inl ''no'', r)"

definition demo_sftp :: "byte list list sftp" where
  "demo_sftp =
     \<lparr>sf_metadata = \<lambda>p r. (Inr (Some (p = ''d'')), r),
      sf_open_dir = \<lambda>p. if p = ''d''
        then (\<lambda>r. (Inr (map Inr [(''.'', Some True), (''f'', Some False)]), r)) else refused,
      sf_canonicalize = \<lambda>_. refused, sf_create_dir = \<lambda>_. refused, sf_remove_dir = \<lambda>_. refused,
      sf_remove_file = \<lambda>_. refused, sf_rename = \<lambda>_ _. refused,
      sf_open = \<lambda>p. if p = ''d/f'' then (\<lambda>r. (Inr 1, [[1], [2, 3]])) else refused,
      sf_create = \<lambda>_. refused,
      sf_read = \<lambda>h len r. (case r of [] \<Rightarrow> (Inr None, []) | c # cs \<Rightarrow> (Inr (Some c), cs)),
      sf_write = \<lambda>_ _. refused, sf_close = \<lambda>h r. (Inr (), r)\<rparr>"

definition demo_transfer :: "byte list list transfer" where
  "demo_transfer = \<lparr>tf_remote = [], tf_local = demo_fs, tf_printed = []\<rparr>"

lemma demo_dst:
  "resolve demo_fs (path_of_string ''/t'') = [''t'']" "\<not> empty_path (path_of_string ''/t'')"
  by (simp_all add: resolve_def path_of_string_def starts_with_def empty_path_def Let_def)


end
