(* ===== verification/Sftp_Shell.thy ===== *)
theory Sftp_Shell
  imports File_Copy
begin

text \<open>
  \<^verbatim>\<open>sqsh/src/bin/sqftp.rs\<close>: the interactive client, on the SFTP library and the local files of \<^verbatim>\<open>File_Copy\<close>. A
  command gives the remote directory that is current after it.
\<close>

section \<open>Arguments\<close>

definition resolve_remote :: "string \<Rightarrow> string \<Rightarrow> string" where
  "resolve_remote rcwd p = (if starts_with ''/'' p then p else str_join rcwd p)"

definition parse_command :: "string \<Rightarrow> (string \<times> string list) option" where
  "parse_command line = (case split_whitespace line of [] \<Rightarrow> None | cmd # rest \<Rightarrow> Some (cmd, rest))"

definition arg_or :: "string \<Rightarrow> string list \<Rightarrow> nat \<Rightarrow> (string \<Rightarrow> ('r, 'a) action) \<Rightarrow> ('r, 'a) action" where
  "arg_or missing as i f = (if i < length as then f (as ! i) else copy_fail (MissingArgument missing))"

definition name_or :: "string \<Rightarrow> string \<Rightarrow> (string \<Rightarrow> ('r, 'a) action) \<Rightarrow> ('r, 'a) action" where
  "name_or missing p f = (case file_name p of None \<Rightarrow> copy_fail (MissingArgument missing) | Some n \<Rightarrow> f n)"

section \<open>Transfers and listings\<close>

definition shell_download :: "nat \<Rightarrow> 'r sftp \<Rightarrow> string \<Rightarrow> string \<Rightarrow> ('r, unit) action" where
  "shell_download n lib rpath local =
     copy_then (on_remote ''opening'' (sf_open lib rpath)) (\<lambda>h.
     copy_then (on_local (create_truncate (path_of_string local) 0x1B6)) (\<lambda>_.
     copy_then (copy_down n lib h local) (\<lambda>_. on_remote ''close'' (sf_close lib h))))"

definition shell_upload :: "'r sftp \<Rightarrow> string \<Rightarrow> string \<Rightarrow> ('r, unit) action" where
  "shell_upload lib local rpath =
     copy_then (look_local (open_local (path_of_string local))) (\<lambda>contents.
     copy_then (on_remote ''creating'' (sf_create lib rpath)) (\<lambda>h.
     copy_then (case contents of Inl e \<Rightarrow> copy_fail (LocalFailed e) | Inr d \<Rightarrow> copy_up lib h (chunks d))
       (\<lambda>_. on_remote ''close'' (sf_close lib h))))"

fun list_entries :: "(string + remote_entry) list \<Rightarrow> ('r, unit) action" where
  "list_entries [] = copy_give ()"
| "list_entries (Inl e # es) = copy_fail (RemoteFailed ''ls'' e)"
| "list_entries (Inr (name, d) # es) =
     (if name = ''.'' \<or> name = ''..'' then list_entries es
      else copy_then (print_line (if d = Some True then name @ ''/'' else name)) (\<lambda>_. list_entries es))"

fun list_local :: "string \<Rightarrow> (io_kind + string) list \<Rightarrow> ('r, unit) action" where
  "list_local dir [] = copy_give ()"
| "list_local dir (Inl e # es) = copy_fail (LocalFailed e)"
| "list_local dir (Inr name # es) =
     copy_then (look_local (metadata (path_of_string (str_join dir name)))) (\<lambda>nd.
     copy_then (print_line (if nd_kind nd = Directory then name @ ''/'' else name)) (\<lambda>_. list_local dir es))"

text \<open>\<open>std::env::current_dir\<close> and \<open>set_current_dir\<close>.\<close>

definition current_dir :: "fsys \<Rightarrow> string" where
  "current_dir fs = path_text (Path True (cwd fs))"

definition set_current_dir :: "string \<Rightarrow> fsys \<Rightarrow> (io_kind + unit) \<times> fsys" where
  "set_current_dir p fs = (case metadata (path_of_string p) fs of
      Inl e \<Rightarrow> (Inl e, fs)
    | Inr nd \<Rightarrow> if nd_kind nd = Directory then (Inr (), fs\<lparr>cwd := resolve fs (path_of_string p)\<rparr>)
        else (Inl OtherIo, fs))"

definition HELP :: "string list" where
  "HELP =
     [''Commands:'',
      ''  ls [path]            list a remote directory'',
      ''  cd <path>            change remote directory'',
      ''  pwd                  print remote directory'',
      ''  get <remote> [local] download a file'',
      ''  put <local> [remote] upload a file'',
      ''  mkdir <path>         create a remote directory'',
      ''  rmdir <path>         remove an empty remote directory'',
      ''  rm <path>            remove a remote file'',
      ''  rename <old> <new>   rename a remote path'',
      ''  lpwd                 print local directory'',
      ''  lcd <path>           change local directory'',
      ''  lls [path]           list a local directory'',
      ''  help, ?              show this help'',
      ''  quit, exit, bye      close the session'']"

section \<open>Commands\<close>

definition first_or :: "string list \<Rightarrow> (string \<Rightarrow> 'a) \<Rightarrow> 'a \<Rightarrow> 'a" where
  "first_or as f d = (case as of [] \<Rightarrow> d | a # _ \<Rightarrow> f a)"

text \<open>Where \<open>get\<close> and \<open>put\<close> copy to when only one name is given.\<close>

definition get_target :: "string \<Rightarrow> string list \<Rightarrow> string option" where
  "get_target rcwd as = (case as of
      [] \<Rightarrow> None
    | [p] \<Rightarrow> file_name (resolve_remote rcwd p)
    | p # l # _ \<Rightarrow> Some l)"

definition run_command ::
  "nat \<Rightarrow> 'r sftp \<Rightarrow> local_listing \<Rightarrow> string \<Rightarrow> string \<Rightarrow> string list \<Rightarrow> ('r, string) action" where
  "run_command n lib ls rcwd cmd as =
     (let same = (\<lambda>m. copy_then m (\<lambda>_. copy_give rcwd)) in
      if cmd = ''ls'' then
        same (copy_then (on_remote ''ls'' (sf_open_dir lib (first_or as (resolve_remote rcwd) rcwd))) list_entries)
      else if cmd = ''cd'' then arg_or ''cd: missing path'' as 0 (\<lambda>p.
        copy_then (on_remote ''cd'' (sf_canonicalize lib (resolve_remote rcwd p))) (\<lambda>canon.
        copy_then (on_remote ''cd'' (sf_metadata lib canon)) (\<lambda>md.
          if md = Some True then copy_give canon else copy_fail (NotADirectory canon))))
      else if cmd = ''pwd'' then same (print_line rcwd)
      else if cmd = ''get'' then arg_or ''get: missing remote path'' as 0 (\<lambda>p.
        (case get_target rcwd as of
            None \<Rightarrow> copy_fail (MissingArgument ''get: cannot derive local name'')
          | Some l \<Rightarrow> same (shell_download n lib (resolve_remote rcwd p) l)))
      else if cmd = ''put'' then arg_or ''put: missing local path'' as 0 (\<lambda>l.
        if 1 < length as then same (shell_upload lib l (resolve_remote rcwd (as ! 1)))
        else name_or ''put: cannot derive remote name'' l (\<lambda>b. same (shell_upload lib l (resolve_remote rcwd b))))
      else if cmd = ''mkdir'' then arg_or ''mkdir: missing path'' as 0 (\<lambda>p.
        same (on_remote ''mkdir'' (sf_create_dir lib (resolve_remote rcwd p))))
      else if cmd = ''rmdir'' then arg_or ''rmdir: missing path'' as 0 (\<lambda>p.
        same (on_remote ''rmdir'' (sf_remove_dir lib (resolve_remote rcwd p))))
      else if cmd = ''rm'' then arg_or ''rm: missing path'' as 0 (\<lambda>p.
        same (on_remote ''rm'' (sf_remove_file lib (resolve_remote rcwd p))))
      else if cmd = ''rename'' then arg_or ''rename: missing source'' as 0 (\<lambda>a.
        arg_or ''rename: missing destination'' as 1 (\<lambda>b.
        same (on_remote ''rename'' (sf_rename lib (resolve_remote rcwd a) (resolve_remote rcwd b)))))
      else if cmd = ''lpwd'' then
        same (copy_then (look_local (\<lambda>fs. Inr (current_dir fs))) print_line)
      else if cmd = ''lcd'' then arg_or ''lcd: missing path'' as 0 (\<lambda>p. same (on_local (set_current_dir p)))
      else if cmd = ''lls'' then
        same (copy_then (look_local (\<lambda>fs. Inr (first_or as id (current_dir fs)))) (\<lambda>dir.
          copy_then (look_local (ls dir)) (list_local dir)))
      else if cmd = ''help'' \<or> cmd = ''?'' then same (\<lambda>s. (Some (Inr ()), s\<lparr>tf_printed := tf_printed s @ HELP\<rparr>))
      else copy_fail (UnknownCommand cmd))"

section \<open>The loop\<close>

text \<open>
  The events are the lines of standard input, an error of reading it, or its end. \<open>Returned ()\<close>: a command
  has used up its fuel and still runs.
\<close>

datatype input_line = Line string | InputError | InputEnd

record 'r shell =
  sl_cwd :: string
  sl_state :: "'r transfer"
  sl_errors :: "copy_error list"
  sl_loop :: "unit loop_status"

definition repl_step :: "nat \<Rightarrow> 'r sftp \<Rightarrow> local_listing \<Rightarrow> 'r shell \<Rightarrow> input_line \<Rightarrow> 'r shell" where
  "repl_step n lib ls s i = (case sl_loop s of
      Running \<Rightarrow> (case i of
          InputEnd \<Rightarrow> s\<lparr>sl_loop := Left\<rparr>
        | InputError \<Rightarrow> s\<lparr>sl_loop := Left\<rparr>
        | Line l \<Rightarrow> (case parse_command l of
            None \<Rightarrow> s
          | Some (cmd, as) \<Rightarrow>
              if cmd \<in> {''quit'', ''exit'', ''bye''} then s\<lparr>sl_loop := Left\<rparr>
              else (case run_command n lib ls (sl_cwd s) cmd as (sl_state s) of
                  (Some (Inr d), t) \<Rightarrow> s\<lparr>sl_cwd := d, sl_state := t\<rparr>
                | (Some (Inl e), t) \<Rightarrow> s\<lparr>sl_state := t, sl_errors := sl_errors s @ [e]\<rparr>
                | (None, t) \<Rightarrow> s\<lparr>sl_state := t, sl_loop := Returned ()\<rparr>)))
    | _ \<Rightarrow> s)"

definition repl_start :: "'r sftp \<Rightarrow> 'r transfer \<Rightarrow> 'r shell" where
  "repl_start lib s = (case sf_canonicalize lib ''.'' (tf_remote s) of
      (c, r) \<Rightarrow> \<lparr>sl_cwd = (case c of Inr p \<Rightarrow> p | Inl e \<Rightarrow> ''/''), sl_state = s\<lparr>tf_remote := r\<rparr>,
        sl_errors = [], sl_loop = Running\<rparr>)"

section \<open>What a command changes\<close>

text \<open>Most actions keep all local files; a download changes the one it writes.\<close>

interpretation reading: kept_relation "\<lambda>s t. nodes (tf_local t) = nodes (tf_local s)"
  by unfold_locales simp_all

definition only_at :: "string list \<Rightarrow> fsys \<Rightarrow> fsys \<Rightarrow> bool" where
  "only_at q fs fs' \<longleftrightarrow> cwd fs' = cwd fs \<and> (\<forall>cs. cs \<noteq> q \<longrightarrow> nodes fs' cs = nodes fs cs)"

interpretation one_file: kept_relation "\<lambda>s t. only_at q (tf_local s) (tf_local t)" for q
  by unfold_locales (auto simp: only_at_def)

lemma only_at_simps [simp]:
  "only_at q fs fs" "only_at (resolve fs p) fs (put_node p nd fs)"
  "only_at q fs (fs'\<lparr>disk := k\<rparr>) = only_at q fs fs'"
  by (simp_all add: only_at_def)

lemma write_only_at:
  "only_at (resolve fs p) fs (snd (create_truncate p m fs))"
  "only_at (resolve fs p) fs (snd (file_write_all p bs fs))"
  by (auto simp: create_truncate_def file_write_all_def split: option.split)

lemma only_at_resolve: "only_at q fs fs' \<Longrightarrow> resolve fs' p = resolve fs p"
  by (simp add: only_at_def resolve_def)

lemma copy_down_only_at:
  "resolve (tf_local s) (path_of_string l) = q \<Longrightarrow> only_at q (tf_local s) (tf_local (snd (copy_down n lib h l s)))"
proof (induction n arbitrary: s)
  case (Suc n)
  show ?case
    unfolding copy_down.simps
  proof (rule one_file.keeps_then, goal_cases)
    case (2 a t)
    then have t: "tf_local t = tf_local s" by (metis on_remote_local snd_conv)
    have "only_at q (tf_local t) (tf_local (snd (copy_then (on_local (file_write_all (path_of_string l) bs))
        (\<lambda>_. copy_down n lib h l) t)))" for bs
    proof (rule one_file.keeps_then, goal_cases)
      case 1
      show ?case using write_only_at(2) [of "tf_local t" "path_of_string l" bs] Suc.prems t by simp
    next
      case (2 u v)
      then have v: "tf_local v = snd (file_write_all (path_of_string l) bs (tf_local t))"
        by (metis on_local_local snd_conv)
      then have "resolve (tf_local v) (path_of_string l) = q"
        using only_at_resolve [OF write_only_at(2) [of "tf_local t" "path_of_string l" bs]] Suc.prems t by simp
      then show ?case by (rule Suc.IH)
    qed
    then show ?case by (auto split: option.split list.split)
  qed simp
qed simp

lemma shell_download_only_at:
  assumes "resolve (tf_local s) (path_of_string l) = q"
  shows "only_at q (tf_local s) (tf_local (snd (shell_download n lib p l s)))"
  unfolding shell_download_def
proof (rule one_file.keeps_then, goal_cases)
  case (2 h t)
  then have t: "tf_local t = tf_local s" by (metis on_remote_local snd_conv)
  show ?case
  proof (rule one_file.keeps_then, goal_cases)
    case 1
    show ?case
      using write_only_at(1) [of "tf_local t" "path_of_string l" "0x1B6"] assms t by simp
  next
    case (2 u v)
    then have "tf_local v = snd (create_truncate (path_of_string l) 0x1B6 (tf_local t))"
      by (metis on_local_local snd_conv)
    then have "resolve (tf_local v) (path_of_string l) = q"
      using only_at_resolve [OF write_only_at(1) [of "tf_local t" "path_of_string l" "0x1B6"]] assms t by simp
    then show ?case by (intro one_file.keeps_then) (auto simp: copy_down_only_at)
  qed
qed simp

lemma shell_upload_local: "tf_local (snd (shell_upload lib l p s)) = tf_local s"
  unfolding shell_upload_def
  by (intro uploading.keeps_then) (auto simp: copy_up_local split: sum.split)

lemma list_entries_local: "tf_local (snd (list_entries es s)) = tf_local s"
  by (induction es arbitrary: s rule: list_entries.induct) (auto intro!: uploading.keeps_then)

lemma list_local_local: "tf_local (snd (list_local d es s)) = tf_local s"
  by (induction d es arbitrary: s rule: list_local.induct) (auto intro!: uploading.keeps_then)

lemma set_current_dir_nodes [simp]: "nodes (snd (set_current_dir p fs)) = nodes fs"
  by (simp add: set_current_dir_def split: sum.split)

lemma reading_arg_or:
  "(\<And>a. nodes (tf_local (snd (f a s))) = nodes (tf_local s)) \<Longrightarrow>
     nodes (tf_local (snd (arg_or m as i f s))) = nodes (tf_local s)"
  by (simp add: arg_or_def)

lemma reading_same:
  "nodes (tf_local (snd (m s))) = nodes (tf_local s) \<Longrightarrow>
     nodes (tf_local (snd (copy_then m (\<lambda>_. copy_give d) s))) = nodes (tf_local s)"
  by (rule reading.keeps_then) simp_all

lemma reading_remote [simp]: "nodes (tf_local (snd (on_remote w g s))) = nodes (tf_local s)"
  by simp

lemma run_command_reads:
  assumes "cmd \<noteq> ''get''"
  shows "nodes (tf_local (snd (run_command n lib ls rcwd cmd as s))) = nodes (tf_local s)"
proof -
  have ls: "nodes (tf_local (snd (copy_then (on_remote ''ls'' (sf_open_dir lib d)) list_entries s))) = nodes (tf_local s)" for d
    by (rule reading.keeps_then) (simp_all add: list_entries_local)
  have cd: "nodes (tf_local (snd (copy_then (on_remote ''cd'' (sf_canonicalize lib d)) (\<lambda>canon.
      copy_then (on_remote ''cd'' (sf_metadata lib canon)) (\<lambda>md.
        if md = Some True then copy_give canon else copy_fail (NotADirectory canon))) s))) = nodes (tf_local s)" for d
    by (rule reading.keeps_then; (rule reading.keeps_then)?) simp_all
  have lls: "nodes (tf_local (snd (copy_then (look_local g) (\<lambda>dir.
      copy_then (look_local (ls dir)) (list_local dir)) s))) = nodes (tf_local s)" for g
    by (rule reading.keeps_then; (rule reading.keeps_then)?) (simp_all add: list_local_local)
  have lpwd: "nodes (tf_local (snd (copy_then (look_local (\<lambda>fs. Inr (current_dir fs))) print_line s))) = nodes (tf_local s)"
    by (rule reading.keeps_then) simp_all
  show ?thesis
    using assms ls cd lls lpwd
    by (simp add: run_command_def Let_def reading_same reading_arg_or shell_upload_local name_or_def
        split: option.split)
qed

lemma run_command_cases:
  obtains (reads) "nodes (tf_local (snd (run_command n lib ls rcwd cmd as s))) = nodes (tf_local s)"
  | (get) p l where "cmd = ''get''" "get_target rcwd as = Some l"
    "run_command n lib ls rcwd cmd as s = copy_then (shell_download n lib p l) (\<lambda>_. copy_give rcwd) s"
proof (cases "cmd = ''get''")
  case True
  show ?thesis
  proof (cases as)
    case Nil
    then show ?thesis by (intro reads) (simp add: run_command_def True arg_or_def)
  next
    case (Cons p rest)
    show ?thesis
    proof (cases "get_target rcwd as")
      case None
      then show ?thesis by (intro reads) (simp add: run_command_def True Cons arg_or_def)
    next
      case (Some l)
      then show ?thesis by (intro get [OF True Some]) (simp add: run_command_def True Cons arg_or_def)
    qed
  qed
qed (rule reads [OF run_command_reads])

context download_effects
begin

lemma shell_download_kept:
  assumes "below root l (tf_local s)"
  shows "E root (tf_local s) (tf_local (snd (shell_download n lib p l s)))"
  unfolding shell_download_def
proof (rule remote_step, goal_cases)
  case (1 h t)
  with assms have b: "below root l (tf_local t)" by simp
  show ?case
  proof (rule local_step [OF _ b], goal_cases)
    case (2 a u)
    show ?case by (rule step) (simp_all add: copy_down_kept 2(1))
  qed (use b in \<open>simp add: E_truncate below_def\<close>)
qed

end

section \<open>Properties\<close>


text \<open>
  The current remote directory is the one the session began with, or one that the server gave as the real
  path of what the user typed and then confirmed to be a directory; a command that fails leaves it.
\<close>

definition confirmed :: "'r sftp \<Rightarrow> string \<Rightarrow> bool" where
  "confirmed lib d \<longleftrightarrow> (\<exists>p r r1 r2. sf_canonicalize lib p r = (Inr d, r1)
     \<and> sf_metadata lib d r1 = (Inr (Some True), r2))"

definition gives :: "'a \<Rightarrow> ('r, 'a) action \<Rightarrow> bool" where
  "gives a m \<longleftrightarrow> (\<forall>s d t. m s = (Some (Inr d), t) \<longrightarrow> d = a)"

lemma gives_simps [simp]:
  "gives a (copy_then m (\<lambda>_. copy_give a))" "gives a (copy_fail e)" "gives a (copy_give a)"
  "(\<And>x. gives a (f x)) \<Longrightarrow> gives a (arg_or missing as i f)"
  "(\<And>x. gives a (f x)) \<Longrightarrow> gives a (name_or missing p f)"
proof -
  show "gives a (copy_then m (\<lambda>_. copy_give a))"
    unfolding gives_def
  proof (intro allI impI)
    fix s d t assume m: "copy_then m (\<lambda>_. copy_give a) s = (Some (Inr d), t)"
    from copy_then_InrD [OF m] show "d = a" by (auto simp: copy_give_def)
  qed
qed (simp_all add: gives_def copy_fail_def copy_give_def arg_or_def name_or_def split: option.split)

lemma run_command_gives: "cmd \<noteq> ''cd'' \<Longrightarrow> gives rcwd (run_command n lib ls rcwd cmd as)"
  by (simp add: run_command_def Let_def split: option.split)

lemma run_command_cd:
  assumes "run_command n lib ls rcwd ''cd'' as s = (Some (Inr d), s1)"
  shows "confirmed lib d"
proof -
  obtain p where "copy_then (on_remote ''cd'' (sf_canonicalize lib p)) (\<lambda>canon.
      copy_then (on_remote ''cd'' (sf_metadata lib canon)) (\<lambda>md.
        if md = Some True then copy_give canon else copy_fail (NotADirectory canon))) s = (Some (Inr d), s1)"
    using assms by (simp add: run_command_def Let_def arg_or_def copy_fail_def split: if_splits)
  from copy_then_InrD [OF this]
  obtain c t where c: "on_remote ''cd'' (sf_canonicalize lib p) s = (Some (Inr c), t)"
      "copy_then (on_remote ''cd'' (sf_metadata lib c)) (\<lambda>md.
        if md = Some True then copy_give c else copy_fail (NotADirectory c)) t = (Some (Inr d), s1)"
    by blast
  from copy_then_InrD [OF c(2)]
  obtain md u where md: "on_remote ''cd'' (sf_metadata lib c) t = (Some (Inr md), u)"
      "(if md = Some True then copy_give c else copy_fail (NotADirectory c)) u = (Some (Inr d), s1)"
    by blast
  then have "md = Some True" "d = c" by (auto simp: copy_give_def copy_fail_def split: if_splits)
  with on_remote_InrD [OF c(1)] on_remote_InrD [OF md(1)] show ?thesis
    unfolding confirmed_def by blast
qed

lemma run_command_cwd:
  "run_command n lib ls rcwd cmd as s = (Some (Inr d), s1) \<Longrightarrow> d = rcwd \<or> confirmed lib d"
  using run_command_gives [of cmd rcwd n lib ls as] run_command_cd [of n lib ls rcwd as s d s1]
  unfolding gives_def by blast

lemma repl_step_confirmed:
  "sl_cwd s = start \<or> confirmed lib (sl_cwd s) \<Longrightarrow>
     sl_cwd (repl_step n lib ls s i) = start \<or> confirmed lib (sl_cwd (repl_step n lib ls s i))"
  by (auto simp: repl_step_def dest: run_command_cwd
      split: loop_status.split input_line.split option.split prod.split sum.split)

interpretation shell_loop: event_loop "repl_step n lib ls" "\<lambda>s. sl_cwd s = start \<or> confirmed lib (sl_cwd s)"
  for n lib ls start
  by unfold_locales (rule repl_step_confirmed)

lemma shell_stays_confirmed:
  "let s = foldl (repl_step n lib ls) (repl_start lib t) input in
     sl_cwd s = sl_cwd (repl_start lib t) \<or> confirmed lib (sl_cwd s)"
  unfolding Let_def by (rule shell_loop.inv_run) simp

lemma parse_command_blank: "parse_command [] = None" "parse_command ''   '' = None"
  by (simp_all add: parse_command_def split_whitespace_def split_ws_from.simps ws_len.simps is_ascii_ws_def code_def)

section \<open>Witnesses\<close>


end
