(* ===== verification/Programs.thy ===== *)
theory Programs
  imports Client_Main Sftp_Shell
begin

text \<open>
  The programs as their \<^verbatim>\<open>main\<close> functions run them: \<^verbatim>\<open>sqsh\<close> (\<^verbatim>\<open>sqsh/src/main.rs\<close>), \<^verbatim>\<open>sqftp\<close>
  (\<^verbatim>\<open>bin/sqftp.rs\<close>) and \<^verbatim>\<open>sqsh-bootstrap\<close> (\<^verbatim>\<open>bin/sqsh-bootstrap.rs\<close>), with the connection the file tools share
  (\<^verbatim>\<open>open_authenticated\<close> of \<^verbatim>\<open>connection.rs\<close>, \<^verbatim>\<open>connect\<close> and \<^verbatim>\<open>close\<close> of \<^verbatim>\<open>sftp.rs\<close>). A command line is the record clap
  makes of it.
\<close>

section \<open>sqsh\<close>

record sqsh_cli =
  sq_target :: string
  sq_port :: "u16 option"
  sq_user :: "string option"
  sq_ssh_port :: u16
  sq_identity :: "string option"
  sq_local_forward :: "string list"
  sq_remote_forward :: "string list"
  sq_no_shell :: bool
  sq_control_path :: "string option"
  sq_control_master :: bool
  sq_control_persist :: "string option"
  sq_subsystem :: "string option"
  sq_command :: "string list"

definition sqsh_args :: "sqsh_cli \<Rightarrow> cli_args" where
  "sqsh_args cli =
     \<lparr>a_target = sq_target cli, a_port = sq_port cli, a_ssh_port = Some (sq_ssh_port cli),
      a_user = sq_user cli, a_identity = sq_identity cli, a_command = sq_command cli,
      a_subsystem = sq_subsystem cli, a_local_forwards = sq_local_forward cli,
      a_remote_forwards = sq_remote_forward cli, a_no_shell = sq_no_shell cli,
      a_control_path = sq_control_path cli, a_control_master = sq_control_master cli,
      a_control_persist = sq_control_persist cli\<rparr>"

text \<open>\<open>resolving\<close> is \<open>ClientConfig::resolve\<close> in the environment of the process.\<close>

definition sqsh_main ::
  "(cli_args \<Rightarrow> config_error + client_config) \<Rightarrow> client_library \<Rightarrow> iteration_order \<Rightarrow> (byte list \<Rightarrow> string)
    \<Rightarrow> sqsh_cli \<Rightarrow> main_world \<Rightarrow> boot_world \<Rightarrow> main_world \<Rightarrow> fsys
    \<Rightarrow> config_error + main_end \<times> process list" where
  "sqsh_main resolving lib order encode cli w1 bw w2 fs = (case resolving (sqsh_args cli) of
      Inl e \<Rightarrow> Inl e
    | Inr cc \<Rightarrow> Inr (connect_main lib order encode cc w1 bw w2 fs))"

section \<open>sqsh-bootstrap\<close>

definition bootstrap_main ::
  "('pk, 'sg) release_library \<Rightarrow> key_source \<Rightarrow> iteration_order \<Rightarrow> boot_world \<Rightarrow> bootstrap_cli \<Rightarrow> string option
    \<Rightarrow> (string \<times> string) boot_step" where
  "bootstrap_main lib ks order w cli home = run_bootstrap lib ks order w (build_config cli home)"

section \<open>A connection for files\<close>

definition open_authenticated ::
  "client_library \<Rightarrow> iteration_order \<Rightarrow> (byte list \<Rightarrow> string) \<Rightarrow> client_config \<Rightarrow> main_world
    \<Rightarrow> boot_world \<Rightarrow> main_world \<Rightarrow> fsys
    \<Rightarrow> (main_failure + control_message sink) \<times> process list \<times> fsys" where
  "open_authenticated lib order encode cc w1 bw w2 fs =
     (let establish = (\<lambda>w fs. case establish_connection lib order cc (mn_resolves w) (mn_presented w)
            (mn_control w) open_sink fs of
          ((Inl e, ms, k), fs1) \<Rightarrow> (Inl e, fs1)
        | ((Inr _, ms, k), fs1) \<Rightarrow> (Inr k, fs1)) in
      case establish w1 fs of
        (Inr k, fs1) \<Rightarrow> (Inr k, [], fs1)
      | (Inl e, fs1) \<Rightarrow>
          if e = KeyRejected
          then (case install_key_via_ssh lib encode bw cc \<lparr>bt_log = [], bt_fs = fs1\<rparr> of
              (Inl e, s) \<Rightarrow> (Inl (MainInstall e), bt_log s, bt_fs s)
            | (Inr _, s) \<Rightarrow> (case establish w2 (bt_fs s) of
                (Inl e, fs2) \<Rightarrow> (Inl (MainClient e), bt_log s, fs2)
              | (Inr k, fs2) \<Rightarrow> (Inr k, bt_log s, fs2)))
          else (Inl (MainClient e), [], fs1))"

datatype files_failure =
    FilesClient main_failure
  | FilesChannel sftp_failure
  | FilesInit

text \<open>
  A session for files: the writing task with its end of the channel, the reading task, the messages that are
  still to come, and whether the connection was closed. \<open>ms\<close> are the messages on the channel, \<open>init\<close> is
  whether the library could start its session over the bridge.
\<close>

record sftp_client =
  sc_writer :: bridge_writer
  sc_reader :: bridge_reader
  sc_coming :: "channel_message list"
  sc_closed :: bool

definition sftp_connect ::
  "(main_failure + control_message sink) \<times> process list \<times> fsys \<Rightarrow> (string \<times> string) list
    \<Rightarrow> channel_message list \<Rightarrow> bool \<Rightarrow> files_failure + sftp_client" where
  "sftp_connect opened vars ms init = (case opened of
      (Inl e, log, fs) \<Rightarrow> Inl (FilesClient e)
    | (Inr k, log, fs) \<Rightarrow> (case open_subsystem_channel SFTP_SUBSYSTEM (forwarded_env vars) (ms, open_sink) of
        Inl e \<Rightarrow> Inl (FilesChannel e)
      | Inr (rest, sender) \<Rightarrow>
          if init then Inr \<lparr>sc_writer = start_writer sender, sc_reader = start_reader, sc_coming = rest,
            sc_closed = False\<rparr>
          else Inl FilesInit))"

text \<open>
  Closing: the library's end of the pipe goes, then both tasks are aborted and the connection is closed. \<open>ws\<close>
  is what the writing task still did in between.
\<close>

definition sftp_close :: "writer_event list \<Rightarrow> sftp_client \<Rightarrow> sftp_client" where
  "sftp_close ws c =
     c\<lparr>sc_writer := (foldl writer_step (writer_step (sc_writer c) LibraryCloses) ws)\<lparr>bo_status := Left\<rparr>,
       sc_reader := (sc_reader c)\<lparr>bi_status := Left\<rparr>, sc_closed := True\<rparr>"

section \<open>sqftp\<close>

record shell_cli =
  ft_target :: string
  ft_identity :: "string option"
  ft_port :: "u16 option"

definition shell_args :: "shell_cli \<Rightarrow> cli_args" where
  "shell_args cli =
     \<lparr>a_target = ft_target cli, a_port = ft_port cli, a_ssh_port = None, a_user = None,
      a_identity = ft_identity cli, a_command = [], a_subsystem = None, a_local_forwards = [],
      a_remote_forwards = [], a_no_shell = False, a_control_path = None, a_control_master = False,
      a_control_persist = None\<rparr>"

text \<open>\<open>None\<close> while the loop over the input runs; the errors of its commands do not end it.\<close>

definition sqftp_main ::
  "nat \<Rightarrow> 'r sftp \<Rightarrow> local_listing \<Rightarrow> (cli_args \<Rightarrow> config_error + client_config)
    \<Rightarrow> (client_config \<Rightarrow> 'r \<Rightarrow> (string + unit) \<times> 'r) \<Rightarrow> ('r \<Rightarrow> 'r) \<Rightarrow> input_line list \<Rightarrow> shell_cli
    \<Rightarrow> ('r, unit) action" where
  "sqftp_main n lib ls resolving dial hang_up input cli s = (case resolving (shell_args cli) of
      Inl e \<Rightarrow> (Some (Inl (CopyConfig e)), s)
    | Inr cc \<Rightarrow> copy_then (on_remote ''connect'' (dial cc)) (\<lambda>_ s1.
        let sh = foldl (repl_step n lib ls) (repl_start lib s1) input; t = sl_state sh in
        if sl_loop sh = Left then (Some (Inr ()), t\<lparr>tf_remote := hang_up (tf_remote t)\<rparr>)
        else (None, t)) s)"

section \<open>A stream on which something was sent before\<close>

definition ahead :: "'m list \<Rightarrow> 'm sink \<Rightarrow> 'm sink" where
  "ahead base k = k\<lparr>sent := base @ sent k\<rparr>"

lemma ahead_simps [simp]: "sent (ahead base k) = base @ sent k" "room (ahead base k) = room k"
  by (simp_all add: ahead_def)

lemma ahead_open_sink: "ahead base open_sink = open_sink\<lparr>sent := base\<rparr>"
  by (simp add: ahead_def)

lemma send_ahead: "send m (ahead base k) = (case send m k of (ok, k1) \<Rightarrow> (ok, ahead base k1))"
  by (simp add: ahead_def send_def split: option.split nat.split)

lemma send_quietly_ahead: "send_quietly m (ahead base k) = ahead base (send_quietly m k)"
  by (simp add: send_quietly_def send_ahead split: prod.split)

lemma send_or_ahead:
  "send_or m (ahead base k) bad cont = send_or m k (\<lambda>k1. bad (ahead base k1)) (\<lambda>k1. cont (ahead base k1))"
  by (simp add: send_or_def send_ahead split: prod.split)

definition writer_ahead :: "channel_message list \<Rightarrow> bridge_writer \<Rightarrow> bridge_writer" where
  "writer_ahead base s = s\<lparr>bo_sink := ahead base (bo_sink s)\<rparr>"

lemma writer_ahead_simps [simp]:
  "bo_status (writer_ahead base s) = bo_status s" "bo_sink (writer_ahead base s) = ahead base (bo_sink s)"
  "bo_pending (writer_ahead base s) = bo_pending s" "bo_taken (writer_ahead base s) = bo_taken s"
  by (simp_all add: writer_ahead_def)

lemma writer_step_ahead: "writer_step (writer_ahead base s) e = writer_ahead base (writer_step s e)"
  by (simp add: writer_step_def writer_ahead_def Let_def send_quietly_ahead send_or_def send_ahead
      split: loop_status.split writer_event.split prod.split bool.split)

lemma writer_run_ahead: "foldl writer_step (writer_ahead base s) es = writer_ahead base (foldl writer_step s es)"
  by (induction es arbitrary: s) (simp_all add: writer_step_ahead)

definition sub_ahead :: "channel_message list \<Rightarrow> sub \<Rightarrow> sub" where
  "sub_ahead base s = s\<lparr>s_sink := ahead base (s_sink s)\<rparr>"

lemma sub_ahead_simps [simp]:
  "s_sink (sub_ahead base s) = ahead base (s_sink s)" "s_stdin_bytes (sub_ahead base s) = s_stdin_bytes s"
  by (simp_all add: sub_ahead_def)

lemma sub_step_ahead: "sub_step (sub_ahead base s) e = sub_ahead base (sub_step s e)"
  by (auto simp: sub_step_def sub_ahead_def sub_client_def sub_write_def Let_def send_quietly_ahead send_or_def send_ahead
      split: sub_event.split pipe_read.split option.split channel_message.split prod.split bool.split)

lemma sub_run_ahead: "foldl sub_step (sub_ahead base s) es = sub_ahead base (foldl sub_step s es)"
  by (induction es arbitrary: s) (simp_all add: sub_step_ahead)

section \<open>The session for files and the server's subsystem\<close>

definition subsystem_opening :: "(string \<times> string) list \<Rightarrow> channel_message list" where
  "subsystem_opening vars = Open Session SessionParams
     # map (\<lambda>(n, v). Request (Env n v) False) (forwarded_env vars) @ [Request (Subsystem SFTP_SUBSYSTEM) True]"

definition subsystem_replies :: "channel_message list" where
  "subsystem_replies = [OpenConfirmation (32 * 1024), RequestSuccess]"

lemma sftp_env_sends:
  "room k = None \<Longrightarrow> sftp_env vars (ms, k)
     = Inr (ms, k\<lparr>sent := sent k @ map (\<lambda>(n, v). Request (Env n v) False) vars\<rparr>)"
  by (induction vars arbitrary: k) auto

lemma open_subsystem_opens:
  "open_subsystem_channel SFTP_SUBSYSTEM (forwarded_env vars) (subsystem_replies @ ms, open_sink)
     = Inr (ms, open_sink\<lparr>sent := subsystem_opening vars\<rparr>)"
  by (simp add: open_subsystem_channel_def sftp_open_def sftp_env_sends request_subsystem_def
      subsystem_replies_def subsystem_opening_def)

lemma dispatch_subsystem:
  assumes "from_name lib user = Inr (Some u)" "resolve_subsystem cfg fs SFTP_SUBSYSTEM = Some command"
  shows "dispatch_channel lib cfg fs os sch dial user (subsystem_opening vars @ ms) open_sink
    = (case run_subsystem os (sub_of sch ms) (sch_stdin_room sch) (sch_late_wait sch) u command
        (accepted_env cfg vars) (open_sink\<lparr>sent := subsystem_replies\<rparr>) of
      (e, cmd, k) \<Rightarrow> (dispatched (SessionDone e) k)\<lparr>d_child := cmd\<rparr>)"
  using assms
  by (simp add: dispatch_channel_def subsystem_opening_def session_handle_def session_requests_vars
      reply_then_def accepted_env_def no_requests_def subsystem_replies_def split: prod.split)

lemma open_authenticated_let_in:
  assumes "enrolled cl lib cc fs sfs" "signature_laws cl lib"
    and "pinned_server cl cc w fs (live_cert_fingerprint cfg)"
    and "mn_control w = [AuthChallenge nonce, AuthResult Success]"
  obtains pk sg where
    "open_authenticated cl order encode cc w bw w2 fs = (Inr (open_sink\<lparr>sent :=
        [ClientHello PROTOCOL_VERSION (cc_username cc), AuthResponse pk sg]\<rparr>), [], fs)"
    "authenticate lib cfg sfs nonce [ClientHello PROTOCOL_VERSION (cc_username cc), AuthResponse pk sg] open_sink
      = (Inr (cc_username cc), [], open_sink\<lparr>sent := [AuthChallenge nonce, AuthResult Success]\<rparr>)"
proof -
  obtain pk sg where "client_authenticate cl cc fs (live_cert_fingerprint cfg)
        [AuthChallenge nonce, AuthResult Success] open_sink
      = (Inr (), [], open_sink\<lparr>sent := [ClientHello PROTOCOL_VERSION (cc_username cc), AuthResponse pk sg]\<rparr>)"
    "authenticate lib cfg sfs nonce [ClientHello PROTOCOL_VERSION (cc_username cc), AuthResponse pk sg] open_sink
      = (Inr (cc_username cc), [], open_sink\<lparr>sent := [AuthChallenge nonce, AuthResult Success]\<rparr>)"
    using enrolled_exchange [where nonce = nonce, OF assms(1,2) refl] by blast
  with that show thesis
    by (simp add: open_authenticated_def establish_pinned_server [OF assms(3)] assms(4))
qed

text \<open>
  The bridge and the subsystem on a channel that has been opened.
\<close>

lemma bridge_from_opening:
  assumes "bo_status (foldl writer_step (start_writer (open_sink\<lparr>sent := base\<rparr>)) ws) = Running"
    and "sent (bo_sink (foldl writer_step (start_writer (open_sink\<lparr>sent := base\<rparr>)) ws))
      = base @ concat (map sub_received es) @ under_way"
    and "list_all sub_stays es"
    and "base' @ ms = sent (s_sink (foldl sub_step (start_sub None (open_sink\<lparr>sent := base'\<rparr>)) es))"
  shows "s_stdin_bytes (foldl sub_step (start_sub None (open_sink\<lparr>sent := base'\<rparr>)) es) @ data_stream under_way
      @ bo_pending (foldl writer_step (start_writer (open_sink\<lparr>sent := base\<rparr>)) ws)
      = bo_taken (foldl writer_step (start_writer (open_sink\<lparr>sent := base\<rparr>)) ws)"
    and "bi_given (foldl reader_step start_reader (map Some ms)) = concat (map stdout_bytes es)"
proof -
  have w: "start_writer (open_sink\<lparr>sent := base\<rparr>) = writer_ahead base (start_writer open_sink)"
    by (simp add: start_writer_def writer_ahead_def ahead_open_sink)
  have b: "start_sub None (open_sink\<lparr>sent := base'\<rparr>) = sub_ahead base' (start_sub None open_sink)"
    by (simp add: start_sub_def sub_ahead_def ahead_open_sink)
  have "bo_status (foldl writer_step (start_writer open_sink) ws) = Running"
    "sent (bo_sink (foldl writer_step (start_writer open_sink) ws)) = concat (map sub_received es) @ under_way"
    using assms(1,2) by (simp_all add: w writer_run_ahead)
  note t = bridge_transparent [OF this assms(3)]
  then show "s_stdin_bytes (foldl sub_step (start_sub None (open_sink\<lparr>sent := base'\<rparr>)) es) @ data_stream under_way
      @ bo_pending (foldl writer_step (start_writer (open_sink\<lparr>sent := base\<rparr>)) ws)
      = bo_taken (foldl writer_step (start_writer (open_sink\<lparr>sent := base\<rparr>)) ws)"
    by (simp add: w b writer_run_ahead sub_run_ahead)
  have "ms = sent (s_sink (foldl sub_step (start_sub None open_sink) es))"
    using assms(4) by (simp add: b sub_run_ahead)
  with t show "bi_given (foldl reader_step start_reader (map Some ms)) = concat (map stdout_bytes es)" by simp
qed

section \<open>Properties\<close>


text \<open>
  Closing at once. When the writing task does not run between the end of the pipe and its abortion, the server
  is sent nothing more: not the bytes that were still in the pipe, and not the end of the data.
\<close>

lemma close_sends_nothing:
  "sent (bo_sink (sc_writer (sftp_close [] c))) = sent (bo_sink (sc_writer c))
   \<and> bo_pending (sc_writer (sftp_close [] c)) = bo_pending (sc_writer c)"
  by (simp add: sftp_close_def writer_step_def split: loop_status.split)

text \<open>
  A transfer hangs up. However it ends, once its connection was made it has closed it by then; without one it
  failed before anything was copied.
\<close>

lemma closing_hangs_up: "closing hang_up m s = (Some res, t) \<Longrightarrow> \<exists>r. tf_remote t = hang_up r"
  by (auto simp: closing_def split: prod.splits option.splits)

lemma copy_connect_result:
  "copy_connect resolving dial cli host s = (Some (Inl e), t) \<Longrightarrow> tf_local t = tf_local s"
  by (auto simp: copy_connect_def on_remote_def split: sum.splits prod.splits)

lemma transfer_hangs_up:
  assumes "sqcp_main n lib ls resolving dial hang_up cli s = (Some res, t)"
  shows "(\<exists>r. tf_remote t = hang_up r) \<or> ((\<exists>e. res = Inl e) \<and> tf_local t = tf_local s)"
  using assms
  by (auto simp: sqcp_main_def copy_download_def copy_upload_def copy_then_def copy_fail_def
      split: option.splits prod.splits sum.splits dest: closing_hangs_up copy_connect_result)

text \<open>
  The command line of a subsystem runs no command, whatever words follow it, and never over a shared
  connection.
\<close>

lemma subsystem_command_line:
  assumes "resolve_args sha256 env fs (sqsh_args cli) = Inr cc" "sq_subsystem cli = Some name"
  shows "cc_subsystem cc = Some name \<and> cc_command cc = None
    \<and> connect_once lib order cc w fs' = connect_direct lib order cc w fs'"
  using assms
  by (auto simp: resolve_args_def resolve_with_home_def resolved_def sqsh_args_def res_bind_Inr_iff Let_def
      connect_once_def)

section \<open>Witnesses\<close>

definition demo_files_server :: server_config where
  "demo_files_server = (demo_server [48])\<lparr>subsystems := [''sftp'' \<mapsto> ''/opt/sftp-server'']\<rparr>"


end
