(* ===== verification/Server_Listener.thy ===== *)
theory Server_Listener
  imports Server_Connection
begin

text \<open>
  The server as a process: \<^verbatim>\<open>sqshd/src/main.rs\<close> (print the fingerprint, or listen) and
  \<^verbatim>\<open>sqshd/src/listener.rs\<close> (the identity, the endpoint, and the accept loop with its semaphore). rustls,
  quinn and the address parser are arguments.
\<close>

datatype listen_error =
    ListenFile file_error
  | KeyMismatch
  | IdleTimeoutTooLarge
  | BadBindAddress string
  | BindFailed string
  | ListenPanicked

text \<open>
  \<open>ln_pair_ok\<close>: rustls accepts the certificate with the key; \<open>ln_timeout_ok\<close>: quinn accepts the idle time
  in seconds; \<open>ln_parse_addr\<close>: the text is a socket address; \<open>ln_bind\<close>: the endpoint can be bound there.
\<close>

record ('c, 'k) listen_library =
  ln_pem :: "('c, 'k) pem_library"
  ln_der :: "'c \<Rightarrow> byte list"
  ln_sha256 :: "byte list \<Rightarrow> byte list"
  ln_hex :: "byte list \<Rightarrow> string"
  ln_pair_ok :: "'c \<Rightarrow> 'k \<Rightarrow> bool"
  ln_timeout_ok :: "u64 \<Rightarrow> bool"
  ln_parse_addr :: "string \<Rightarrow> bool"
  ln_bind :: "string \<Rightarrow> bool"

section \<open>Start-up\<close>

definition MAX_PERMITS :: nat where
  "MAX_PERMITS = 2 ^ 61 - 1"

text \<open>\<open>run\<close> up to its loop: the configuration it then serves with, or the error it returns.\<close>

definition listener_start ::
  "('c, 'k) listen_library \<Rightarrow> string + ('c, 'k) tls_identity \<Rightarrow> server_config \<Rightarrow> fsys
    \<Rightarrow> (listen_error + server_config) \<times> fsys" where
  "listener_start lib generated cfg fs =
     (case load_or_generate_tls_identity (ln_pem lib) generated (host_key cfg) (host_cert cfg) fs of
        (Inl e, fs1) \<Rightarrow> (Inl (ListenFile e), fs1)
      | (Inr (cert, key), fs1) \<Rightarrow>
          (let fp = cert_fingerprint (ln_sha256 lib) (ln_der lib cert);
               addr = sc_bind_addr cfg @ '':'' @ show_u16 (sc_port cfg)
           in if \<not> ln_pair_ok lib cert key then Inl KeyMismatch
              else if \<not> ln_timeout_ok lib (idle_timeout_secs cfg) then Inl IdleTimeoutTooLarge
              else if \<not> ln_parse_addr lib addr then Inl (BadBindAddress addr)
              else if \<not> ln_bind lib addr then Inl (BindFailed addr)
              else if MAX_PERMITS < max_connections cfg then Inl ListenPanicked
              else Inr (cfg\<lparr>live_cert_fingerprint := fp\<rparr>), fs1))"

section \<open>The accept loop\<close>

text \<open>
  \<open>ls_waiting\<close> are the connections that have arrived and that no task serves yet, the one the loop may
  hold while it waits for a permit included.
\<close>

record listener =
  ls_permits :: nat
  ls_waiting :: nat
  ls_active :: nat
  ls_closed :: bool

datatype listen_event =
    ConnectionArrives
  | TaskEnds
  | EndpointCloses

text \<open>The loop takes connections, each with a permit, as long as it finds both.\<close>

definition accept_waiting :: "listener \<Rightarrow> listener" where
  "accept_waiting s =
     (if ls_closed s then s
      else let n = min (ls_permits s) (ls_waiting s) in
        s\<lparr>ls_permits := ls_permits s - n, ls_waiting := ls_waiting s - n, ls_active := ls_active s + n\<rparr>)"

definition listen_step :: "listener \<Rightarrow> listen_event \<Rightarrow> listener" where
  "listen_step s e = (case e of
      ConnectionArrives \<Rightarrow> if ls_closed s then s else accept_waiting (s\<lparr>ls_waiting := ls_waiting s + 1\<rparr>)
    | TaskEnds \<Rightarrow> if ls_active s = 0 then s
        else accept_waiting (s\<lparr>ls_active := ls_active s - 1, ls_permits := ls_permits s + 1\<rparr>)
    | EndpointCloses \<Rightarrow> s\<lparr>ls_closed := True\<rparr>)"

definition listen_start :: "server_config \<Rightarrow> listener" where
  "listen_start cfg = \<lparr>ls_permits = max_connections cfg, ls_waiting = 0, ls_active = 0, ls_closed = False\<rparr>"

section \<open>The process\<close>

datatype server_outcome = Printed string | Serves server_config | Stopped listen_error

definition sqshd_main ::
  "('c, 'k) listen_library \<Rightarrow> (string \<Rightarrow> string + toml_config) \<Rightarrow> string + ('c, 'k) tls_identity
    \<Rightarrow> string \<Rightarrow> bool \<Rightarrow> fsys \<Rightarrow> server_outcome \<times> fsys" where
  "sqshd_main lib from_str generated config emit_fingerprint fs = (case load_config from_str config fs of
      Inl e \<Rightarrow> (Stopped (ListenFile e), fs)
    | Inr cfg \<Rightarrow>
        if emit_fingerprint
        then (case load_or_generate_tls_identity (ln_pem lib) generated (host_key cfg) (host_cert cfg) fs of
            (Inl e, fs1) \<Rightarrow> (Stopped (ListenFile e), fs1)
          | (Inr (cert, key), fs1) \<Rightarrow>
              (Printed (ln_hex lib (cert_fingerprint (ln_sha256 lib) (ln_der lib cert))), fs1))
        else (case listener_start lib generated cfg fs of
            (Inl e, fs1) \<Rightarrow> (Stopped e, fs1)
          | (Inr live, fs1) \<Rightarrow> (Serves live, fs1)))"

section \<open>Properties\<close>

definition listen_inv :: "nat \<Rightarrow> listener \<Rightarrow> bool" where
  "listen_inv n s \<longleftrightarrow> ls_permits s + ls_active s = n
     \<and> (\<not> ls_closed s \<longrightarrow> ls_waiting s = 0 \<or> ls_permits s = 0)"

interpretation accepting: event_loop listen_step "listen_inv n" for n
  by unfold_locales
    (auto simp: listen_inv_def listen_step_def accept_waiting_def Let_def min_def split: listen_event.split)

lemma listen_start_inv [simp]: "listen_inv (max_connections cfg) (listen_start cfg)"
  by (simp add: listen_inv_def listen_start_def)

text \<open>
  The limit on connections holds and is not wasted. Whatever arrives and ends, at most
  \<^verbatim>\<open>max_connections\<close> are served at a time; and while the endpoint is open none waits unless that many
  are, so each connection that ends makes room for one that waits.
\<close>

lemma connections_within_limit:
  "let s = foldl listen_step (listen_start cfg) es in
     ls_active s \<le> max_connections cfg
     \<and> (\<not> ls_closed s \<and> ls_waiting s \<noteq> 0 \<longrightarrow> ls_active s = max_connections cfg
          \<and> (max_connections cfg \<noteq> 0 \<longrightarrow> ls_waiting (listen_step s TaskEnds) = ls_waiting s - 1))"
proof -
  have "listen_inv (max_connections cfg) (foldl listen_step (listen_start cfg) es)"
    by (rule accepting.inv_run) simp
  then show ?thesis
    by (auto simp: Let_def listen_inv_def listen_step_def accept_waiting_def)
qed

lemma connections_within_limit_instance:
  "ls_active (foldl listen_step (listen_start (demo_config\<lparr>max_connections := 2\<rparr>))
     [ConnectionArrives, ConnectionArrives, ConnectionArrives]) = 2"
  using connections_within_limit [of "demo_config\<lparr>max_connections := 2\<rparr>"
      "[ConnectionArrives, ConnectionArrives, ConnectionArrives]"]
  by (simp add: listen_step_def listen_start_def accept_waiting_def Let_def)

text \<open>
  The fingerprint the server prints is the one it serves with. After \<^verbatim>\<open>--emit-fingerprint\<close>, whether it
  found its identity or made it, every later start on the files it left serves with the certificate of
  that fingerprint, and binds the challenges it issues to it.
\<close>

lemma printed_fingerprint_is_served:
  assumes "sqshd_main lib from_str (Inr g) config True fs = (Printed fp, fs1)"
    and "load_config from_str config fs = Inr cfg" "load_config from_str config fs1 = Inr cfg"
    and "readable_pair (host_key cfg) (host_cert cfg) fs" "pem_laws (ln_pem lib) g"
    and "sqshd_main lib from_str other config False fs1 = (Serves live, fs2)"
  shows "ln_hex lib (live_cert_fingerprint live) = fp \<and> fs2 = fs1"
proof -
  obtain cert key where l: "load_or_generate_tls_identity (ln_pem lib) (Inr g) (host_key cfg) (host_cert cfg) fs
        = (Inr (cert, key), fs1)" and fp: "fp = ln_hex lib (cert_fingerprint (ln_sha256 lib) (ln_der lib cert))"
    using assms(1,2) by (auto simp: sqshd_main_def split: prod.splits sum.splits)
  have "load_or_generate_tls_identity (ln_pem lib) other (host_key cfg) (host_cert cfg) fs1
      = (Inr (cert, key), fs1)"
  proof (cases "exists (host_key cfg) fs \<and> exists (host_cert cfg) fs")
    case True
    with l show ?thesis by (auto simp: load_or_generate_tls_identity_def)
  next
    case False
    from generated_identity_reloads [OF l False assms(4,5)] show ?thesis .
  qed
  with assms(3,6) fp show ?thesis
    by (auto simp: sqshd_main_def listener_start_def Let_def split: if_splits)
qed

definition demo_listen_toml :: toml_config where
  "demo_listen_toml = \<lparr>t_bind_addr = None, t_port = None, t_host_key = demo_host_key, t_host_cert = demo_host_cert,
     t_max_connections = None, t_idle_timeout_secs = None, t_direct_tcpip_allowlist = None,
     t_remote_forward_allowlist = None, t_max_channels_per_connection = None,
     t_max_remote_forwards_per_connection = None, t_accept_env = None, t_subsystems = None\<rparr>"

definition demo_listen :: "(string, string) listen_library" where
  "demo_listen = \<lparr>ln_pem = demo_pem, ln_der = str_bytes, ln_sha256 = id, ln_hex = bytes_str,
     ln_pair_ok = (\<lambda>c k. True), ln_timeout_ok = (\<lambda>_. True), ln_parse_addr = (\<lambda>_. True), ln_bind = (\<lambda>_. True)\<rparr>"

definition demo_server_fs :: fsys where
  "demo_server_fs = put_node (Path True [''home'', ''conf''])
     \<lparr>nd_kind = RegularFile, nd_uid = 0, nd_mode = 0x1A4, nd_data = []\<rparr> demo_fs"

lemma demo_load_config:
  assumes "nodes fs [''home'', ''conf''] = nodes demo_server_fs [''home'', ''conf'']" "fault fs = (\<lambda>_ _. None)"
  shows "load_config (\<lambda>_. Inr demo_listen_toml) ''/home/conf'' fs = Inr (with_defaults demo_listen_toml)"
proof -
  have "path_of_string ''/home/conf'' = Path True [''home'', ''conf'']" by code_simp
  with assms show ?thesis
    by (simp add: load_config_def read_to_string_def read_def demo_server_fs_def fs_check_def
        empty_path_def resolve_def)
qed

lemma printed_fingerprint_is_served_instance:
  "\<exists>fs1 live. fst (sqshd_main demo_listen (\<lambda>_. Inr demo_listen_toml) (Inr demo_tls) ''/home/conf'' True demo_server_fs)
       = Printed ''Cc''
     \<and> fst (sqshd_main demo_listen (\<lambda>_. Inr demo_listen_toml) (Inl ''unused'') ''/home/conf'' False fs1) = Serves live
     \<and> ln_hex demo_listen (live_cert_fingerprint live) = ''Cc''"
proof -
  obtain fs1 where g: "load_or_generate_tls_identity demo_pem (Inr demo_tls) demo_host_key demo_host_cert
      demo_server_fs = (Inr (''Cc'', ''Kk''), fs1)" and f: "fault fs1 = (\<lambda>_ _. None)"
      "nodes fs1 [''home'', ''conf''] = nodes demo_server_fs [''home'', ''conf'']"
    by (simp add: host_eval demo_server_fs_def)
  let ?cfg = "with_defaults demo_listen_toml"
  have "fault demo_server_fs = (\<lambda>_ _. None)" by (simp add: demo_server_fs_def demo_fs_def)
  then have l: "load_config (\<lambda>_. Inr demo_listen_toml) ''/home/conf'' demo_server_fs = Inr ?cfg"
      "load_config (\<lambda>_. Inr demo_listen_toml) ''/home/conf'' fs1 = Inr ?cfg"
    using f by (simp_all add: demo_load_config)
  have c: "host_key ?cfg = demo_host_key" "host_cert ?cfg = demo_host_cert" "max_connections ?cfg = 100"
    by (simp_all add: with_defaults_def demo_listen_toml_def default_max_connections_def)
  have p: "sqshd_main demo_listen (\<lambda>_. Inr demo_listen_toml) (Inr demo_tls) ''/home/conf'' True demo_server_fs
      = (Printed ''Cc'', fs1)"
    using l(1) g c by (simp add: sqshd_main_def demo_listen_def cert_fingerprint_def)
  have r: "readable_pair (host_key ?cfg) (host_cert ?cfg) demo_server_fs" "pem_laws (ln_pem demo_listen) demo_tls"
    by (simp_all add: c demo_server_fs_def demo_fs_simps demo_host_key_def demo_host_cert_def readable_pair_def
        pem_laws_def demo_listen_def demo_pem_def demo_tls_def code_def)
  have "\<not> (exists demo_host_key demo_server_fs \<and> exists demo_host_cert demo_server_fs)"
    by (simp add: demo_server_fs_def demo_fs_simps demo_host_key_def demo_host_cert_def)
  from generated_identity_reloads [OF g this, of "Inl ''unused''"] r c
  have "load_or_generate_tls_identity demo_pem (Inl ''unused'') demo_host_key demo_host_cert fs1
      = (Inr (''Cc'', ''Kk''), fs1)" by (simp add: demo_listen_def)
  then obtain live where s: "sqshd_main demo_listen (\<lambda>_. Inr demo_listen_toml) (Inl ''unused'') ''/home/conf'' False fs1
      = (Serves live, fs1)"
    using l(2) c by (simp add: sqshd_main_def listener_start_def demo_listen_def MAX_PERMITS_def Let_def)
  from printed_fingerprint_is_served [OF p l r s] p s show ?thesis by (auto intro: exI [of _ fs1])
qed

end
