(* ===== verification/File_Effects.thy ===== *)
theory File_Effects
  imports Programs Server_Listener
begin

text \<open>
  What the programs may do to local files. The locale \<open>file_effects\<close> is the interface of a relation between
  two states of the files that every single operation of \<^verbatim>\<open>Files\<close> keeps on the places it may touch; every
  function of the programs that changes files then keeps it.
\<close>

section \<open>The interface\<close>

lemma install_key_files:
  "install_key_via_ssh lib encode bw cc s = (r, s') \<Longrightarrow> bt_fs s' = bt_fs s"
  by (auto simp: install_key_via_ssh_def and_then_def on_files_def install_authorized_key_def
      write_remote_file_def upload_def run_cmd_def spawn_process_def give_def split: prod.splits sum.splits option.splits)

text \<open>A path of which the place and everything above it may be touched.\<close>

definition free_place :: "(string list \<Rightarrow> bool) \<Rightarrow> path \<Rightarrow> fsys \<Rightarrow> bool" where
  "free_place may p fs \<longleftrightarrow> (\<forall>q \<in> set (prefixes (resolve fs p)). may q)"

text \<open>The places of a client's own files.\<close>

definition client_free :: "(string list \<Rightarrow> bool) \<Rightarrow> (string list \<Rightarrow> bool) \<Rightarrow> client_config \<Rightarrow> fsys \<Rightarrow> bool" where
  "client_free may edit cc fs \<longleftrightarrow>
     free_place may (cc_known_hosts_path cc) fs \<and> edit (resolve fs (cc_known_hosts_path cc))
     \<and> free_place may (cc_control_path cc) fs \<and> edit (resolve fs (cc_control_path cc))"

definition boot_free :: "(string list \<Rightarrow> bool) \<Rightarrow> (string list \<Rightarrow> bool) \<Rightarrow> bootstrap_config \<Rightarrow> fsys \<Rightarrow> bool" where
  "boot_free may edit cfg fs \<longleftrightarrow> free_place may (bc_identity_path cfg) fs
     \<and> free_place may (bc_known_hosts_path cfg) fs \<and> edit (resolve fs (bc_known_hosts_path cfg))"

text \<open>\<open>may\<close> are the places that may be touched at all, \<open>edit\<close> those where a file that is there may be changed or removed.\<close>

locale file_effects =
  fixes R :: "fsys \<Rightarrow> fsys \<Rightarrow> bool"
    and may :: "string list \<Rightarrow> bool"
    and edit :: "string list \<Rightarrow> bool"
  assumes R_refl: "R fs fs"
    and R_trans: "R x y \<Longrightarrow> R y z \<Longrightarrow> R x z"
    and R_cwd: "R x y \<Longrightarrow> cwd y = cwd x"
    and R_create_new: "may (resolve fs p) \<Longrightarrow>
      R fs (snd (then_do (io (create_new p mode_600 fs)) (\<lambda>_ fs. io (file_write_all p bs fs))))"
    and R_create_truncate: "may (resolve fs p) \<Longrightarrow> edit (resolve fs p) \<Longrightarrow> R fs (snd (create_truncate p m fs))"
    and R_write_all: "may (resolve fs p) \<Longrightarrow> edit (resolve fs p) \<Longrightarrow> R fs (snd (file_write_all p bs fs))"
    and R_chmod: "may (resolve fs p) \<Longrightarrow> m AND mask_077 = 0 \<Longrightarrow> R fs (snd (set_permissions p m fs))"
    and R_remove: "may (resolve fs p) \<Longrightarrow> edit (resolve fs p) \<Longrightarrow> R fs (snd (remove_file p fs))"
    and R_bind: "may (resolve fs p) \<Longrightarrow> R fs (snd (bind_socket p fs))"
    and R_mkdir: "may (cs @ [c]) \<Longrightarrow> nodes fs (cs @ [c]) = None \<Longrightarrow>
      cs = [] \<or> (\<exists>up. nodes fs cs = Some up \<and> nd_kind up = Directory) \<Longrightarrow> R fs (snd (mkdir (cs @ [c]) fs))"
begin

lemma R_resolve: "R fs fs' \<Longrightarrow> resolve fs' p = resolve fs p"
  by (rule resolve_cong) (rule R_cwd)

lemma freeD: "free_place may p fs \<Longrightarrow> may (resolve fs p)"
  by (simp add: free_place_def)

lemma free_kept: "R fs fs' \<Longrightarrow> free_place may p fs \<Longrightarrow> free_place may p fs'"
  by (simp add: free_place_def R_resolve)

lemma edit_kept: "R fs fs' \<Longrightarrow> edit (resolve fs p) \<Longrightarrow> edit (resolve fs' p)"
  by (simp add: R_resolve)

lemma free_parent: "free_place may p fs \<Longrightarrow> parent p = Some d \<Longrightarrow> free_place may d fs"
proof (cases p rule: parent.cases)
  case (2 a c cs)
  assume f: "free_place may p fs" and d: "parent p = Some d"
  have "prefix (butlast (c # cs)) (c # cs)" by (rule prefixeq_butlast)
  then obtain zs where "c # cs = butlast (c # cs) @ zs" by (auto simp: prefix_def)
  then have "filter (\<lambda>x. x \<noteq> ''.'') (c # cs)
      = filter (\<lambda>x. x \<noteq> ''.'') (butlast (c # cs)) @ filter (\<lambda>x. x \<noteq> ''.'') zs"
    by (metis filter_append)
  then have "prefix (resolve fs d) (resolve fs p)"
    using 2 d by (auto simp: resolve_def prefix_def)
  with f show ?thesis by (auto simp: free_place_def intro: prefix_order.trans)
qed simp

lemma R_then_do:
  assumes "R fs (snd r)" "\<And>a fs1. r = (Inr a, fs1) \<Longrightarrow> R fs fs1 \<Longrightarrow> R fs1 (snd (f a fs1))"
  shows "R fs (snd (then_do r f))"
  using assms by (auto simp: then_do_def split: prod.split sum.split intro: R_trans)

lemma R_mkdirs:
  "(\<forall>q. prefix q (pre @ cs) \<longrightarrow> may q) \<Longrightarrow>
     pre = [] \<or> (\<exists>up. nodes fs pre = Some up \<and> nd_kind up = Directory) \<Longrightarrow> R fs (snd (mkdirs pre cs fs))"
proof (induction cs arbitrary: pre fs)
  case Nil
  then show ?case by (simp add: R_refl)
next
  case (Cons c cs)
  have m: "\<forall>q. prefix q ((pre @ [c]) @ cs) \<longrightarrow> may q" "may (pre @ [c])" using Cons.prems(1) by simp_all
  have onward: "R fs1 (snd (mkdirs (pre @ [c]) cs fs1))"
    if "nodes fs1 (pre @ [c]) = Some up" "nd_kind up = Directory" for fs1 up
    by (rule Cons.IH [OF m(1)]) (use that in blast)
  show ?case
  proof (cases "nodes fs (pre @ [c])")
    case (Some n)
    then show ?thesis by (cases "nd_kind n = Directory") (simp_all add: R_refl onward)
  next
    case None
    have r: "R fs (snd (mkdir (pre @ [c]) fs))" using R_mkdir [OF m(2) None Cons.prems(2)] .
    show ?thesis
    proof (cases "fault fs Mkdir (pre @ [c])")
      case (Some e)
      with None show ?thesis by (simp add: mkdir_def R_refl)
    next
      case free: None
      then obtain fs1 up where "mkdir (pre @ [c]) fs = (Inr (), fs1)" "nodes fs1 (pre @ [c]) = Some up"
        "nd_kind up = Directory" by (auto simp: mkdir_def)
      with r onward None show ?thesis by (auto intro: R_trans)
    qed
  qed
qed

lemma R_create_dir_all: "free_place may p fs \<Longrightarrow> R fs (snd (create_dir_all p fs))"
  by (simp add: create_dir_all_def R_refl R_mkdirs free_place_def)

lemma snd_io [simp]: "snd (io r) = snd r" "snd (ctl_io r) = snd r"
  by (simp_all add: io_def ctl_io_def split: prod.split sum.split)

text \<open>One operation after the other: the second place is free after the first.\<close>

lemma R_next:
  assumes "R fs (snd r)" "\<And>a fs1. R fs fs1 \<Longrightarrow> R fs1 (snd (f a fs1))"
  shows "R fs (snd (then_do r f))"
  using assms by (rule R_then_do)

lemma mode_closed: "mode_600 AND mask_077 = 0" "mode_700 AND mask_077 = 0" by simp_all

lemmas R_file = R_create_truncate R_write_all R_chmod R_remove R_bind R_create_dir_all
lemmas R_seq = R_file freeD free_kept free_parent edit_kept

section \<open>Secrets and known hosts\<close>

lemma R_private_dir:
  assumes "free_place may p fs" "parent p = Some d"
  shows "R fs (snd (then_do (io (create_dir_all d fs)) (\<lambda>_ fs. io (set_permissions d mode_700 fs))))"
  using assms by (auto intro!: R_next) (blast intro: R_seq mode_closed)+

lemma R_make_private_parent: "free_place may p fs \<Longrightarrow> R fs (snd (make_private_parent p fs))"
  by (auto simp: make_private_parent_def set_dir_owner_only_permissions_def R_refl R_private_dir split: option.split)

lemma R_write_secret:
  "free_place may p fs \<Longrightarrow>
     R fs (snd (then_do (io (create_new p mode_600 fs)) (\<lambda>_ fs. io (file_write_all p bs fs))))"
  by (rule R_create_new) (rule freeD)

lemma R_ensure_client_keypair: "free_place may p fs \<Longrightarrow> R fs (snd (ensure_client_keypair fresh kg p fs))"
  by (auto simp: ensure_client_keypair_def write_seed_owner_only_def R_refl
      intro!: R_next R_make_private_parent R_write_secret intro: free_kept)

lemma R_keygen_main:
  assumes "free_place may (case file of Some f \<Rightarrow> f | None \<Rightarrow> default_key_path env) fs"
  shows "R fs (snd (keygen_main fresh kg encode env host file pub fs))"
proof -
  define key where "key = (case file of Some f \<Rightarrow> f | None \<Rightarrow> default_key_path env)"
  have f: "free_place may key fs" using assms by (simp add: key_def)
  have d: "R fs (snd (case parent key of None \<Rightarrow> (Inr (), fs) | Some d \<Rightarrow>
      then_do (io (create_dir_all d fs)) (\<lambda>_. keygen_set_dir_owner_only_permissions d)))"
    using f R_private_dir [OF f]
    by (auto simp: R_refl keygen_set_dir_owner_only_permissions_def [abs_def] split: option.split)
  show ?thesis
    using f d
    by (auto simp: keygen_main_def generate_def keygen_write_seed_owner_only_def
        key_def [symmetric]
        Let_def R_refl intro!: R_next R_write_secret intro: free_kept)
qed

lemma R_write_file: "free_place may p fs \<Longrightarrow> edit (resolve fs p) \<Longrightarrow> R fs (snd (write_file p bs fs))"
proof (cases "create_truncate p 0x1B6 fs")
  case (Pair r fs1)
  assume f: "free_place may p fs" and e: "edit (resolve fs p)"
  have a: "R fs fs1" using R_create_truncate [OF freeD [OF f] e] Pair by (metis prod.sel(2))
  then have "R fs1 (snd (file_write_all p bs fs1))" using R_write_all freeD free_kept edit_kept f e by blast
  with a Pair show ?thesis by (auto simp: write_file_def intro: R_trans split: sum.split)
qed

lemma R_load_or_generate:
  assumes "free_place may key fs" "free_place may cert fs" "edit (resolve fs cert)"
  shows "R fs (snd (load_or_generate_tls_identity lib g key cert fs))"
proof -
  have d: "R fs (snd (case parent key of None \<Rightarrow> (Inr (), fs) | Some d \<Rightarrow> create_restrictive_dir_if_missing d fs))"
    using assms(1) by (auto simp: create_restrictive_dir_if_missing_def R_refl R_private_dir split: option.split)
  show ?thesis
    using assms d
    by (auto simp: load_or_generate_tls_identity_def write_private_key_owner_only_def R_refl split: sum.split
        intro!: R_next R_write_file R_write_secret intro: free_kept edit_kept)
qed

lemma R_kh_save:
  assumes "free_place may (kh_path kh) fs" "edit (resolve fs (kh_path kh))"
  shows "R fs (snd (kh_save order kh fs))"
proof -
  have d: "R fs (snd (case parent (kh_path kh) of None \<Rightarrow> (Inr (), fs)
      | Some d \<Rightarrow> then_do (io (create_dir_all d fs)) (\<lambda>_ fs. io (set_permissions d mode_700 fs))))"
    using assms(1) by (auto simp: R_refl R_private_dir split: option.split)
  show ?thesis
    unfolding kh_save_def kh_set_dir_eq write_owner_only_file_def
    using assms d by (auto simp: R_refl intro!: R_next) (blast intro: R_seq mode_closed)+
qed

lemma R_verify_host:
  assumes "free_place may (kh_path kh) fs" "edit (resolve fs (kh_path kh))" shows "R fs (snd (snd (verify_host order h f (kh, fs))))"
proof -
  have "R fs (snd (kh_save order (kh\<lparr>entries := AList.update h f (entries kh)\<rparr>) fs))"
    by (rule R_kh_save) (use assms in simp_all)
  then show ?thesis
    by (auto simp: verify_host_def Let_def R_refl split: option.split prod.split sum.split)
qed

lemma R_pin_host:
  assumes "free_place may (kh_path kh) fs" "edit (resolve fs (kh_path kh))" shows "R fs (snd (snd (pin_host order h f (kh, fs))))"
proof -
  have "R fs (snd (kh_save order (kh\<lparr>entries := AList.update h f (entries kh)\<rparr>) fs))"
    by (rule R_kh_save) (use assms in simp_all)
  then show ?thesis by (auto simp: pin_host_def Let_def split: prod.split sum.split)
qed

lemma R_establish_connection:
  assumes "free_place may (cc_known_hosts_path cc) fs" "edit (resolve fs (cc_known_hosts_path cc))"
  shows "R fs (snd (establish_connection lib order cc resolves p ms k fs))"
proof -
  have "R fs fs1" if "load (cc_known_hosts_path cc) fs = Inr kh" "verify_host order h f (kh, fs) = (r, kh1, fs1)"
    for kh h f r kh1 fs1
    using R_verify_host [of kh fs order h f] load_path [OF that(1)] assms that(2) by simp
  then show ?thesis
    by (auto simp: establish_connection_def Let_def R_refl split: sum.split prod.split)
qed

section \<open>Sockets and the client\<close>

lemma R_remove_socket_file:
  "free_place may p fs \<Longrightarrow> edit (resolve fs p) \<Longrightarrow> R fs (snd (remove_socket_file p fs))"
  by (auto simp: remove_socket_file_def R_refl split: sum.split intro: R_remove freeD)

lemma R_prepare_socket_path:
  assumes "free_place may p fs" "edit (resolve fs p)"
  shows "R fs (snd (prepare_socket_path p fs))"
proof -
  have "R fs (snd (case parent p of None \<Rightarrow> (Inr (), fs) | Some d \<Rightarrow>
      then_do (ctl_io (create_dir_all d fs)) (\<lambda>_ fs. ctl_io (set_owner_only_permissions d fs))))"
    using assms(1)
    by (auto simp: R_refl set_owner_only_permissions_def split: option.split intro!: R_next)
      (blast intro: R_seq mode_closed)+
  then show ?thesis
    unfolding prepare_socket_path_def
    using assms by (blast intro: R_next R_remove_socket_file free_kept edit_kept)
qed

lemma R_run_master:
  assumes "free_place may (cc_control_path cc) fs" "edit (resolve fs (cc_control_path cc))"
  shows "R fs (snd (run_master cc fs))"
  unfolding run_master_def
proof (rule R_next)
  show "R fs (snd (prepare_socket_path (cc_control_path cc) fs))" by (rule R_prepare_socket_path [OF assms])
  show "R fs1 (snd (ctl_io (bind_socket (cc_control_path cc) fs1)))" if "R fs fs1" for fs1
    using R_bind freeD free_kept [OF that] assms(1) by simp
qed

lemma R_leave_master:
  "free_place may (cc_control_path cc) fs \<Longrightarrow> edit (resolve fs (cc_control_path cc)) \<Longrightarrow> R fs (leave_master cc fs)"
  by (simp add: leave_master_def R_remove freeD)

lemma R_send_request_to_master:
  assumes "free_place may (cc_control_path cc) fs" "edit (resolve fs (cc_control_path cc))"
  shows "R fs (snd (send_request_to_master cc dialled session fs))"
  using R_remove_socket_file [OF assms]
  by (auto simp: send_request_to_master_def remove_stale_socket_def R_refl split: sum.split intro!: R_next)

lemma client_free_kept: "R fs fs' \<Longrightarrow> client_free may edit cc fs \<Longrightarrow> client_free may edit cc fs'"
  by (auto simp: client_free_def intro: free_kept edit_kept)

lemma client_freeD:
  assumes "client_free may edit cc fs"
  shows "R fs (snd (send_request_to_master cc dialled session fs))" "R fs (snd (run_master cc fs))"
    "R fs (leave_master cc fs)" "R fs (snd (establish_connection lib order cc resolves p ms k fs))"
  using assms R_send_request_to_master R_run_master R_leave_master R_establish_connection
  by (simp_all add: client_free_def)

lemma R_run_via_master_or_spawn:
  assumes "client_free may edit cc fs" "\<And>fs. R fs (snd (mw_spawn w fs))"
  shows "R fs (snd (run_via_master_or_spawn cc w session fs))"
  using assms client_free_kept
  by (auto simp: run_via_master_or_spawn_def R_refl client_freeD split: sum.split intro!: R_next)

lemma R_connect_direct:
  "client_free may edit cc fs \<Longrightarrow> R fs (me_fs (connect_direct lib order cc w fs))"
  using client_freeD(4) [of cc fs lib order "mn_resolves w" "mn_presented w" "mn_control w" open_sink]
  by (auto simp: connect_direct_def ended_def Let_def split: prod.split sum.split option.split bool.split)

lemma R_serve_master: "client_free may edit cc fs \<Longrightarrow> R fs (me_fs (serve_master cc es k fs))"
  using client_freeD(3)
  by (auto simp: serve_master_def ended_def Let_def R_refl split: loop_status.split)

lemma R_become_master:
  assumes "client_free may edit cc fs" shows "R fs (me_fs (become_master lib order cc w fs))"
proof -
  obtain res ms k fs1 where e: "establish_connection lib order cc (mn_resolves w) (mn_presented w) (mn_control w)
      open_sink fs = ((res, ms, k), fs1)" by (metis prod.collapse)
  then have 1: "R fs fs1"
    using client_freeD(4) [OF assms, of lib order "mn_resolves w" "mn_presented w" "mn_control w" open_sink] by simp
  obtain r fs2 where m: "run_master cc fs1 = (r, fs2)" by fastforce
  have 2: "R fs1 fs2" using client_freeD(2) [OF client_free_kept [OF 1 assms]] m by simp
  have "R fs2 (me_fs (serve_master cc es k fs2))" for es
    by (intro R_serve_master client_free_kept [OF 2] client_free_kept [OF 1] assms)
  with 1 2 show ?thesis
    by (cases res; cases r) (auto simp: become_master_def e m ended_def intro: R_trans)
qed

lemma R_connect_once:
  assumes "client_free may edit cc fs" "\<And>fs. R fs (snd (mw_spawn (mn_socket w) fs))"
  shows "R fs (me_fs (connect_once lib order cc w fs))"
proof -
  obtain r fs1 where v: "run_via_master_or_spawn cc (mn_socket w) (mn_shared w) fs = (r, fs1)" by fastforce
  then have 1: "R fs fs1" using R_run_via_master_or_spawn [OF assms] by (metis snd_conv)
  have "R fs1 (me_fs (connect_direct lib order cc w fs1))"
    by (rule R_connect_direct [OF client_free_kept [OF 1 assms(1)]])
  with 1 have "R fs (me_fs (case r of Inl e \<Rightarrow> ended (Some (Inl (MainControl e))) fs1
      | Inr True \<Rightarrow> ended (Some (Inr ())) fs1 | Inr False \<Rightarrow> connect_direct lib order cc w fs1))"
    by (auto simp: ended_def split: sum.split bool.split intro: R_trans)
  then show ?thesis
    using R_connect_direct [OF assms(1)] R_become_master [OF assms(1)]
    by (simp add: connect_once_def v)
qed

lemma R_connect_main:
  assumes "client_free may edit cc fs" "\<And>fs. R fs (snd (mw_spawn (mn_socket w1) fs))"
    "\<And>fs. R fs (snd (mw_spawn (mn_socket w2) fs))"
  shows "R fs (me_fs (fst (connect_main lib order encode cc w1 bw w2 fs)))"
proof -
  note 1 = R_connect_once [OF assms(1,2)]
  have "R fs (me_fs (connect_once lib order cc w2 (me_fs (connect_once lib order cc w1 fs))))"
    by (rule R_trans [OF 1 R_connect_once [OF client_free_kept [OF 1 assms(1)] assms(3)]])
  with 1 show ?thesis
    by (auto simp: connect_main_def Let_def install_key_files split: prod.split sum.split)
qed

lemma R_open_authenticated:
  assumes "client_free may edit cc fs"
  shows "R fs (snd (snd (open_authenticated lib order encode cc w1 bw w2 fs)))"
proof -
  have 1: "R fs fs1" if "client_free may edit cc fs" "establish_connection lib order cc (mn_resolves w) (mn_presented w)
      (mn_control w) open_sink fs = (r, fs1)" for w r fs fs1
    using client_freeD(4) [OF that(1), of lib order "mn_resolves w" "mn_presented w" "mn_control w" open_sink] that(2)
    by simp
  have 2: "R fs fs2" if "establish_connection lib order cc (mn_resolves w1) (mn_presented w1) (mn_control w1)
        open_sink fs = (r1, fs1)"
      "establish_connection lib order cc (mn_resolves w2) (mn_presented w2) (mn_control w2) open_sink fs1 = (r2, fs2)"
    for r1 fs1 r2 fs2
    using R_trans [OF 1 [OF assms that(1)] 1 [OF client_free_kept [OF 1 [OF assms that(1)] assms] that(2)]] .
  show ?thesis
    using 1 [OF assms] 2
    by (auto simp: open_authenticated_def Let_def install_key_files split: prod.split sum.split)
qed

section \<open>The other programs\<close>

lemma R_sqshd_main:
  assumes "\<And>cfg. load_config from_str config fs = Inr cfg \<Longrightarrow> free_place may (host_key cfg) fs
    \<and> free_place may (host_cert cfg) fs \<and> edit (resolve fs (host_cert cfg))"
  shows "R fs (snd (sqshd_main lib from_str generated config emit_only fs))"
proof (cases "load_config from_str config fs")
  case (Inl e)
  then show ?thesis by (simp add: sqshd_main_def R_refl)
next
  case (Inr cfg)
  obtain r fs1 where l: "load_or_generate_tls_identity (ln_pem lib) generated (host_key cfg) (host_cert cfg) fs = (r, fs1)"
    by fastforce
  then have "R fs fs1" using R_load_or_generate assms [OF Inr] by (metis snd_conv)
  with Inr l show ?thesis
    by (auto simp: sqshd_main_def listener_start_def Let_def split: sum.split prod.split)
qed

lemma R_and_then:
  assumes "R (bt_fs s) (bt_fs (snd (m s)))"
    and "\<And>a s1. m s = (Inr a, s1) \<Longrightarrow> R (bt_fs s) (bt_fs s1) \<Longrightarrow> R (bt_fs s1) (bt_fs (snd (f a s1)))"
  shows "R (bt_fs s) (bt_fs (snd (and_then m f s)))"
proof -
  obtain r s1 where m: "m s = (r, s1)" by fastforce
  with assms have "R (bt_fs s) (bt_fs s1)" "\<And>a. r = Inr a \<Longrightarrow> R (bt_fs s1) (bt_fs (snd (f a s1)))" by simp_all
  with m show ?thesis by (auto simp: and_then_def split: sum.split intro: R_trans)
qed

lemma R_on_files: "R (bt_fs s) (snd (f (bt_fs s))) \<Longrightarrow> R (bt_fs s) (bt_fs (snd (on_files err f s)))"
  by (auto simp: on_files_def split: prod.splits sum.splits)

lemma R_remote_step:
  "R (bt_fs s) (bt_fs (snd (run_cmd w r cmd s)))" "R (bt_fs s) (bt_fs (snd (sudo w r cmd s)))"
  "R (bt_fs s) (bt_fs (snd (upload w r l bs dest s)))" "R (bt_fs s) (bt_fs (snd (write_remote_file w r dest t s)))"
  "R (bt_fs s) (bt_fs (snd (give a s)))" "R (bt_fs s) (bt_fs (snd (fail e s)))"
  by (auto simp: run_cmd_def sudo_def upload_def write_remote_file_def spawn_process_def give_def fail_def R_refl
      split: option.split sum.split)

lemma R_remote_steps:
  "R (bt_fs s) (bt_fs (snd (detect_os w r s)))" "R (bt_fs s) (bt_fs (snd (remote_arch w r s)))"
  "R (bt_fs s) (bt_fs (snd (is_sqshd_installed w r s)))" "R (bt_fs s) (bt_fs (snd (is_sqshd_running w r s)))"
  "R (bt_fs s) (bt_fs (snd (install_authorized_key w r line s)))" "R (bt_fs s) (bt_fs (snd (reload_service w r os s)))"
  "R (bt_fs s) (bt_fs (snd (install_and_start w r os s)))" "R (bt_fs s) (bt_fs (snd (fetch_fingerprint w r s)))"
proof -
  have "R (bt_fs s) (bt_fs s1)" if "run_cmd w r cmd s = (res, s1)" for cmd res s1
    using R_remote_step(1) [of s w r cmd] that by simp
  then show "R (bt_fs s) (bt_fs (snd (is_sqshd_installed w r s)))" "R (bt_fs s) (bt_fs (snd (is_sqshd_running w r s)))"
    by (auto simp: is_sqshd_installed_def is_sqshd_running_def split: prod.split sum.split)
qed (auto simp: detect_os_def remote_arch_def install_authorized_key_def reload_service_def install_and_start_def
    install_systemd_def install_launchd_def fetch_fingerprint_def R_remote_step split: os_kind.split intro!: R_and_then)

lemma R_install_release:
  assumes "\<And>words fs. R fs (snd (bw_exec w words fs))"
  shows "R (bt_fs s) (bt_fs (snd (install_release lib w r version target s)))"
proof -
  have load: "R fs (snd (download_to_path env (bw_exec w) url dest fs))"
    "R fs (snd (extract_sqshd_binary (bw_exec w) archive dir fs))" for env url dest archive dir fs
    using assms
    by (auto simp: download_to_path_def extract_sqshd_binary_def Let_def R_refl split: prod.split option.split)
      (metis snd_conv)+
  have "R fs (snd (download_and_verify_sqshd_release lib env (bw_exec w) staging version target fs))" for env staging fs
    by (auto simp: download_and_verify_sqshd_release_def Let_def R_refl load split: sum.split intro!: R_next)
  then show ?thesis
    unfolding install_release_def
    by (intro R_and_then R_on_files R_remote_step) (auto simp: R_refl R_remote_step split: sum.split)
qed

text \<open>Along a sequence something may hold of the files that the relation keeps.\<close>

lemma R_sequence:
  assumes "ok (bt_fs s)" "\<And>x y. R x y \<Longrightarrow> ok x \<Longrightarrow> ok y"
    and "R (bt_fs s) (bt_fs (snd (m s)))" "\<And>a s1. m s = (Inr a, s1) \<Longrightarrow> ok (bt_fs s1) \<Longrightarrow> R (bt_fs s1) (bt_fs (snd (f a s1)))"
  shows "R (bt_fs s) (bt_fs (snd (and_then m f s)))"
  using assms by (blast intro: R_and_then)

lemma boot_free_kept: "R fs fs' \<Longrightarrow> boot_free may edit cfg fs \<Longrightarrow> boot_free may edit cfg fs'"
  by (auto simp: boot_free_def intro: free_kept edit_kept)

lemma R_run_bootstrap:
  assumes "boot_free may edit cfg (bt_fs s)" "\<And>words fs. R fs (snd (bw_exec w words fs))"
  shows "R (bt_fs s) (bt_fs (snd (run_bootstrap lib ks order w cfg s)))"
proof -
  have key: "R (bt_fs s) (snd (ensure_client_keypair (ks_fresh ks) (ks_key_gen ks) (bc_identity_path cfg) (bt_fs s)))"
    if "boot_free may edit cfg (bt_fs s)" for s
    using that R_ensure_client_keypair by (simp add: boot_free_def)
  have pin: "R (bt_fs s2) (snd (case pin_host order h f (kh, bt_fs s2) of (res, kh1, fs1) \<Rightarrow> (res, fs1)))"
    if "on_files err (\<lambda>fs. (load (bc_known_hosts_path cfg) fs, fs)) s1 = (Inr kh, s2)" "boot_free may edit cfg (bt_fs s2)"
    for err s1 s2 kh h f
  proof -
    have "kh_path kh = bc_known_hosts_path cfg"
      using on_files_InrD [OF that(1)] by (auto intro: load_path)
    then have "R (bt_fs s2) (snd (snd (pin_host order h f (kh, bt_fs s2))))"
      using R_pin_host that(2) by (simp add: boot_free_def)
    then show ?thesis by (simp add: split_beta)
  qed
  note seq = R_sequence [where ok = "boot_free may edit cfg", OF _ boot_free_kept]
  show ?thesis
    unfolding run_bootstrap_def Let_def
    by (intro seq R_on_files R_remote_steps R_remote_step key assms(1))
      (assumption | erule (1) pin | simp add: R_refl R_remote_step R_remote_steps R_install_release assms(2))+
qed

end

end
