(* ===== verification/Histories.thy ===== *)
theory Histories
  imports File_Effects
begin

text \<open>
  What happens to the files of a machine on which the programs run: a typing of the files that every program
  keeps, keys that no program rewrites, removes or opens up, and the places a run of the client leaves as they
  were. All three come from interpretations of \<open>file_effects\<close>.
\<close>

section \<open>The tree of the files\<close>

text \<open>The root is a directory, and what there is has a directory above it.\<close>

definition dir_at :: "fsys \<Rightarrow> string list \<Rightarrow> bool" where
  "dir_at fs q \<longleftrightarrow> (case nodes fs q of Some n \<Rightarrow> nd_kind n = Directory | None \<Rightarrow> False)"

definition file_tree :: "fsys \<Rightarrow> bool" where
  "file_tree fs \<longleftrightarrow> dir_at fs [] \<and> (\<forall>cs c. nodes fs (cs @ [c]) \<noteq> None \<longrightarrow> dir_at fs cs)"

definition closed_to_others :: "fnode \<Rightarrow> bool" where
  "closed_to_others n \<longleftrightarrow> nd_mode n AND mask_077 = 0"

text \<open>
  A node stays: of the same kind and owner, closed to others if it was, and with the same contents where
  nothing may be edited.
\<close>

definition node_stays :: "bool \<Rightarrow> fnode \<Rightarrow> fnode \<Rightarrow> bool" where
  "node_stays editable n n' \<longleftrightarrow> nd_kind n' = nd_kind n \<and> nd_uid n' = nd_uid n
     \<and> (closed_to_others n \<longrightarrow> closed_to_others n') \<and> (\<not> editable \<longrightarrow> nd_data n' = nd_data n)"

definition guarded :: "(string list \<Rightarrow> bool) \<Rightarrow> fsys \<Rightarrow> fsys \<Rightarrow> bool" where
  "guarded edit fs fs' \<longleftrightarrow> (file_tree fs \<longrightarrow> file_tree fs')
     \<and> (\<forall>q n. nodes fs q = Some n \<and> (nd_kind n = Directory \<or> \<not> edit q) \<longrightarrow>
          (\<exists>n'. nodes fs' q = Some n' \<and> node_stays (edit q) n n'))"

lemma node_stays_refl [simp]: "node_stays b n n"
  by (simp add: node_stays_def)

lemma guarded_same_nodes: "nodes fs' = nodes fs \<Longrightarrow> guarded edit fs fs'"
  by (simp add: guarded_def file_tree_def dir_at_def)

lemma guarded_trans: "guarded edit x y \<Longrightarrow> guarded edit y z \<Longrightarrow> guarded edit x z"
  unfolding guarded_def node_stays_def by (smt (verit))

text \<open>A node changed where it was, a new one in a directory, and a file gone where files may be edited.\<close>

lemma guarded_change:
  assumes "nodes fs q = Some n" "nodes fs' = (nodes fs)(q \<mapsto> n')" "node_stays (edit q) n n'"
  shows "guarded edit fs fs'"
proof -
  have "dir_at fs' cs = dir_at fs cs" "nodes fs' cs = None \<longleftrightarrow> nodes fs cs = None" for cs
    using assms by (auto simp: dir_at_def node_stays_def)
  then have "file_tree fs' = file_tree fs" by (simp add: file_tree_def)
  then show ?thesis using assms by (auto simp: guarded_def)
qed

lemma guarded_new:
  assumes "nodes fs q = None" "nodes fs' = (nodes fs)(q \<mapsto> n')" "file_tree fs \<longrightarrow> dir_at fs (butlast q)"
  shows "guarded edit fs fs'"
proof -
  have "dir_at fs' cs" if "dir_at fs cs" for cs
    using assms(1,2) that by (auto simp: dir_at_def split: option.splits)
  then have "file_tree fs'" if "file_tree fs"
    using assms that by (auto simp: file_tree_def)
  then show ?thesis using assms(1,2) by (auto simp: guarded_def)
qed

lemma guarded_gone:
  assumes "nodes fs q = Some n" "nd_kind n \<noteq> Directory" "edit q" "nodes fs' = (nodes fs)(q := None)"
  shows "guarded edit fs fs'"
proof -
  have "dir_at fs' cs = dir_at fs cs" for cs
    using assms(1,2,4) by (auto simp: dir_at_def)
  then have "file_tree fs'" if "file_tree fs"
    using assms(4) that by (auto simp: file_tree_def split: if_splits)
  then show ?thesis using assms by (auto simp: guarded_def)
qed

section \<open>The operations\<close>

lemma dir_at_parent: "parent_is_dir p fs \<longleftrightarrow> dir_at fs (butlast (resolve fs p))"
  by (simp add: parent_is_dir_def dir_at_def)

lemma nodes_then_write:
  "r = create_new p m fs \<Longrightarrow> fs' = snd (then_do (io r) (\<lambda>_ fs. io (file_write_all p bs fs))) \<Longrightarrow>
     nodes fs' = nodes fs \<or> (nodes fs (resolve fs p) = None \<and> parent_is_dir p fs
       \<and> (\<exists>n. nodes fs' = (nodes fs)(resolve fs p \<mapsto> n)))"
  by (auto simp: create_new_def file_write_all_def then_do_def io_def split: option.split)

lemma fs_op_cwd:
  "cwd (snd (then_do (io (create_new p m fs)) (\<lambda>_ fs. io (file_write_all p bs fs)))) = cwd fs"
  "cwd (snd (create_truncate p m fs)) = cwd fs" "cwd (snd (file_write_all p bs fs)) = cwd fs"
  "cwd (snd (set_permissions p m fs)) = cwd fs" "cwd (snd (remove_file p fs)) = cwd fs"
  "cwd (snd (bind_socket p fs)) = cwd fs" "cwd (snd (mkdir cs fs)) = cwd fs"
  by (auto simp: create_new_def file_write_all_def create_truncate_def set_permissions_def remove_file_def
      bind_socket_def mkdir_def then_do_def io_def split: option.split)

lemma guarded_create_new:
  "guarded edit fs (snd (then_do (io (create_new p m fs)) (\<lambda>_ fs. io (file_write_all p bs fs))))"
  using nodes_then_write [OF refl refl, of p m fs bs]
  by (auto simp: dir_at_parent intro: guarded_same_nodes guarded_new)

lemma guarded_create_truncate: "edit (resolve fs p) \<Longrightarrow> guarded edit fs (snd (create_truncate p m fs))"
  by (auto simp: create_truncate_def dir_at_parent node_stays_def closed_to_others_def split: option.split
      intro: guarded_same_nodes guarded_new [of _ "resolve fs p"] guarded_change [of _ "resolve fs p"])

lemma guarded_write_all: "edit (resolve fs p) \<Longrightarrow> guarded edit fs (snd (file_write_all p bs fs))"
  by (auto simp: file_write_all_def node_stays_def closed_to_others_def split: option.split
      intro: guarded_same_nodes guarded_change [of _ "resolve fs p"])

lemma guarded_chmod: "m AND mask_077 = 0 \<Longrightarrow> guarded edit fs (snd (set_permissions p m fs))"
  by (auto simp: set_permissions_def node_stays_def closed_to_others_def split: option.split
      intro: guarded_same_nodes guarded_change [of _ "resolve fs p"])

lemma guarded_remove: "edit (resolve fs p) \<Longrightarrow> guarded edit fs (snd (remove_file p fs))"
  by (auto simp: remove_file_def split: option.split
      intro: guarded_same_nodes guarded_gone [of _ "resolve fs p"])

lemma guarded_bind: "guarded edit fs (snd (bind_socket p fs))"
  by (auto simp: bind_socket_def dir_at_parent split: option.split
      intro: guarded_same_nodes guarded_new [of _ "resolve fs p"])

lemma guarded_mkdir:
  assumes "nodes fs (cs @ [c]) = None" "cs = [] \<or> (\<exists>up. nodes fs cs = Some up \<and> nd_kind up = Directory)"
  shows "guarded edit fs (snd (mkdir (cs @ [c]) fs))"
  using assms
  by (auto simp: mkdir_def dir_at_def file_tree_def split: option.split intro: guarded_same_nodes guarded_new [of _ "cs @ [c]"])

interpretation guarding: file_effects "\<lambda>fs fs'. guarded edit fs fs' \<and> cwd fs' = cwd fs" "\<lambda>_. True" edit for edit
  by unfold_locales
    (auto simp: fs_op_cwd guarded_same_nodes guarded_create_new guarded_create_truncate guarded_write_all
      guarded_chmod guarded_remove guarded_bind guarded_mkdir intro: guarded_trans)

section \<open>Transfers\<close>

text \<open>A download may edit what is at or below its destination.\<close>

definition download_guarded :: "(string list \<Rightarrow> bool) \<Rightarrow> string list \<Rightarrow> fsys \<Rightarrow> fsys \<Rightarrow> bool" where
  "download_guarded edit root fs fs' \<longleftrightarrow>
     ((\<forall>q. prefix root q \<longrightarrow> edit q) \<longrightarrow> guarded edit fs fs') \<and> cwd fs' = cwd fs"

interpretation loading: download_effects "download_guarded edit" for edit
proof unfold_locales
  show "prefix root (resolve fs p) \<Longrightarrow> download_guarded edit root fs (snd (create_dir_all p fs))" for root fs p
    using guarding.R_create_dir_all by (simp add: download_guarded_def free_place_def)
qed (auto simp: download_guarded_def fs_op_cwd guarded_same_nodes guarded_create_truncate guarded_write_all
    intro: guarded_trans)

interpretation copies: kept_relation "\<lambda>s t. guarded edit (tf_local s) (tf_local t)" for edit
  by unfold_locales (auto simp: guarded_same_nodes intro: guarded_trans)

lemma guarded_download_inner:
  assumes "plain_names sf" "\<And>q. prefix (resolve (tf_local s) (path_of_string dst)) q \<Longrightarrow> edit q"
  shows "guarded edit (tf_local s) (tf_local (snd (download_inner n sf recursive rpath dst s)))"
  using loading.download_inner_kept [OF assms(1), of "resolve (tf_local s) (path_of_string dst)" dst s edit n recursive rpath]
    assms(2)
  by (simp add: below_def download_guarded_def)

lemma closing_local: "tf_local (snd (closing hang_up m s)) = tf_local (snd (m s))"
  by (simp add: closing_def split: prod.split option.split)

lemma copy_connect_local: "tf_local (snd (copy_connect resolving dial cli host s)) = tf_local s"
  by (simp add: copy_connect_def split: sum.split)

lemma guarded_sqcp_main:
  assumes "plain_names sf" "\<And>q. prefix (resolve (tf_local s) (path_of_string (cp_dst cli))) q \<Longrightarrow> edit q"
  shows "guarded edit (tf_local s) (tf_local (snd (sqcp_main n sf ls resolving dial hang_up cli s)))"
proof -
  have local: "tf_local t = tf_local s" if "copy_connect resolving dial cli host s = (Some (Inr a), t)" for host a t
    using copy_connect_local [of resolving dial cli host s] that by simp
  have down: "guarded edit (tf_local s) (tf_local (snd (download_inner n sf r rpath (cp_dst cli) t)))"
    if "tf_local t = tf_local s" for r rpath t
    using guarded_download_inner [OF assms(1), of t "cp_dst cli" edit n r rpath] assms(2) that by simp
  have "guarded edit (tf_local s) (tf_local (snd (copy_download n sf resolving dial hang_up cli host rpath s)))" for host rpath
    unfolding copy_download_def
    by (rule copies.keeps_then)
      (use local in \<open>auto simp: copy_connect_local guarded_same_nodes closing_local intro!: down\<close>)
  moreover have "guarded edit (tf_local s) (tf_local (snd (copy_upload n sf ls resolving dial hang_up cli host rpath s)))"
    for host rpath
    unfolding copy_upload_def
    by (rule copies.keeps_then)
      (auto simp: copy_connect_local guarded_same_nodes closing_local upload_keeps_local)
  ultimately show ?thesis
    by (auto simp: sqcp_main_def guarded_same_nodes split: option.split)
qed

lemma guarded_run_command:
  assumes "\<And>l. cmd = ''get'' \<Longrightarrow> get_target rcwd as = Some l \<Longrightarrow>
    (\<forall>q. prefix (resolve (tf_local s) (path_of_string l)) q \<longrightarrow> edit q)"
  shows "guarded edit (tf_local s) (tf_local (snd (run_command n sf ls rcwd cmd as s)))"
proof (rule run_command_cases [of n sf ls rcwd cmd as s])
  show ?thesis if "nodes (tf_local (snd (run_command n sf ls rcwd cmd as s))) = nodes (tf_local s)"
    using that by (rule guarded_same_nodes)
  fix p l
  assume g: "cmd = ''get''" "get_target rcwd as = Some l"
    and r: "run_command n sf ls rcwd cmd as s = copy_then (shell_download n sf p l) (\<lambda>_. copy_give rcwd) s"
  have "guarded edit (tf_local s) (tf_local (snd (shell_download n sf p l s)))"
    using loading.shell_download_kept [of "resolve (tf_local s) (path_of_string l)" l s edit n sf p] assms [OF g]
    by (simp add: below_def download_guarded_def)
  then show ?thesis
    unfolding r by (rule copies.keeps_then) (simp add: guarded_same_nodes)
qed

section \<open>Histories of the programs\<close>

text \<open>
  What the programs can do to the files of a machine, one run after the other and at the same time as others:
  \<open>edit\<close> are the places of the files they are told to keep up (known hosts, control sockets, certificates)
  and of downloads, \<open>others\<close> is what anything else does. A process that is started sees the files as they are, in a
  working directory and with a user of its own.
\<close>

inductive history ::
  "('c, 'k) listen_library \<Rightarrow> ('pk, 'sg) release_library \<Rightarrow> 'r sftp
    \<Rightarrow> (string list \<Rightarrow> bool) \<Rightarrow> (fsys \<Rightarrow> fsys \<Rightarrow> bool) \<Rightarrow> fsys \<Rightarrow> fsys \<Rightarrow> bool"
  for lib :: "('c, 'k) listen_library" and rl :: "('pk, 'sg) release_library" and sf :: "'r sftp"
    and edit :: "string list \<Rightarrow> bool" and others :: "fsys \<Rightarrow> fsys \<Rightarrow> bool" where
  other: "others fs fs' \<Longrightarrow> history lib rl sf edit others fs fs'"
| another_process: "nodes fs' = nodes fs \<Longrightarrow> history lib rl sf edit others fs fs'"
| one_then: "history lib rl sf edit others fs fs1 \<Longrightarrow> history lib rl sf edit others fs1 fs2 \<Longrightarrow> history lib rl sf edit others fs fs2"
| keygen: "history lib rl sf edit others fs (snd (keygen_main fresh kg encode env host named pub fs))"
| server: "(\<And>cfg. load_config from_str config fs = Inr cfg \<Longrightarrow> edit (resolve fs (host_cert cfg))) \<Longrightarrow>
    history lib rl sf edit others fs (snd (sqshd_main lib from_str generated config emit_only fs))"
| client: "client_free (\<lambda>_. True) edit cc fs \<Longrightarrow>
    (\<And>w fs. w = w1 \<or> w = w2 \<Longrightarrow> history lib rl sf edit others fs (snd (mw_spawn (mn_socket w) fs))
      \<and> cwd (snd (mw_spawn (mn_socket w) fs)) = cwd fs) \<Longrightarrow>
    history lib rl sf edit others fs (me_fs (fst (connect_main cl order encode cc w1 bw w2 fs)))"
| files_client: "client_free (\<lambda>_. True) edit cc fs \<Longrightarrow>
    history lib rl sf edit others fs (snd (snd (open_authenticated cl order encode cc w1 bw w2 fs)))"
| bootstrap: "boot_free (\<lambda>_. True) edit (build_config cli home) (bt_fs s) \<Longrightarrow>
    (\<And>words fs. history lib rl sf edit others fs (snd (bw_exec bw words fs)) \<and> cwd (snd (bw_exec bw words fs)) = cwd fs) \<Longrightarrow>
    history lib rl sf edit others (bt_fs s) (bt_fs (snd (bootstrap_main rl ks order bw cli home s)))"
| copy: "plain_names sf \<Longrightarrow>
    (\<And>q. prefix (resolve (tf_local s) (path_of_string (cp_dst cli))) q \<Longrightarrow> edit q) \<Longrightarrow>
    history lib rl sf edit others (tf_local s) (tf_local (snd (sqcp_main n sf ls resolving dial hang_up cli s)))"
| shell_command: "(\<And>l q. cmd = ''get'' \<Longrightarrow> get_target rcwd as = Some l \<Longrightarrow>
      prefix (resolve (tf_local s) (path_of_string l)) q \<Longrightarrow> edit q) \<Longrightarrow>
    history lib rl sf edit others (tf_local s) (tf_local (snd (run_command n sf ls rcwd cmd as s)))"

lemma history_guarded:
  assumes "history lib rl sf edit others fs fs'" "\<And>x y. others x y \<Longrightarrow> guarded edit x y"
  shows "guarded edit fs fs'"
  using assms(1)
proof (induction rule: history.induct)
  case (other fs fs')
  then show ?case by (rule assms(2))
next
  case (another_process fs' fs)
  then show ?case by (rule guarded_same_nodes)
next
  case (one_then fs fs1 fs2)
  show ?case using one_then.IH by (rule guarded_trans)
next
  case (keygen fs fresh kg encode env host named pub)
  show ?case using guarding.R_keygen_main by (simp add: free_place_def)
next
  case (server from_str config fs generated emit_only)
  show ?case by (rule conjunct1 [OF guarding.R_sqshd_main]) (simp add: server free_place_def)
next
  case (client cc fs w1 w2 cl order encode bw)
  then show ?case using guarding.R_connect_main by simp
next
  case (files_client cc fs cl order encode w1 bw w2)
  then show ?case using guarding.R_open_authenticated by simp
next
  case (bootstrap cli home s bw ks order)
  show ?case
    unfolding bootstrap_main_def
    by (rule conjunct1 [OF guarding.R_run_bootstrap]) (use bootstrap in simp_all)
next
  case (copy s cli n ls resolving dial hang_up)
  show ?case by (rule guarded_sqcp_main) (use copy in simp_all)
next
  case (shell_command cmd rcwd as s n ls)
  show ?case by (rule guarded_run_command) (use shell_command in auto)
qed

section \<open>What a run of the client leaves alone\<close>

definition left_alone :: "(string list \<Rightarrow> bool) \<Rightarrow> fsys \<Rightarrow> fsys \<Rightarrow> bool" where
  "left_alone may fs fs' \<longleftrightarrow> cwd fs' = cwd fs \<and> (\<forall>q. \<not> may q \<longrightarrow> nodes fs' q = nodes fs q)"

lemma left_alone_change:
  "cwd fs' = cwd fs \<Longrightarrow> nodes fs' = nodes fs \<or> (\<exists>x. nodes fs' = (nodes fs)(q := x)) \<Longrightarrow> may q \<Longrightarrow> left_alone may fs fs'"
  by (auto simp: left_alone_def)

lemma op_changes:
  "nodes (snd (create_truncate p m fs)) = nodes fs \<or> (\<exists>x. nodes (snd (create_truncate p m fs)) = (nodes fs)(resolve fs p := x))"
  "nodes (snd (file_write_all p bs fs)) = nodes fs \<or> (\<exists>x. nodes (snd (file_write_all p bs fs)) = (nodes fs)(resolve fs p := x))"
  "nodes (snd (set_permissions p m fs)) = nodes fs \<or> (\<exists>x. nodes (snd (set_permissions p m fs)) = (nodes fs)(resolve fs p := x))"
  "nodes (snd (remove_file p fs)) = nodes fs \<or> (\<exists>x. nodes (snd (remove_file p fs)) = (nodes fs)(resolve fs p := x))"
  "nodes (snd (bind_socket p fs)) = nodes fs \<or> (\<exists>x. nodes (snd (bind_socket p fs)) = (nodes fs)(resolve fs p := x))"
  "nodes (snd (mkdir cs fs)) = nodes fs \<or> (\<exists>x. nodes (snd (mkdir cs fs)) = (nodes fs)(cs := x))"
  by (auto simp: create_truncate_def file_write_all_def set_permissions_def remove_file_def bind_socket_def
      mkdir_def split: option.split)

interpretation sparing: file_effects "left_alone may" may "\<lambda>_. True" for may
proof unfold_locales
  fix fs p bs
  assume "may (resolve fs p)"
  with nodes_then_write [OF refl refl, of p mode_600 fs bs]
  show "left_alone may fs (snd (then_do (io (create_new p mode_600 fs)) (\<lambda>_ fs. io (file_write_all p bs fs))))"
    by (auto simp: left_alone_def fs_op_cwd)
qed (simp_all add: left_alone_def [of _ x x for x],
     simp_all add: left_alone_change [OF _ op_changes(1)] left_alone_change [OF _ op_changes(2)]
      left_alone_change [OF _ op_changes(3)] left_alone_change [OF _ op_changes(4)]
      left_alone_change [OF _ op_changes(5)] left_alone_change [OF _ op_changes(6)] fs_op_cwd,
     auto simp: left_alone_def)

text \<open>The places of a client's own files with everything above them.\<close>

definition own_places :: "client_config \<Rightarrow> fsys \<Rightarrow> string list \<Rightarrow> bool" where
  "own_places cc fs q \<longleftrightarrow> prefix q (resolve fs (cc_known_hosts_path cc)) \<or> prefix q (resolve fs (cc_control_path cc))"

section \<open>Properties\<close>




section \<open>Witnesses\<close>

lemma demo_file_tree: "file_tree demo_fs"
  by (auto simp: file_tree_def dir_at_def demo_fs_def demo_dir_def)


text \<open>A run that is refused, installs its key and tries again, with a key and a pinned server.\<close>

definition demo_run :: "fsys \<Rightarrow> main_end" where
  "demo_run fs = fst (connect_main demo_client_lib (\<lambda>es. es) demo_encode demo_main_client
     (demo_main_world [AuthChallenge [], AuthResult Failure] []) demo_boot_world
     (demo_main_world demo_let_in demo_main_output) fs)"

lemma demo_run_places:
  "resolve fs demo_identity = [''home'', ''.config'', ''id'']"
  "cc_known_hosts_path demo_main_client = kh_path demo_known_hosts" "cc_control_path demo_main_client = Path True [''s'']"
  "resolve fs (kh_path demo_known_hosts) = [''home'', ''known_hosts'']" "resolve fs (Path True [''s'']) = [''s'']"
  by (simp_all add: resolve_def demo_identity_def demo_main_client_def demo_client_def demo_known_hosts_def)

lemma demo_main_key: "load_signing_key demo_identity demo_pinned_fs = Inr (replicate 32 1)"
  by (simp add: load_signing_key_def validate_private_key_permissions_def demo_pinned_fs_def read_def metadata_def)
    (simp add: demo_client_fs_def demo_fs_simps demo_known_hosts_def put_node_def)



end
