(* ===== verification/Migration.thy ===== *)
theory Migration
  imports Prelude
begin

text \<open>
  \<^verbatim>\<open>sqsh/src/migration.rs\<close>: the client's monitor of network interfaces, which moves the endpoint to the
  address of an interface that comes up. The watcher, the binding of a socket and quinn's \<^verbatim>\<open>rebind\<close> are
  events.
\<close>

unbundle bit_operations_syntax

datatype ip_addr = V4 "32 word" | V6 "128 word"

fun is_loopback :: "ip_addr \<Rightarrow> bool" where
  "is_loopback (V4 a) \<longleftrightarrow> drop_bit 24 a = 127"
| "is_loopback (V6 a) \<longleftrightarrow> a = 1"

fun is_ipv6 :: "ip_addr \<Rightarrow> bool" where
  "is_ipv6 (V4 a) = False"
| "is_ipv6 (V6 a) = True"

definition first_segment :: "128 word \<Rightarrow> u16" where
  "first_segment a = ucast (drop_bit 112 a)"

fun is_ipv6_link_local :: "ip_addr \<Rightarrow> bool" where
  "is_ipv6_link_local (V6 a) \<longleftrightarrow> first_segment a AND 0xFFC0 = 0xFE80"
| "is_ipv6_link_local (V4 a) = False"

definition should_skip :: "ip_addr \<Rightarrow> bool \<Rightarrow> bool" where
  "should_skip addr endpoint_is_ipv6 =
     (if is_loopback addr then True
      else if is_ipv6_link_local addr \<and> \<not> endpoint_is_ipv6 then True
      else False)"

text \<open>
  \<open>local\<close> is what the endpoint says its address is (\<open>None\<close>: it cannot tell). An interface that comes up
  carries whether a socket can be bound to its address and whether the endpoint takes it.
\<close>

datatype interface_event =
    InterfaceUp ip_addr bool bool
  | InterfaceDown ip_addr
  | WatchError

definition monitor_step :: "ip_addr option \<Rightarrow> interface_event \<Rightarrow> ip_addr option" where
  "monitor_step local e = (case e of
      InterfaceUp addr bound rebound \<Rightarrow>
        let endpoint_is_ipv6 = (case local of Some a \<Rightarrow> is_ipv6 a | None \<Rightarrow> False) in
        if should_skip addr endpoint_is_ipv6 then local
        else if bound then (if rebound then Some addr else local)
        else local
    | InterfaceDown addr \<Rightarrow> local
    | WatchError \<Rightarrow> local)"

section \<open>Properties\<close>

definition usable :: "ip_addr option \<Rightarrow> interface_event list \<Rightarrow> ip_addr option \<Rightarrow> bool" where
  "usable start es now \<longleftrightarrow> now = start
     \<or> (\<exists>a. now = Some a \<and> InterfaceUp a True True \<in> set es \<and> \<not> is_loopback a)"

lemma monitor_usable: "usable start es now \<Longrightarrow> usable start (es @ [e]) (monitor_step now e)"
  by (auto simp: usable_def monitor_step_def should_skip_def Let_def split: interface_event.split)

text \<open>
  The endpoint is where it started or on an address that came up, could be bound and is not a
  loopback address; and as long as no global IPv6 address comes up, one that started on IPv4 stays there.
\<close>

lemma monitor_addresses:
  "usable start es (foldl monitor_step start es)"
proof (induction es rule: rev_induct)
  case (snoc e es)
  from monitor_usable [OF snoc] show ?case by simp
qed (simp add: usable_def)

lemma monitor_stays_ipv4:
  assumes "\<forall>a b c. InterfaceUp a b c \<in> set es \<longrightarrow> is_ipv6 a \<longrightarrow> is_ipv6_link_local a \<or> is_loopback a"
    and "start = Some (V4 x)"
  shows "\<exists>y. foldl monitor_step start es = Some (V4 y)"
  using assms
proof (induction es arbitrary: start x)
  case (Cons e es)
  have "\<exists>y. monitor_step start e = Some (V4 y)"
  proof (cases e)
    case (InterfaceUp a b c)
    with Cons.prems show ?thesis
      by (cases a) (auto simp: monitor_step_def should_skip_def)
  qed (use Cons.prems in \<open>simp_all add: monitor_step_def\<close>)
  with Cons show ?case by fastforce
qed simp

text \<open>
  A global IPv6 address that comes up takes an endpoint away from the IPv4 socket it reaches its
  server from: only link-local addresses are held back.
\<close>

lemma monitor_leaves_ipv4:
  assumes "\<not> is_loopback (V6 a)" "\<not> is_ipv6_link_local (V6 a)"
  shows "monitor_step (Some (V4 x)) (InterfaceUp (V6 a) True True) = Some (V6 a)"
  using assms by (simp add: monitor_step_def should_skip_def del: is_loopback.simps is_ipv6_link_local.simps)

lemma monitor_leaves_ipv4_instance:
  "monitor_step (Some (V4 0xC0A80102)) (InterfaceUp (V6 0x20010DB8000000000000000000000001) True True)
     = Some (V6 0x20010DB8000000000000000000000001)"
  by (rule monitor_leaves_ipv4) (simp_all add: first_segment_def)

end
