(* ===== verification/Tree_Copy.thy ===== *)
theory Tree_Copy
  imports File_Copy "HOL-Library.Multiset"
begin

text \<open>
  What a download makes of a tree that the server serves: every directory, every file with its contents,
  and nothing else; and that it ends.
\<close>

section \<open>Copies\<close>

text \<open>
  The reads of an opened file: chunks that are not empty, then the end, after which it can be closed.
  \<open>ok\<close> are states of the server, which it does not leave by serving: a file is served when it can be
  opened in any of them and its chunks are its contents.
\<close>

fun reads :: "'r sftp \<Rightarrow> ('r \<Rightarrow> bool) \<Rightarrow> nat \<Rightarrow> 'r \<Rightarrow> byte list list \<Rightarrow> bool" where
  "reads lib ok h r [] \<longleftrightarrow> (\<exists>x r1 r2. sf_read lib h COPY_CHUNK r = (Inr x, r1) \<and> x \<in> {None, Some []}
     \<and> sf_close lib h r1 = (Inr (), r2) \<and> ok r2)"
| "reads lib ok h r (d # ds) \<longleftrightarrow> d \<noteq> [] \<and> (\<exists>r1. sf_read lib h COPY_CHUNK r = (Inr (Some d), r1) \<and> reads lib ok h r1 ds)"

definition serves_file :: "nat \<Rightarrow> 'r sftp \<Rightarrow> ('r \<Rightarrow> bool) \<Rightarrow> string \<Rightarrow> byte list \<Rightarrow> bool" where
  "serves_file K lib ok p data \<longleftrightarrow> (\<forall>r. ok r \<longrightarrow> (\<exists>h r1 ds. sf_open lib p r = (Inr h, r1) \<and> reads lib ok h r1 ds
     \<and> concat ds = data \<and> length ds < K))"

definition works :: "fsys \<Rightarrow> bool" where
  "works fs \<longleftrightarrow> (\<forall>op cs. fault fs op cs = None) \<and> disk fs = None"

lemma put_node_twice: "put_node p m (put_node p n fs) = put_node p m fs"
  by (simp add: put_node_def resolve_def)

lemma copy_down_copies:
  assumes "reads lib ok h (tf_remote s) ds" "length ds < n" "disk (tf_local s) = None"
    and "nodes (tf_local s) (resolve (tf_local s) (path_of_string l)) = Some nd"
  shows "\<exists>t. copy_down n lib h l s = (Some (Inr ()), t) \<and> (\<exists>r. sf_close lib h (tf_remote t) = (Inr (), r) \<and> ok r)
    \<and> tf_local t = put_node (path_of_string l) (nd\<lparr>nd_data := nd_data nd @ concat ds\<rparr>) (tf_local s)"
  using assms
proof (induction ds arbitrary: n s nd)
  case Nil
  then obtain m where "n = Suc m" by (cases n) auto
  with Nil show ?case
    by (auto simp: copy_then_def on_remote_def copy_give_def put_node_def fun_upd_idem)
next
  case (Cons d ds)
  then obtain m where n: "n = Suc m" by (cases n) auto
  obtain b bs where d: "d = b # bs" using Cons.prems(1) by (cases d) auto
  obtain r1 where r1: "sf_read lib h COPY_CHUNK (tf_remote s) = (Inr (Some d), r1)" "reads lib ok h r1 ds"
    using Cons.prems(1) by auto
  let ?fs = "put_node (path_of_string l) (nd\<lparr>nd_data := nd_data nd @ d\<rparr>) (tf_local s)"
  let ?s = "s\<lparr>tf_remote := r1, tf_local := ?fs\<rparr>"
  have "copy_down n lib h l s = copy_down m lib h l ?s"
    using r1(1) Cons.prems(3,4)
    by (simp add: n d copy_then_def on_remote_def on_local_def file_write_all_def)
  moreover have "reads lib ok h (tf_remote ?s) ds" "length ds < m" "disk (tf_local ?s) = None"
      "nodes (tf_local ?s) (resolve (tf_local ?s) (path_of_string l)) = Some (nd\<lparr>nd_data := nd_data nd @ d\<rparr>)"
    using r1(2) Cons.prems n by simp_all
  ultimately show ?case
    using Cons.IH [of ?s m "nd\<lparr>nd_data := nd_data nd @ d\<rparr>"] by (simp add: put_node_twice)
qed

lemma download_file_copies:
  assumes "serves_file K lib ok p data" "ok (tf_remote s)" "K \<le> n" "works (tf_local s)"
    and "resolve (tf_local s) (path_of_string l) = cs" "cs \<noteq> []" "nodes (tf_local s) cs = None"
    and "nodes (tf_local s) (butlast cs) = Some up" "nd_kind up = Directory"
    and "\<not> empty_path (path_of_string l)"
  shows "\<exists>t nd. download_file n lib p l s = (Some (Inr ()), t) \<and> works (tf_local t) \<and> ok (tf_remote t)
    \<and> cwd (tf_local t) = cwd (tf_local s)
    \<and> nodes (tf_local t) = (nodes (tf_local s))(cs \<mapsto> nd) \<and> nd_kind nd = RegularFile \<and> nd_data nd = data"
proof -
  obtain h r1 ds where o: "sf_open lib p (tf_remote s) = (Inr h, r1)" "reads lib ok h r1 ds"
      "concat ds = data" "length ds < n"
    using assms(1-3) unfolding serves_file_def by (meson less_le_trans)
  let ?fs = "put_node (path_of_string l) (new_file 0x1B6 (tf_local s)) (tf_local s)"
  let ?s = "s\<lparr>tf_remote := r1, tf_local := ?fs\<rparr>"
  have c: "create_truncate (path_of_string l) 0x1B6 (tf_local s) = (Inr (), ?fs)"
    using assms(4-10) by (simp add: create_truncate_def fs_check_def works_def parent_is_dir_def)
  have "disk ?fs = None" "nodes ?fs (resolve ?fs (path_of_string l)) = Some (new_file 0x1B6 (tf_local s))"
    using assms(4) by (simp_all add: works_def)
  with copy_down_copies [of lib ok h ?s ds n l] o(2,4) obtain t r2 where
      t: "copy_down n lib h l ?s = (Some (Inr ()), t)" "sf_close lib h (tf_remote t) = (Inr (), r2)" "ok r2"
        "tf_local t = put_node (path_of_string l) ((new_file 0x1B6 (tf_local s))\<lparr>nd_data := concat ds\<rparr>) ?fs"
    by auto
  have "download_file n lib p l s = (Some (Inr ()),
      t\<lparr>tf_remote := r2, tf_printed := tf_printed t @ [''sqcp: '' @ p @ '' -> '' @ l]\<rparr>)"
    using o(1) c t(1,2)
    by (simp add: download_file_def copy_then_def on_remote_def on_local_def print_line_def)
  with t(3,4) o(3) assms(4,5) show ?thesis
    by (auto simp: works_def put_node_twice)
qed

lemma mkdirs_last:
  assumes "\<forall>ps c. prefix (ps @ [c]) cs \<longrightarrow> (\<exists>nd. nodes fs (pre @ ps @ [c]) = Some nd \<and> nd_kind nd = Directory)"
    and "nodes fs (pre @ cs @ [c]) = None"
  shows "mkdirs pre (cs @ [c]) fs = mkdir (pre @ cs @ [c]) fs"
  using assms
proof (induction cs arbitrary: pre)
  case Nil
  then show ?case by (auto simp: mkdir_def split: option.split)
next
  case (Cons x cs)
  have "\<exists>nd. nodes fs (pre @ [x]) = Some nd \<and> nd_kind nd = Directory"
    using Cons.prems(1) [rule_format, of "[]" x] by simp
  moreover have "\<forall>ps c. prefix (ps @ [c]) cs \<longrightarrow>
      (\<exists>nd. nodes fs ((pre @ [x]) @ ps @ [c]) = Some nd \<and> nd_kind nd = Directory)"
  proof (intro allI impI)
    fix ps c assume "prefix (ps @ [c]) cs"
    with Cons.prems(1) [rule_format, of "x # ps" c] show
      "\<exists>nd. nodes fs ((pre @ [x]) @ ps @ [c]) = Some nd \<and> nd_kind nd = Directory" by simp
  qed
  ultimately show ?case using Cons.IH [of "pre @ [x]"] Cons.prems(2) by auto
qed

lemma create_dir_all_one:
  assumes "works fs" "resolve fs p = cs" "cs \<noteq> []" "nodes fs cs = None" "\<not> empty_path p"
    and "\<forall>ps. strict_prefix ps cs \<longrightarrow> (\<exists>nd. nodes fs ps = Some nd \<and> nd_kind nd = Directory)"
  shows "\<exists>fs1 nd. create_dir_all p fs = (Inr (), fs1) \<and> works fs1 \<and> cwd fs1 = cwd fs
    \<and> nodes fs1 = (nodes fs)(cs \<mapsto> nd) \<and> nd_kind nd = Directory"
proof -
  obtain ds c where cs: "cs = ds @ [c]" using assms(3) by (metis append_butlast_last_id)
  have "\<forall>ps d. prefix (ps @ [d]) ds \<longrightarrow> (\<exists>nd. nodes fs ([] @ ps @ [d]) = Some nd \<and> nd_kind nd = Directory)"
    using assms(6) unfolding cs by (auto simp: strict_prefix_def dest: prefix_length_le)
  with assms(4) have "mkdirs [] cs fs = mkdir cs fs"
    using mkdirs_last [of ds fs "[]" c] by (simp add: cs)
  moreover have "\<not> is_dir p fs"
    using assms(1,2,4) by (simp add: is_dir_def metadata_def fs_check_def works_def split: option.split)
  ultimately show ?thesis
    using assms(1,2,5) by (auto simp: create_dir_all_def mkdir_def works_def)
qed

section \<open>Trees\<close>

datatype remote_tree = RFile "byte list" | RDir "(string \<times> remote_tree) list"

fun is_rdir :: "remote_tree \<Rightarrow> bool" where
  "is_rdir (RFile d) = False"
| "is_rdir (RDir ts) = True"

fun tree_at :: "remote_tree \<Rightarrow> string list \<Rightarrow> remote_tree option" where
  "tree_at t [] = Some t"
| "tree_at (RFile d) (c # cs) = None"
| "tree_at (RDir ts) (c # cs) = (case map_of ts c of None \<Rightarrow> None | Some t \<Rightarrow> tree_at t cs)"

fun directories :: "remote_tree \<Rightarrow> nat" where
  "directories (RFile d) = 0"
| "directories (RDir ts) = Suc (sum_list (map (\<lambda>(n, t). directories t) ts))"

text \<open>
  Names a server's file system can have, and a server that serves a tree at a path and keeps it as it is. It may
  list a directory in any order.
\<close>

definition good_name :: "string \<Rightarrow> bool" where
  "good_name n \<longleftrightarrow> n \<notin> {[], ''.'', ''..''} \<and> CHR ''/'' \<notin> set n"

definition well_named :: "remote_tree \<Rightarrow> bool" where
  "well_named t \<longleftrightarrow> (\<forall>cs ts. tree_at t cs = Some (RDir ts) \<longrightarrow>
     distinct (map fst ts) \<and> (\<forall>n \<in> set (map fst ts). good_name n))"

definition serves_dir :: "'r sftp \<Rightarrow> ('r \<Rightarrow> bool) \<Rightarrow> string \<Rightarrow> (string \<times> remote_tree) list \<Rightarrow> bool" where
  "serves_dir lib ok p ts \<longleftrightarrow> (\<forall>r. ok r \<longrightarrow> (\<exists>r1 es us. sf_open_dir lib p r = (Inr (map Inr es), r1) \<and> ok r1
     \<and> mset us = mset ts
     \<and> list_all2 (\<lambda>(n, d) (n', t). n = n' \<and> (d = Some True \<longleftrightarrow> is_rdir t))
         (filter (\<lambda>(n, d). n \<noteq> ''.'' \<and> n \<noteq> ''..'') es) us))"

definition serves_tree :: "nat \<Rightarrow> 'r sftp \<Rightarrow> ('r \<Rightarrow> bool) \<Rightarrow> string \<Rightarrow> remote_tree \<Rightarrow> bool" where
  "serves_tree K lib ok root t \<longleftrightarrow> (\<forall>cs t1. tree_at t cs = Some t1 \<longrightarrow>
     (case t1 of RFile d \<Rightarrow> serves_file K lib ok (foldl str_join root cs) d
      | RDir ts \<Rightarrow> serves_dir lib ok (foldl str_join root cs) ts))"

fun node_matches :: "remote_tree option \<Rightarrow> fnode option \<Rightarrow> bool" where
  "node_matches None x \<longleftrightarrow> x = None"
| "node_matches (Some (RFile d)) x \<longleftrightarrow> (\<exists>nd. x = Some nd \<and> nd_kind nd = RegularFile \<and> nd_data nd = d)"
| "node_matches (Some (RDir ts)) x \<longleftrightarrow> (\<exists>nd. x = Some nd \<and> nd_kind nd = Directory)"

lemma tree_at_append: "tree_at t (p @ q) = (case tree_at t p of None \<Rightarrow> None | Some u \<Rightarrow> tree_at u q)"
  by (induction t p rule: tree_at.induct) (auto split: option.split)

lemma tree_at_good:
  "well_named t \<Longrightarrow> tree_at t cs = Some u \<Longrightarrow> \<forall>c \<in> set cs. good_name c"
proof (induction cs arbitrary: u rule: rev_induct)
  case (snoc c cs)
  obtain v where v: "tree_at t cs = Some v" "tree_at v [c] = Some u"
    using snoc.prems(2) by (auto simp: tree_at_append split: option.splits)
  then obtain ts where ts: "v = RDir ts" "map_of ts c = Some u" by (cases v) (auto split: option.splits)
  then have "c \<in> set (map fst ts)" by (auto dest: map_of_SomeD intro: rev_image_eqI)
  with snoc.prems(1) v(1) ts(1) have "good_name c" unfolding well_named_def by blast
  with snoc.IH [OF snoc.prems(1) v(1)] show ?case by simp
qed simp

lemma resolve_foldl_join:
  "\<forall>c \<in> set cs. good_name c \<Longrightarrow>
     resolve fs (path_of_string (foldl str_join p cs)) = resolve fs (path_of_string p) @ cs"
  by (induction cs rule: rev_induct) (auto simp: resolve_str_join good_name_def name_comps_def)

lemma scan_listing:
  assumes "list_all2 (\<lambda>(n, d) (n', t). n = n' \<and> (d = Some True \<longleftrightarrow> is_rdir t))
      (filter (\<lambda>(n, d). n \<noteq> ''.'' \<and> n \<noteq> ''..'') es) ts"
  shows "scan_entries p l (map Inr es) (work, files)
    = Inr (rev (map (\<lambda>(n, t). (str_join p n, str_join l n)) (filter (\<lambda>(n, t). is_rdir t) ts)) @ work,
        files @ map (\<lambda>(n, t). (str_join p n, str_join l n)) (filter (\<lambda>(n, t). \<not> is_rdir t) ts))"
  using assms
proof (induction es arbitrary: ts work files)
  case (Cons e es)
  obtain n d where e: "e = (n, d)" by fastforce
  show ?case
  proof (cases "n = ''.'' \<or> n = ''..''")
    case True
    with Cons.prems e have "list_all2 (\<lambda>(n, d) (n', t). n = n' \<and> (d = Some True \<longleftrightarrow> is_rdir t))
        (filter (\<lambda>(n, d). n \<noteq> ''.'' \<and> n \<noteq> ''..'') es) ts" by auto
    from Cons.IH [OF this] True e show ?thesis by auto
  next
    case False
    with Cons.prems e obtain t us where ts: "ts = (n, t) # us" "d = Some True \<longleftrightarrow> is_rdir t"
        "list_all2 (\<lambda>(n, d) (n', t). n = n' \<and> (d = Some True \<longleftrightarrow> is_rdir t))
          (filter (\<lambda>(n, d). n \<noteq> ''.'' \<and> n \<noteq> ''..'') es) us"
      by (auto simp: list_all2_Cons1)
    from Cons.IH [OF ts(3)] False e ts(1,2) show ?thesis by (simp add: Let_def)
  qed
qed simp

text \<open>
  The state of a copy: \<open>todo\<close> are the places of the tree still to be made. Where the tree is done, the
  local files match it; at and below a place to be made there is nothing yet.
\<close>

definition apart :: "string list list \<Rightarrow> bool" where
  "apart todo \<longleftrightarrow> distinct todo \<and> (\<forall>u \<in> set todo. \<forall>v \<in> set todo. prefix u v \<longrightarrow> u = v)"

definition copied :: "remote_tree \<Rightarrow> string list \<Rightarrow> string list list \<Rightarrow> fsys \<Rightarrow> bool" where
  "copied t root todo fs \<longleftrightarrow> (\<forall>cs. if \<exists>w \<in> set todo. prefix w cs then nodes fs (root @ cs) = None
     else node_matches (tree_at t cs) (nodes fs (root @ cs)))"

definition copy_inv :: "remote_tree \<Rightarrow> string list \<Rightarrow> string \<Rightarrow> string list list \<Rightarrow> fsys \<Rightarrow> bool" where
  "copy_inv t root lroot todo fs \<longleftrightarrow> works fs \<and> apart todo \<and> copied t root todo fs
     \<and> (\<forall>w \<in> set todo. tree_at t w \<noteq> None) \<and> resolve fs (path_of_string lroot) = root
     \<and> (\<forall>ps. strict_prefix ps root \<longrightarrow> (\<exists>nd. nodes fs ps = Some nd \<and> nd_kind nd = Directory))"

lemma empty_path_resolve: "empty_path p \<Longrightarrow> resolve fs p = cwd fs"
  by (simp add: empty_path_def resolve_def)

lemma copy_parents:
  assumes "copy_inv t root lroot (w # todo) fs" "strict_prefix ps (root @ w)"
  shows "\<exists>nd. nodes fs ps = Some nd \<and> nd_kind nd = Directory"
proof (cases "strict_prefix ps root")
  case True
  with assms(1) show ?thesis by (simp add: copy_inv_def)
next
  case False
  with assms(2) obtain u where u: "ps = root @ u" "strict_prefix u w"
    by (metis prefix_order.dual_order.strict_implies_order prefix_same_cases prefix_def
        prefix_order.dual_order.not_eq_order_implies_strict same_append_eq append_Nil2
        strict_prefix_def same_prefix_prefix)
  obtain c v where w: "w = u @ c # v" using u(2) by (elim strict_prefixE')
  obtain x where "tree_at t w = Some x" using assms(1) by (auto simp: copy_inv_def)
  then obtain ts where d: "tree_at t u = Some (RDir ts)"
    unfolding w tree_at_append by (auto split: option.splits elim: tree_at.elims)
  have "\<not> (\<exists>x \<in> set (w # todo). prefix x u)"
  proof
    assume "\<exists>x \<in> set (w # todo). prefix x u"
    then obtain x where x: "x \<in> set (w # todo)" "prefix x u" by blast
    then have "prefix x w" using u(2) by (auto simp: strict_prefix_def)
    with x(1) assms(1) have "x = w" by (auto simp: copy_inv_def apart_def)
    with x(2) u(2) show False by (auto simp: strict_prefix_def)
  qed
  with assms(1) d have "node_matches (Some (RDir ts)) (nodes fs (root @ u))"
    unfolding copy_inv_def copied_def by (metis (no_types, lifting))
  with u(1) show ?thesis by simp
qed

lemma copy_file_step:
  assumes "copy_inv t root lroot (f # todo) fs" "tree_at t f = Some (RFile d)"
    and "nodes fs1 = (nodes fs)(root @ f \<mapsto> nd)" "nd_kind nd = RegularFile" "nd_data nd = d"
    and "works fs1" "cwd fs1 = cwd fs"
  shows "copy_inv t root lroot todo fs1"
proof -
  have f: "\<not> prefix w f" if "w \<in> set todo" for w
    using assms(1) that by (auto simp: copy_inv_def apart_def)
  have "if \<exists>w \<in> set todo. prefix w cs then nodes fs1 (root @ cs) = None
      else node_matches (tree_at t cs) (nodes fs1 (root @ cs))" for cs
  proof (cases "cs = f")
    case True
    then show ?thesis using f assms(2-5) by auto
  next
    case False
    have n: "nodes fs1 (root @ cs) = nodes fs (root @ cs)" using False assms(3) by simp
    have c: "if \<exists>w \<in> set (f # todo). prefix w cs then nodes fs (root @ cs) = None
        else node_matches (tree_at t cs) (nodes fs (root @ cs))"
      using assms(1) unfolding copy_inv_def copied_def by blast
    show ?thesis
    proof (cases "prefix f cs")
      case True
      then obtain x y where "cs = f @ x # y" using False by (metis strict_prefixE' strict_prefix_def)
      then have "tree_at t cs = None" using assms(2) by (simp add: tree_at_append)
      with c True n show ?thesis by simp
    next
      case False
      with c n show ?thesis by simp
    qed
  qed
  moreover have "resolve fs1 (path_of_string lroot) = resolve fs (path_of_string lroot)"
    using assms(7) by (rule resolve_cong)
  moreover have "nodes fs1 ps = nodes fs ps" if "strict_prefix ps root" for ps
    using assms(3) that by (auto simp: strict_prefix_def dest: prefix_length_le)
  ultimately show ?thesis
    using assms(1,6) by (auto simp: copy_inv_def copied_def apart_def)
qed

lemma copy_dir_step:
  assumes "copy_inv t root lroot (w # todo) fs" "tree_at t w = Some (RDir ts)" "well_named t"
    and "nodes fs1 = (nodes fs)(root @ w \<mapsto> nd)" "nd_kind nd = Directory" "works fs1" "cwd fs1 = cwd fs"
    and "set todo1 = (\<lambda>n. w @ [n]) ` set (map fst ts) \<union> set todo" "distinct todo1"
  shows "copy_inv t root lroot todo1 fs1"
proof -
  have w: "\<not> prefix v w \<and> \<not> prefix w v" if "v \<in> set todo" for v
    using assms(1) that by (auto simp: copy_inv_def apart_def)
  have "if \<exists>v \<in> set todo1. prefix v cs then nodes fs1 (root @ cs) = None
      else node_matches (tree_at t cs) (nodes fs1 (root @ cs))" for cs
  proof (cases "cs = w")
    case True
    have "\<not> (\<exists>v \<in> set todo1. prefix v w)"
      using w by (auto simp: assms(8) dest: prefix_length_le)
    with True assms(2,4,5) show ?thesis by auto
  next
    case False
    have n: "nodes fs1 (root @ cs) = nodes fs (root @ cs)" using False assms(4) by simp
    have c: "if \<exists>v \<in> set (w # todo). prefix v cs then nodes fs (root @ cs) = None
        else node_matches (tree_at t cs) (nodes fs (root @ cs))"
      using assms(1) unfolding copy_inv_def copied_def by blast
    show ?thesis
    proof (cases "prefix w cs")
      case True
      then obtain x y where x: "cs = w @ x # y" using False by (metis strict_prefixE' strict_prefix_def)
      have "tree_at t cs = None" if "\<not> (\<exists>v \<in> set todo1. prefix v cs)"
      proof -
        have "prefix (w @ [x]) cs" by (simp add: x)
        with that have "x \<notin> set (map fst ts)" by (auto simp: assms(8) simp del: set_map)
        then have "map_of ts x = None" by (simp add: map_of_eq_None_iff)
        then show ?thesis using assms(2) by (simp add: x tree_at_append)
      qed
      with c True n show ?thesis by auto
    next
      case False
      then have "(\<exists>v \<in> set todo1. prefix v cs) \<longleftrightarrow> (\<exists>v \<in> set (w # todo). prefix v cs)"
        by (auto simp: assms(8) dest: append_prefixD)
      with c n show ?thesis by simp
    qed
  qed
  then have "copied t root todo1 fs1" by (simp add: copied_def)
  moreover have "apart todo1"
  proof -
    have "u = v" if uv: "u \<in> set todo1" "v \<in> set todo1" "prefix u v" for u v
    proof -
      consider a b where "u = w @ [a]" "v = w @ [b]" | a where "u = w @ [a]" "v \<in> set todo"
        | b where "u \<in> set todo" "v = w @ [b]" | "u \<in> set todo" "v \<in> set todo"
        using uv(1,2) by (auto simp: assms(8))
      then show ?thesis
      proof cases
        case 2
        then have "prefix w v" using uv(3) by (auto dest: append_prefixD)
        with w 2 show ?thesis by blast
      next
        case 3
        then have "prefix u w \<or> u = v" using uv(3) by (auto simp: prefix_snoc)
        with w 3 show ?thesis by blast
      next
        case 4
        with uv(3) assms(1) show ?thesis by (auto simp: copy_inv_def apart_def)
      qed (use uv(3) in auto)
    qed
    with assms(9) show ?thesis by (simp add: apart_def)
  qed
  moreover have "tree_at t v \<noteq> None" if "v \<in> set todo1" for v
    using that assms(1,2)
    by (auto simp: assms(8) copy_inv_def tree_at_append map_of_eq_None_iff image_iff split: option.split)
      force
  moreover have "resolve fs1 (path_of_string lroot) = resolve fs (path_of_string lroot)"
    using assms(7) by (rule resolve_cong)
  moreover have "nodes fs1 ps = nodes fs ps" if "strict_prefix ps root" for ps
    using assms(4) that by (auto simp: strict_prefix_def dest: prefix_length_le)
  ultimately show ?thesis
    using assms(1,6) by (auto simp: copy_inv_def)
qed

text \<open>Where an entry of the tree is, at the server and locally.\<close>

abbreviation place :: "string \<Rightarrow> string \<Rightarrow> string list \<Rightarrow> string \<times> string" where
  "place rroot lroot w \<equiv> (foldl str_join rroot w, foldl str_join lroot w)"

lemma copy_inv_rotate:
  "copy_inv t root lroot todo fs \<Longrightarrow> set todo1 = set todo \<Longrightarrow> distinct todo1 \<Longrightarrow> copy_inv t root lroot todo1 fs"
  by (auto simp: copy_inv_def apart_def copied_def)

lemma copy_inv_next:
  assumes "copy_inv t root lroot (w # todo) fs" "well_named t" "root @ w \<noteq> []"
    and "\<not> empty_path (path_of_string lroot)"
  shows "works fs" "nodes fs (root @ w) = None"
    "resolve fs (path_of_string (foldl str_join lroot w)) = root @ w"
    "\<not> empty_path (path_of_string (foldl str_join lroot w))"
proof -
  obtain u where "tree_at t w = Some u" using assms(1) by (auto simp: copy_inv_def)
  then have good: "\<forall>c \<in> set w. good_name c" by (rule tree_at_good [OF assms(2)])
  have root: "resolve fs (path_of_string lroot) = root" using assms(1) by (simp add: copy_inv_def)
  show r: "resolve fs (path_of_string (foldl str_join lroot w)) = root @ w"
    using resolve_foldl_join [OF good, of fs lroot] root by simp
  show "works fs" using assms(1) by (simp add: copy_inv_def)
  show "nodes fs (root @ w) = None"
    using assms(1) unfolding copy_inv_def copied_def by (metis list.set_intros(1) prefix_order.refl)
  have all: "resolve gs (path_of_string (foldl str_join lroot w)) = resolve gs (path_of_string lroot) @ w" for gs
    by (rule resolve_foldl_join [OF good])
  show "\<not> empty_path (path_of_string (foldl str_join lroot w))"
  proof
    assume e: "empty_path (path_of_string (foldl str_join lroot w))"
    let ?gs = "fs\<lparr>cwd := []\<rparr>"
    have "resolve ?gs (path_of_string lroot) @ w = []"
      using empty_path_resolve [OF e, of ?gs] all [of ?gs] by simp
    then have "w = []" by simp
    with e assms(4) show False by simp
  qed
qed

lemma download_files_copies:
  assumes "copy_inv t root lroot (fs @ todo) (tf_local s)" "well_named t" "serves_tree K lib ok rroot t"
    and "\<forall>f \<in> set fs. \<exists>d. tree_at t f = Some (RFile d)" "K \<le> n" "root \<noteq> []"
    and "\<not> empty_path (path_of_string lroot)" "ok (tf_remote s)"
  shows "\<exists>s1. download_files n lib (map (place rroot lroot) fs) s = (Some (Inr ()), s1)
    \<and> copy_inv t root lroot todo (tf_local s1) \<and> ok (tf_remote s1)"
  using assms
proof (induction fs arbitrary: s)
  case Nil
  then show ?case by (simp add: copy_give_def)
next
  case (Cons f fs)
  let ?l = "tf_local s"
  obtain d where d: "tree_at t f = Some (RFile d)" using Cons.prems(4) by auto
  have i: "copy_inv t root lroot (f # fs @ todo) ?l" using Cons.prems(1) by simp
  have ne: "root @ f \<noteq> []" using Cons.prems(6) by simp
  note nx = copy_inv_next [OF i Cons.prems(2) ne Cons.prems(7)]
  have "strict_prefix (butlast (root @ f)) (root @ f)"
    using ne by (metis append_butlast_last_id strict_prefixI')
  from copy_parents [OF i this] obtain up where up: "nodes ?l (butlast (root @ f)) = Some up" "nd_kind up = Directory"
    by blast
  have "serves_file K lib ok (foldl str_join rroot f) d"
    using Cons.prems(3) d by (auto simp: serves_tree_def dest!: spec [of _ f])
  from download_file_copies [OF this Cons.prems(8,5) nx(1,3) ne nx(2) up nx(4)]
  obtain s1 nd where s1: "download_file n lib (foldl str_join rroot f) (foldl str_join lroot f) s
        = (Some (Inr ()), s1)" "works (tf_local s1)" "ok (tf_remote s1)" "cwd (tf_local s1) = cwd ?l"
      "nodes (tf_local s1) = (nodes ?l)(root @ f \<mapsto> nd)" "nd_kind nd = RegularFile" "nd_data nd = d"
    by blast
  have "copy_inv t root lroot (fs @ todo) (tf_local s1)"
    by (rule copy_file_step [OF i d s1(5,6,7,2,4)])
  from Cons.IH [OF this Cons.prems(2,3) _ Cons.prems(5-7) s1(3)] Cons.prems(4) s1(1)
  show ?case by (auto simp: copy_then_def)
qed

lemma directories_filter:
  "sum_list (map (\<lambda>(n, u). directories u) (filter (\<lambda>(n, u). is_rdir u) ts))
     = sum_list (map (\<lambda>(n, u). directories u) ts)"
proof (induction ts)
  case (Cons x ts)
  then show ?case by (cases x; cases "snd x") auto
qed simp

lemma tree_at_child:
  "tree_at t w = Some (RDir ts) \<Longrightarrow> well_named t \<Longrightarrow> (n, u) \<in> set ts \<Longrightarrow> tree_at t (w @ [n]) = Some u"
  by (auto simp: tree_at_append well_named_def map_of_is_SomeI split: option.split)

lemma tree_down_copies:
  assumes "well_named t" "serves_tree K lib ok rroot t" "root \<noteq> []" "\<not> empty_path (path_of_string lroot)"
  shows "copy_inv t root lroot W (tf_local s) \<Longrightarrow> \<forall>w \<in> set W. \<exists>ts. tree_at t w = Some (RDir ts) \<Longrightarrow>
    K + sum_list (map (\<lambda>w. directories (the (tree_at t w))) W) < N \<Longrightarrow> ok (tf_remote s) \<Longrightarrow>
    \<exists>s1. tree_down N lib (map (place rroot lroot) W) s = (Some (Inr ()), s1)
      \<and> copy_inv t root lroot [] (tf_local s1) \<and> ok (tf_remote s1)"
proof (induction N arbitrary: W s)
  case (Suc n)
  show ?case
  proof (cases W)
    case Nil
    with Suc.prems show ?thesis by (simp add: copy_give_def)
  next
    case (Cons w rest)
    let ?l = "tf_local s"
    obtain ts where ts: "tree_at t w = Some (RDir ts)" using Suc.prems(2) Cons by auto
    have i: "copy_inv t root lroot (w # rest) ?l" using Suc.prems(1) Cons by simp
    have ne: "root @ w \<noteq> []" using assms(3) by simp
    note nx = copy_inv_next [OF i assms(1) ne assms(4)]
    have "\<forall>ps. strict_prefix ps (root @ w) \<longrightarrow> (\<exists>nd. nodes ?l ps = Some nd \<and> nd_kind nd = Directory)"
      using copy_parents [OF i] by blast
    from create_dir_all_one [OF nx(1,3) ne nx(2,4) this] obtain fs1 nd where
        fs1: "create_dir_all (path_of_string (foldl str_join lroot w)) ?l = (Inr (), fs1)" "works fs1"
          "cwd fs1 = cwd ?l" "nodes fs1 = (nodes ?l)(root @ w \<mapsto> nd)" "nd_kind nd = Directory"
      by blast
    have "serves_dir lib ok (foldl str_join rroot w) ts"
      using assms(2) ts by (auto simp: serves_tree_def dest!: spec [of _ w])
    then obtain r1 es us where r1: "sf_open_dir lib (foldl str_join rroot w) (tf_remote s) = (Inr (map Inr es), r1)" "ok r1"
        and us: "mset us = mset ts" and es: "list_all2 (\<lambda>(n, d) (n', t). n = n' \<and> (d = Some True \<longleftrightarrow> is_rdir t))
          (filter (\<lambda>(n, d). n \<noteq> ''.'' \<and> n \<noteq> ''..'') es) us"
      using Suc.prems(4) unfolding serves_dir_def by blast
    let ?dirs = "map (\<lambda>(n, u). w @ [n]) (filter (\<lambda>(n, u). is_rdir u) us)"
    let ?files = "map (\<lambda>(n, u). w @ [n]) (filter (\<lambda>(n, u). \<not> is_rdir u) us)"
    let ?work = "rev ?dirs @ rest"
    have scan: "scan_entries (foldl str_join rroot w) (foldl str_join lroot w) (map Inr es)
        (map (place rroot lroot) rest, []) = Inr (map (place rroot lroot) ?work, map (place rroot lroot) ?files)"
      by (simp add: scan_listing [OF es] rev_map comp_def case_prod_unfold)
    have "distinct (map fst ts)" using assms(1) ts by (auto simp: well_named_def)
    then have dist: "distinct (map fst us)" using us by (metis mset_eq_imp_distinct_iff mset_map)
    have set_us: "set us = set ts" using us by (rule mset_eq_setD)
    have w: "w @ [x] \<notin> set rest" for x
      using i by (auto simp: copy_inv_def apart_def)
    have "copy_inv t root lroot (?files @ ?work) fs1"
    proof (rule copy_dir_step [OF i ts assms(1) fs1(4,5,2,3)])
      show "set (?files @ ?work) = (\<lambda>n. w @ [n]) ` set (map fst ts) \<union> set rest"
        by (auto simp: image_iff set_us) (metis fst_conv)+
      have "distinct (map (\<lambda>(n, u). w @ [n]) (filter P us))" for P
        using dist by (induction us) (auto simp: image_iff)
      moreover have "set ?files \<inter> set ?dirs = {}"
        using dist by (auto simp: distinct_map inj_on_def) fastforce+
      moreover have "distinct rest" using i by (simp add: copy_inv_def apart_def)
      ultimately show "distinct (?files @ ?work)" using w by (auto simp: case_prod_unfold)
    qed
    then have start: "copy_inv t root lroot (?files @ ?work) (tf_local (s\<lparr>tf_local := fs1, tf_remote := r1\<rparr>))"
      by simp
    have child: "(m, u) \<in> set us \<Longrightarrow> tree_at t (w @ [m]) = Some u" for m u
      using tree_at_child [OF ts assms(1)] set_us by blast
    have files: "\<forall>f \<in> set ?files. \<exists>d. tree_at t f = Some (RFile d)"
    proof
      fix f assume "f \<in> set ?files"
      then obtain m u where "(m, u) \<in> set us" "\<not> is_rdir u" "f = w @ [m]" by auto
      with child show "\<exists>d. tree_at t f = Some (RFile d)" by (cases u) auto
    qed
    have sums: "sum_list (map (\<lambda>w. directories (the (tree_at t w))) ?dirs) = sum_list (map (\<lambda>(n, u). directories u) ts)"
    proof -
      have "map (\<lambda>w. directories (the (tree_at t w))) ?dirs
          = map (\<lambda>(n, u). directories u) (filter (\<lambda>(n, u). is_rdir u) us)"
        using child by auto
      moreover have "sum_list (map f us) = sum_list (map f ts)" for f :: "string \<times> remote_tree \<Rightarrow> nat"
        by (metis mset_map sum_mset_sum_list us)
      ultimately show ?thesis by (simp only: directories_filter)
    qed
    have K: "K \<le> n" "K + sum_list (map (\<lambda>w. directories (the (tree_at t w))) ?work) < n"
      using Suc.prems(3) Cons ts sums by (simp_all add: sum_list_rev flip: rev_map)
    obtain s1 where s1: "download_files n lib (map (place rroot lroot) ?files) (s\<lparr>tf_local := fs1, tf_remote := r1\<rparr>)
        = (Some (Inr ()), s1)" "copy_inv t root lroot ?work (tf_local s1)" "ok (tf_remote s1)"
      using download_files_copies [OF start assms(1,2) files K(1) assms(3,4)] r1(2) by auto
    have "\<forall>v \<in> set ?work. \<exists>ts. tree_at t v = Some (RDir ts)"
    proof
      fix v assume "v \<in> set ?work"
      then consider "v \<in> set rest" | m u where "(m, u) \<in> set us" "is_rdir u" "v = w @ [m]" by auto
      then show "\<exists>ts. tree_at t v = Some (RDir ts)"
      proof cases
        case 1
        with Suc.prems(2) Cons show ?thesis by simp
      next
        case 2
        with child show ?thesis by (cases u) auto
      qed
    qed
    from Suc.IH [OF s1(2) this K(2) s1(3)] obtain s2 where
      "tree_down n lib (map (place rroot lroot) ?work) s1 = (Some (Inr ()), s2)"
      "copy_inv t root lroot [] (tf_local s2)" "ok (tf_remote s2)" by blast
    moreover have "tree_down (Suc n) lib (map (place rroot lroot) W) s
        = tree_down n lib (map (place rroot lroot) ?work) s1"
      using fs1(1) r1(1) scan s1(1)
      by (simp add: Cons copy_then_def on_local_def on_remote_def del: map_append)
    ultimately show ?thesis by auto
  qed
qed simp

lemma download_inner_copies:
  assumes "serves_tree K lib ok rpath t" "well_named t" "is_rdir t" "K + directories t < N"
    and "ok (tf_remote s)" "\<forall>r. ok r \<longrightarrow> (\<exists>r1. sf_metadata lib rpath r = (Inr (Some True), r1) \<and> ok r1)"
    and "works (tf_local s)" "\<not> empty_path (path_of_string dst)"
    and "resolve (tf_local s) (path_of_string dst) = root" "root \<noteq> []"
    and "\<forall>cs. nodes (tf_local s) (root @ cs) = None"
    and "\<forall>ps. strict_prefix ps root \<longrightarrow>
      (\<exists>nd. nodes (tf_local s) ps = Some nd \<and> nd_kind nd = Directory)"
  shows "\<exists>s1. download_inner N lib True rpath dst s = (Some (Inr ()), s1)
    \<and> (\<forall>cs. node_matches (tree_at t cs) (nodes (tf_local s1) (root @ cs))) \<and> ok (tf_remote s1)"
proof -
  obtain r1 where r1: "sf_metadata lib rpath (tf_remote s) = (Inr (Some True), r1)" "ok r1"
    using assms(5,6) by blast
  let ?s = "s\<lparr>tf_remote := r1\<rparr>"
  obtain ts where t: "t = RDir ts" using assms(3) by (cases t) auto
  have "copy_inv t root dst [[]] (tf_local ?s)"
    using assms(7,9,11,12) by (simp add: copy_inv_def copied_def apart_def)
  moreover have "\<forall>w \<in> set [[]]. \<exists>ts. tree_at t w = Some (RDir ts)" by (simp add: t)
  moreover have "K + sum_list (map (\<lambda>w. directories (the (tree_at t w))) [[]]) < N" using assms(4) by simp
  ultimately obtain s1 where s1: "tree_down N lib (map (place rpath dst) [[]]) ?s = (Some (Inr ()), s1)"
      "copy_inv t root dst [] (tf_local s1)" "ok (tf_remote s1)"
    using tree_down_copies [OF assms(2,1,10,8), of "[[]]" ?s N] r1(2) by auto
  have "\<not> is_dir (path_of_string dst) (tf_local s)"
    using assms(7,9) assms(11) [rule_format, of "[]"]
    by (simp add: is_dir_def metadata_def fs_check_def works_def split: option.split)
  then have "download_inner N lib True rpath dst s = (Some (Inr ()), s1)"
    using r1(1) s1(1)
    by (simp add: download_inner_def download_tree_def copy_then_def on_remote_def look_local_def
        on_local_def copy_give_def)
  moreover have "\<forall>cs. node_matches (tree_at t cs) (nodes (tf_local s1) (root @ cs))"
    using s1(2) by (simp add: copy_inv_def copied_def)
  ultimately show ?thesis using s1(3) by blast
qed

section \<open>Properties\<close>

text \<open>
  C26: a download copies the tree. When the server serves a tree, as long as it is in states that serving
  does not leave, and the destination is free, the download
  ends, with as much fuel as the tree has directories and its files have chunks, and what is then at the
  destination is the tree: every directory, every file with its contents, and nothing else.
\<close>

theorem download_copies_tree:
  assumes "serves_tree K lib ok rpath t" "well_named t" "is_rdir t" "K + directories t < N"
    and "ok (tf_remote s)" "\<forall>r. ok r \<longrightarrow> (\<exists>r1. sf_metadata lib rpath r = (Inr (Some True), r1) \<and> ok r1)"
    and "works (tf_local s)" "\<not> empty_path (path_of_string dst)"
    and "resolve (tf_local s) (path_of_string dst) = root" "root \<noteq> []"
    and "\<forall>cs. nodes (tf_local s) (root @ cs) = None"
    and "\<forall>ps. strict_prefix ps root \<longrightarrow>
      (\<exists>nd. nodes (tf_local s) ps = Some nd \<and> nd_kind nd = Directory)"
  shows "\<exists>s1. download_inner N lib True rpath dst s = (Some (Inr ()), s1)
    \<and> (\<forall>cs. node_matches (tree_at t cs) (nodes (tf_local s1) (root @ cs))) \<and> ok (tf_remote s1)"
  using assms by (rule download_inner_copies)

text \<open>
  A server whose listing has a name that is an absolute path: the file of that path is overwritten with
  what the server sends, wherever the user wanted the tree.
\<close>

lemma absolute_name_escapes:
  assumes "starts_with ''/'' name" "\<exists>r1. sf_open_dir lib rpath (tf_remote s) = (Inr [Inr (name, Some False)], r1) \<and> ok r1"
    and "serves_file K lib ok name data" "K \<le> n" "works (tf_local s)"
    and "create_dir_all (path_of_string local) (tf_local s) = (Inr (), tf_local s)"
    and "nodes (tf_local s) (resolve (tf_local s) (path_of_string name)) = Some nd" "nd_kind nd = RegularFile"
  shows "\<exists>s1. download_tree (Suc (Suc n)) lib rpath local s = (Some (Inr ()), s1)
    \<and> nodes (tf_local s1) (resolve (tf_local s) (path_of_string name)) = Some (nd\<lparr>nd_data := data\<rparr>)"
proof -
  let ?q = "resolve (tf_local s) (path_of_string name)"
  have dots: "name \<noteq> ''.'' \<and> name \<noteq> ''..''" using assms(1) by (auto simp: starts_with_iff)
  have j: "str_join p name = name" for p using assms(1) by (simp add: str_join_def)
  have ne: "\<not> empty_path (path_of_string name)"
    using assms(1) by (simp add: empty_path_def path_of_string_def Let_def)
  obtain r1 where r1: "sf_open_dir lib rpath (tf_remote s) = (Inr [Inr (name, Some False)], r1)" "ok r1"
    using assms(2) by blast
  obtain h r2 ds where o: "sf_open lib name r1 = (Inr h, r2)" "reads lib ok h r2 ds" "concat ds = data"
      "length ds < Suc n"
    using assms(3,4) r1(2) unfolding serves_file_def by (meson less_le_trans less_SucI)
  let ?fs = "put_node (path_of_string name) (nd\<lparr>nd_data := []\<rparr>) (tf_local s)"
  let ?s = "s\<lparr>tf_remote := r2, tf_local := ?fs\<rparr>"
  have c: "create_truncate (path_of_string name) 0x1B6 (tf_local s) = (Inr (), ?fs)"
    using assms(5,7,8) ne by (simp add: create_truncate_def fs_check_def works_def)
  have "disk (tf_local ?s) = None"
      "nodes (tf_local ?s) (resolve (tf_local ?s) (path_of_string name)) = Some (nd\<lparr>nd_data := []\<rparr>)"
    using assms(5) by (simp_all add: works_def)
  with copy_down_copies [of lib ok h ?s ds "Suc n" name] o(2,4) obtain t r3 where
      t: "copy_down (Suc n) lib h name ?s = (Some (Inr ()), t)" "sf_close lib h (tf_remote t) = (Inr (), r3)"
        "tf_local t = put_node (path_of_string name) (nd\<lparr>nd_data := data\<rparr>) ?fs"
    using o(3) by auto
  have "download_tree (Suc (Suc n)) lib rpath local s = (Some (Inr ()),
      t\<lparr>tf_remote := r3, tf_printed := tf_printed t @ [''sqcp: '' @ name @ '' -> '' @ name]\<rparr>)"
    using r1(1) assms(6) o(1) c t(1,2) dots
    by (simp add: download_tree_def copy_then_def on_local_def on_remote_def j download_file_def
        print_line_def copy_give_def del: copy_down.simps)
  with t(3) show ?thesis by simp
qed

section \<open>Witnesses\<close>

definition demo_tree :: remote_tree where
  "demo_tree = RDir [(''f'', RFile [1, 2, 3])]"

lemma demo_tree_at:
  "tree_at demo_tree cs = Some u \<Longrightarrow> (cs = [] \<and> u = demo_tree) \<or> (cs = [''f''] \<and> u = RFile [1, 2, 3])"
  by (cases "(demo_tree, cs)" rule: tree_at.cases; cases "tl cs")
    (auto simp: demo_tree_def split: option.splits if_splits)

lemma demo_serves: "serves_tree 4 demo_sftp (\<lambda>_. True) ''d'' demo_tree"
proof -
  have j: "str_join ''d'' ''f'' = ''d/f''" by (simp add: str_join_def starts_with_def ends_with_def strip_suffix_def)
  have f: "serves_file 4 demo_sftp (\<lambda>_. True) ''d/f'' [1, 2, 3]"
    unfolding serves_file_def
    by (intro allI impI exI [of _ 1] exI [of _ "[[1], [2, 3]]"]) (simp add: demo_sftp_def)
  have d: "serves_dir demo_sftp (\<lambda>_. True) ''d'' [(''f'', RFile [1, 2, 3])]"
    unfolding serves_dir_def
    by (intro allI impI exI [of _ "[(''.'', Some True), (''f'', Some False)]"] exI conjI)
      (auto simp: demo_sftp_def)
  show ?thesis
    unfolding serves_tree_def
  proof (intro allI impI)
    fix cs t1 assume "tree_at demo_tree cs = Some t1"
    with f d j demo_tree_at [of cs t1]
    show "case t1 of RFile d \<Rightarrow> serves_file 4 demo_sftp (\<lambda>_. True) (foldl str_join ''d'' cs) d
        | RDir ts \<Rightarrow> serves_dir demo_sftp (\<lambda>_. True) (foldl str_join ''d'' cs) ts"
      by (auto simp: demo_tree_def)
  qed
qed

theorem download_copies_tree_witness:
  "\<exists>s1 nd. download_inner 6 demo_sftp True ''d'' ''/t'' demo_transfer = (Some (Inr ()), s1)
     \<and> nodes (tf_local s1) [''t'', ''f''] = Some nd \<and> nd_data nd = [1, 2, 3]"
proof -
  have "well_named demo_tree"
    by (auto simp: well_named_def good_name_def demo_tree_def dest!: demo_tree_at [unfolded demo_tree_def])
  moreover have "is_rdir demo_tree" "4 + directories demo_tree < 6" by (simp_all add: demo_tree_def)
  moreover have "\<forall>r. True \<longrightarrow> (\<exists>r1. sf_metadata demo_sftp ''d'' r = (Inr (Some True), r1) \<and> True)"
    by (simp add: demo_sftp_def)
  moreover have "works (tf_local demo_transfer)"
    by (simp add: works_def demo_transfer_def demo_fs_def)
  moreover have "resolve (tf_local demo_transfer) (path_of_string ''/t'') = [''t'']"
    by (simp add: demo_transfer_def demo_dst)
  moreover have "\<forall>cs. nodes (tf_local demo_transfer) ([''t''] @ cs) = None"
    by (simp add: demo_transfer_def demo_fs_def)
  moreover have "\<forall>ps. strict_prefix ps [''t''] \<longrightarrow>
      (\<exists>nd. nodes (tf_local demo_transfer) ps = Some nd \<and> nd_kind nd = Directory)"
    by (auto simp: demo_transfer_def demo_fs_def demo_dir_def strict_prefix_def prefix_Cons)
  ultimately obtain s1 where "download_inner 6 demo_sftp True ''d'' ''/t'' demo_transfer = (Some (Inr ()), s1)"
      "\<forall>cs. node_matches (tree_at demo_tree cs) (nodes (tf_local s1) ([''t''] @ cs))"
    using download_copies_tree [OF demo_serves _ _ _ _ _ _ demo_dst(2), of 6 demo_transfer "[''t'']"] by blast
  then show ?thesis by (auto simp: demo_tree_def dest!: spec [of _ "[''f'']"])
qed

lemma absolute_name_escapes_instance:
  "\<exists>s1. download_tree (Suc (Suc 4)) (demo_sftp\<lparr>sf_open_dir := \<lambda>_ r. (Inr [Inr (''/home/x'', Some False)], r),
        sf_open := \<lambda>_ r. (Inr 1, [[6]])\<rparr>) ''d'' ''/home'' (demo_transfer\<lparr>tf_local := put_node
        (Path True [''home'', ''x'']) (new_file mode_600 demo_fs) demo_fs\<rparr>) = (Some (Inr ()), s1)
     \<and> (\<exists>nd. nodes (tf_local s1) [''home'', ''x''] = Some nd \<and> nd_data nd = [6])"
proof -
  let ?lib = "demo_sftp\<lparr>sf_open_dir := \<lambda>_ r. (Inr [Inr (''/home/x'', Some False)], r),
        sf_open := \<lambda>_ r. (Inr 1, [[6]])\<rparr>"
  let ?fs = "put_node (Path True [''home'', ''x'']) (new_file mode_600 demo_fs) demo_fs"
  let ?s = "demo_transfer\<lparr>tf_local := ?fs\<rparr>"
  have q: "path_of_string ''/home/x'' = Path True [''home'', ''x'']" "path_of_string ''/home'' = Path True [''home'']"
    by (simp_all add: path_of_string_def starts_with_def Let_def)
  have "starts_with ''/'' ''/home/x''" by (simp add: starts_with_def)
  moreover have "\<exists>r1. sf_open_dir ?lib ''d'' (tf_remote ?s) = (Inr [Inr (''/home/x'', Some False)], r1) \<and> True" by simp
  moreover have "serves_file 4 ?lib (\<lambda>_. True) ''/home/x'' [6]"
    unfolding serves_file_def
    by (intro allI impI exI [of _ 1] exI [of _ "[[6]]"]) (simp add: demo_sftp_def)
  moreover have "works (tf_local ?s)" by (simp add: works_def demo_fs_def)
  moreover have "create_dir_all (path_of_string ''/home'') (tf_local ?s) = (Inr (), tf_local ?s)"
    by (simp add: q fs_eval)
  moreover have "nodes (tf_local ?s) (resolve (tf_local ?s) (path_of_string ''/home/x''))
      = Some (new_file mode_600 demo_fs)"
    by (simp add: q resolve_def)
  ultimately show ?thesis
    using absolute_name_escapes [of "''/home/x''" ?lib "''d''" ?s "\<lambda>_. True" 4 "[6]" 4 "''/home''"]
    by (auto simp: q resolve_def)
qed

end
