(* ===== verification/Tree_Upload.thy ===== *)
theory Tree_Upload
  imports Tree_Copy "HOL-Library.Multiset"
begin

text \<open>
  What an upload makes of a local tree on a server that keeps files: the mirror image of \<^verbatim>\<open>Tree_Copy\<close>, with the
  same description of a copy that is under way, on the server's files instead of the local ones.
\<close>

section \<open>A server that keeps files\<close>

text \<open>
  The server has a file system of its own (\<open>files\<close>), and files that are open for writing (\<open>opened\<close>). Where the
  name is free and the directory above it there, a directory or a file can be made; what is written to an open
  file is added to it; what is not there has no metadata.
\<close>

definition free_name :: "string \<Rightarrow> fsys \<Rightarrow> bool" where
  "free_name p fs \<longleftrightarrow> (let q = path_of_string p in
     works fs \<and> \<not> empty_path q \<and> nodes fs (resolve fs q) = None \<and> parent_is_dir q fs)"

definition makes_dirs :: "'r sftp \<Rightarrow> ('r \<Rightarrow> fsys) \<Rightarrow> bool" where
  "makes_dirs lib files \<longleftrightarrow> (\<forall>p r. free_name p (files r) \<longrightarrow>
     (\<exists>r1 nd. sf_create_dir lib p r = (Inr (), r1) \<and> nd_kind nd = Directory
       \<and> files r1 = put_node (path_of_string p) nd (files r)))"

definition makes_files :: "'r sftp \<Rightarrow> ('r \<Rightarrow> fsys) \<Rightarrow> ('r \<Rightarrow> nat \<Rightarrow> string option) \<Rightarrow> bool" where
  "makes_files lib files opened \<longleftrightarrow> (\<forall>p r. free_name p (files r) \<longrightarrow>
     (\<exists>h r1 nd. sf_create lib p r = (Inr h, r1) \<and> nd_kind nd = RegularFile \<and> nd_data nd = []
       \<and> files r1 = put_node (path_of_string p) nd (files r) \<and> opened r1 h = Some p))"

definition writes_files :: "'r sftp \<Rightarrow> ('r \<Rightarrow> fsys) \<Rightarrow> ('r \<Rightarrow> nat \<Rightarrow> string option) \<Rightarrow> bool" where
  "writes_files lib files opened \<longleftrightarrow> (\<forall>p r h. opened r h = Some p \<longrightarrow>
     (\<forall>bs nd. nodes (files r) (resolve (files r) (path_of_string p)) = Some nd \<longrightarrow>
       (\<exists>r1. sf_write lib h bs r = (Inr (), r1) \<and> opened r1 h = Some p
         \<and> files r1 = put_node (path_of_string p) (nd\<lparr>nd_data := nd_data nd @ bs\<rparr>) (files r)))
     \<and> (\<exists>r1. sf_close lib h r = (Inr (), r1) \<and> files r1 = files r))"

definition looks_up :: "'r sftp \<Rightarrow> ('r \<Rightarrow> fsys) \<Rightarrow> bool" where
  "looks_up lib files \<longleftrightarrow> (\<forall>p r. nodes (files r) (resolve (files r) (path_of_string p)) = None \<longrightarrow>
     (\<exists>e r1. sf_metadata lib p r = (Inl e, r1) \<and> files r1 = files r))"

definition server_keeps :: "'r sftp \<Rightarrow> ('r \<Rightarrow> fsys) \<Rightarrow> ('r \<Rightarrow> nat \<Rightarrow> string option) \<Rightarrow> bool" where
  "server_keeps lib files opened \<longleftrightarrow>
     makes_dirs lib files \<and> makes_files lib files opened \<and> writes_files lib files opened \<and> looks_up lib files"

section \<open>The local tree\<close>

text \<open>The local files have the tree at the path, and a directory is listed with the names in it.\<close>

definition local_entry :: "local_listing \<Rightarrow> fsys \<Rightarrow> string \<Rightarrow> remote_tree \<Rightarrow> bool" where
  "local_entry ls fs p u \<longleftrightarrow> fs_check Stat (path_of_string p) fs = None \<and> fs_check ReadFile (path_of_string p) fs = None
     \<and> node_matches (Some u) (nodes fs (resolve fs (path_of_string p)))
     \<and> (case u of RFile d \<Rightarrow> True | RDir ts \<Rightarrow> ls p fs = Inr (map (\<lambda>(n, t). Inr n) ts))"

definition local_tree :: "local_listing \<Rightarrow> fsys \<Rightarrow> string \<Rightarrow> remote_tree \<Rightarrow> bool" where
  "local_tree ls fs root t \<longleftrightarrow> (\<forall>w u. tree_at t w = Some u \<longrightarrow> local_entry ls fs (foldl str_join root w) u)"

section \<open>One file, one directory\<close>

text \<open>The server's files outside the place of the copy stay.\<close>

definition same_outside :: "string list \<Rightarrow> fsys \<Rightarrow> fsys \<Rightarrow> bool" where
  "same_outside root fs fs' \<longleftrightarrow> (\<forall>cs. \<not> prefix root cs \<longrightarrow> nodes fs' cs = nodes fs cs)"

lemma same_outside_simps [simp]:
  "same_outside root fs fs" "nodes fs' = (nodes fs)(root @ w \<mapsto> nd) \<Longrightarrow> same_outside root fs fs'"
  by (auto simp: same_outside_def)

lemma same_outside_trans: "same_outside root x y \<Longrightarrow> same_outside root y z \<Longrightarrow> same_outside root x z"
  by (simp add: same_outside_def)

lemma works_put_node [simp]: "works (put_node p nd fs) = works fs"
  by (simp add: works_def)

lemma copy_up_stores:
  assumes "writes_files lib files opened"
  shows "opened (tf_remote s) h = Some p \<Longrightarrow>
     nodes (files (tf_remote s)) (resolve (files (tf_remote s)) (path_of_string p)) = Some nd \<Longrightarrow>
     \<exists>s1. copy_up lib h cs s = (Some (Inr ()), s1) \<and> tf_local s1 = tf_local s \<and> opened (tf_remote s1) h = Some p
       \<and> files (tf_remote s1) = put_node (path_of_string p) (nd\<lparr>nd_data := nd_data nd @ concat cs\<rparr>) (files (tf_remote s))"
proof (induction cs arbitrary: s nd)
  case Nil
  then show ?case by (simp add: copy_give_def put_node_def fun_upd_idem)
next
  case (Cons c cs)
  from assms Cons.prems obtain r1 where r1: "sf_write lib h c (tf_remote s) = (Inr (), r1)" "opened r1 h = Some p"
    "files r1 = put_node (path_of_string p) (nd\<lparr>nd_data := nd_data nd @ c\<rparr>) (files (tf_remote s))"
    unfolding writes_files_def by blast
  from Cons.IH [of "s\<lparr>tf_remote := r1\<rparr>" "nd\<lparr>nd_data := nd_data nd @ c\<rparr>"] r1
  show ?case by (auto simp: copy_then_def on_remote_def put_node_twice)
qed

lemma upload_file_stores:
  assumes "server_keeps lib files opened" "local_entry ls (tf_local s) l (RFile d)" "free_name p (files (tf_remote s))"
  shows "\<exists>s1 nd. upload_file lib l p s = (Some (Inr ()), s1) \<and> tf_local s1 = tf_local s
    \<and> files (tf_remote s1) = put_node (path_of_string p) nd (files (tf_remote s))
    \<and> nd_kind nd = RegularFile \<and> nd_data nd = d"
proof -
  have w: "writes_files lib files opened" using assms(1) by (simp add: server_keeps_def)
  have o: "open_local (path_of_string l) (tf_local s) = Inr (Inr d)"
    using assms(2) by (auto simp: local_entry_def open_local_def)
  obtain h r1 nd where c: "sf_create lib p (tf_remote s) = (Inr h, r1)" "nd_kind nd = RegularFile" "nd_data nd = []"
    "files r1 = put_node (path_of_string p) nd (files (tf_remote s))" "opened r1 h = Some p"
    using assms(1,3) unfolding server_keeps_def makes_files_def by blast
  obtain s1 where u: "copy_up lib h (chunks d) (s\<lparr>tf_remote := r1\<rparr>) = (Some (Inr ()), s1)" "tf_local s1 = tf_local s"
    "opened (tf_remote s1) h = Some p"
    "files (tf_remote s1) = put_node (path_of_string p) (nd\<lparr>nd_data := d\<rparr>) (files (tf_remote s))"
    using copy_up_stores [OF w, where s = "s\<lparr>tf_remote := r1\<rparr>" and nd = nd and cs = "chunks d" and p = p and h = h]
      c(3,4,5) by (auto simp: put_node_twice concat_chunks)
  obtain r2 where r2: "sf_close lib h (tf_remote s1) = (Inr (), r2)" "files r2 = files (tf_remote s1)"
    using w u(3) unfolding writes_files_def by blast
  have "upload_file lib l p s = (Some (Inr ()),
      s1\<lparr>tf_remote := r2, tf_printed := tf_printed s1 @ [''sqcp: '' @ l @ '' -> '' @ p]\<rparr>)"
    using o c(1) u(1) r2(1)
    by (simp add: upload_file_def copy_then_def look_local_def on_local_def on_remote_def print_line_def)
  with u(2,4) r2(2) c(2) show ?thesis by (auto intro!: exI [of _ "nd\<lparr>nd_data := d\<rparr>"])
qed

lemma ensure_remote_dir_makes:
  assumes "makes_dirs lib files" "free_name p (files (tf_remote s))"
  shows "\<exists>r1 nd. ensure_remote_dir lib p s = (Some (Inr ()), s\<lparr>tf_remote := r1\<rparr>)
    \<and> files r1 = put_node (path_of_string p) nd (files (tf_remote s)) \<and> nd_kind nd = Directory"
proof -
  obtain r1 nd where "sf_create_dir lib p (tf_remote s) = (Inr (), r1)" "nd_kind nd = Directory"
    "files r1 = put_node (path_of_string p) nd (files (tf_remote s))"
    using assms unfolding makes_dirs_def by blast
  then show ?thesis by (auto simp: ensure_remote_dir_def copy_then_def ask_remote_def copy_give_def)
qed

section \<open>The tree\<close>

text \<open>The places in a directory, and in all directories of the work.\<close>

definition kids :: "remote_tree \<Rightarrow> string list \<Rightarrow> string list list" where
  "kids t w = (case tree_at t w of Some (RDir ts) \<Rightarrow> map (\<lambda>(n, u). w @ [n]) ts | _ \<Rightarrow> [])"

definition pending :: "remote_tree \<Rightarrow> string list list \<Rightarrow> string list list" where
  "pending t W = concat (map (kids t) W)"

lemma pending_simps [simp]: "pending t [] = []" "pending t (w # W) = kids t w @ pending t W"
  by (simp_all add: pending_def)

lemma copy_inv_free_name:
  assumes "copy_inv t root rroot (w # todo) fs" "well_named t" "root \<noteq> []" "\<not> empty_path (path_of_string rroot)"
  shows "free_name (foldl str_join rroot w) fs" "resolve fs (path_of_string (foldl str_join rroot w)) = root @ w"
proof -
  have ne: "root @ w \<noteq> []" using assms(3) by simp
  note nx = copy_inv_next [OF assms(1,2) ne assms(4)]
  show "resolve fs (path_of_string (foldl str_join rroot w)) = root @ w" by (rule nx(3))
  have "strict_prefix (butlast (root @ w)) (root @ w)"
    using ne by (metis append_butlast_last_id strict_prefixI')
  from copy_parents [OF assms(1) this] have "parent_is_dir (path_of_string (foldl str_join rroot w)) fs"
    using nx(3) by (auto simp: parent_is_dir_def)
  with nx show "free_name (foldl str_join rroot w) fs" by (simp add: free_name_def)
qed

lemma upload_files_stores:
  assumes "server_keeps lib files opened" "well_named t" "root \<noteq> []" "\<not> empty_path (path_of_string rroot)"
  shows "copy_inv t root rroot (fs @ todo) (files (tf_remote s)) \<Longrightarrow> local_tree ls (tf_local s) lroot t \<Longrightarrow>
    \<forall>f \<in> set fs. \<exists>d. tree_at t f = Some (RFile d) \<Longrightarrow>
    \<exists>s1. upload_files lib (map (place lroot rroot) fs) s = (Some (Inr ()), s1) \<and> tf_local s1 = tf_local s
      \<and> copy_inv t root rroot todo (files (tf_remote s1))
      \<and> same_outside root (files (tf_remote s)) (files (tf_remote s1))"
proof (induction fs arbitrary: s)
  case Nil
  then show ?case by (simp add: copy_give_def)
next
  case (Cons f fs)
  obtain d where d: "tree_at t f = Some (RFile d)" using Cons.prems(3) by auto
  have i: "copy_inv t root rroot (f # fs @ todo) (files (tf_remote s))" using Cons.prems(1) by simp
  note free = copy_inv_free_name [OF i assms(2-4)]
  have "local_entry ls (tf_local s) (foldl str_join lroot f) (RFile d)"
    using Cons.prems(2) d by (auto simp: local_tree_def)
  from upload_file_stores [OF assms(1) this free(1)] obtain s1 nd where
    s1: "upload_file lib (foldl str_join lroot f) (foldl str_join rroot f) s = (Some (Inr ()), s1)"
      "tf_local s1 = tf_local s" "nd_kind nd = RegularFile" "nd_data nd = d"
      "files (tf_remote s1) = put_node (path_of_string (foldl str_join rroot f)) nd (files (tf_remote s))" by blast
  have n: "nodes (files (tf_remote s1)) = (nodes (files (tf_remote s)))(root @ f \<mapsto> nd)"
    by (simp add: s1(5) free(2))
  have "copy_inv t root rroot (fs @ todo) (files (tf_remote s1))"
    by (rule copy_file_step [OF i d n s1(3,4)]) (use i in \<open>simp_all add: s1(5) copy_inv_def\<close>)
  from Cons.IH [OF this] Cons.prems(2,3) s1(2) obtain s2 where
    "upload_files lib (map (place lroot rroot) fs) s1 = (Some (Inr ()), s2)" "tf_local s2 = tf_local s"
    "copy_inv t root rroot todo (files (tf_remote s2))" "same_outside root (files (tf_remote s1)) (files (tf_remote s2))"
    by auto
  with s1(1) same_outside_trans [OF same_outside_simps(2) [OF n]] show ?case by (auto simp: copy_then_def)
qed

text \<open>
  Listing a directory: its files are put aside, its directories made at the server and put on the stack. What
  is to be made is then what is below the directories of the stack, and the files.
\<close>

lemma kids_distinct: "well_named t \<Longrightarrow> distinct (kids t w)"
proof (cases "tree_at t w")
  case (Some u)
  assume wn: "well_named t"
  show ?thesis
  proof (cases u)
    case (RDir ts)
    with Some wn have "distinct (map fst ts)" by (auto simp: well_named_def)
    then have "distinct (map (\<lambda>(n, u). w @ [n]) ts)" by (induction ts) (auto simp: image_iff)
    with Some RDir show ?thesis by (simp add: kids_def)
  qed (simp add: kids_def Some)
qed (simp add: kids_def)

lemma set_kids: "tree_at t w = Some (RDir ts) \<Longrightarrow> set (kids t w) = (\<lambda>n. w @ [n]) ` set (map fst ts)"
  by (auto simp: kids_def image_iff) (metis fst_conv)+

lemma copy_inv_reorder:
  assumes "copy_inv t root rroot todo fs" "mset todo1 = mset todo" shows "copy_inv t root rroot todo1 fs"
proof (rule copy_inv_rotate [OF assms(1)])
  show "set todo1 = set todo" by (rule mset_eq_setD [OF assms(2)])
  have "distinct todo" using assms(1) by (simp add: copy_inv_def apart_def)
  then show "distinct todo1" using mset_eq_imp_distinct_iff [OF assms(2)] by simp
qed

text \<open>A directory made: its place gives way to those in it.\<close>

lemma dir_made:
  assumes "copy_inv t root rroot (w # todo) fs" "tree_at t w = Some (RDir ts)" "well_named t"
    and "nodes fs1 = (nodes fs)(root @ w \<mapsto> nd)" "nd_kind nd = Directory" "works fs1" "cwd fs1 = cwd fs"
  shows "copy_inv t root rroot (kids t w @ todo) fs1"
proof (rule copy_dir_step [OF assms(1,2,3,4,5,6,7)])
  show "set (kids t w @ todo) = (\<lambda>n. w @ [n]) ` set (map fst ts) \<union> set todo"
    by (simp add: set_kids [OF assms(2)])
  have "w @ [x] \<notin> set todo" for x
    using assms(1) by (auto simp: copy_inv_def apart_def)
  then have "set (kids t w) \<inter> set todo = {}" by (auto simp: set_kids [OF assms(2)])
  then show "distinct (kids t w @ todo)"
    using assms(1) kids_distinct [OF assms(3)] by (simp add: copy_inv_def apart_def)
qed

lemma scan_local_makes:
  assumes "server_keeps lib files opened" "well_named t" "root \<noteq> []" "\<not> empty_path (path_of_string rroot)"
  shows "copy_inv t root rroot (map (\<lambda>(n, u). w @ [n]) us @ fs @ pending t W) (files (tf_remote s)) \<Longrightarrow>
    local_tree ls (tf_local s) lroot t \<Longrightarrow> \<forall>(n, u) \<in> set us. tree_at t (w @ [n]) = Some u \<Longrightarrow>
    \<exists>s1. scan_local lib (foldl str_join lroot w) (foldl str_join rroot w) (map (\<lambda>(n, u). Inr n) us)
        (map (place lroot rroot) W, map (place lroot rroot) fs) s
      = (Some (Inr (map (place lroot rroot) (rev (map (\<lambda>(n, u). w @ [n]) (filter (\<lambda>(n, u). is_rdir u) us)) @ W),
          map (place lroot rroot) (fs @ map (\<lambda>(n, u). w @ [n]) (filter (\<lambda>(n, u). \<not> is_rdir u) us)))), s1)
      \<and> tf_local s1 = tf_local s \<and> same_outside root (files (tf_remote s)) (files (tf_remote s1))
      \<and> copy_inv t root rroot ((fs @ map (\<lambda>(n, u). w @ [n]) (filter (\<lambda>(n, u). \<not> is_rdir u) us))
          @ pending t (rev (map (\<lambda>(n, u). w @ [n]) (filter (\<lambda>(n, u). is_rdir u) us)) @ W)) (files (tf_remote s1))"
proof (induction us arbitrary: fs W s)
  case Nil
  then show ?case by (simp add: copy_give_def)
next
  case (Cons x us)
  obtain n u where x: "x = (n, u)" by fastforce
  have u: "tree_at t (w @ [n]) = Some u" using Cons.prems(3) x by simp
  have e: "local_entry ls (tf_local s) (str_join (foldl str_join lroot w) n) u"
    using Cons.prems(2) u by (auto simp: local_tree_def dest!: spec [of _ "w @ [n]"])
  have rest: "\<forall>(n, u) \<in> set us. tree_at t (w @ [n]) = Some u" using Cons.prems(3) by simp
  have i: "copy_inv t root rroot ((w @ [n]) # map (\<lambda>(n, u). w @ [n]) us @ fs @ pending t W) (files (tf_remote s))"
    using Cons.prems(1) x by simp
  show ?case
  proof (cases u)
    case (RFile d)
    obtain nd where nd: "metadata (path_of_string (str_join (foldl str_join lroot w) n)) (tf_local s) = Inr nd"
      "nd_kind nd = RegularFile"
      using e RFile by (auto simp: local_entry_def metadata_def)
    have "copy_inv t root rroot (map (\<lambda>(n, u). w @ [n]) us @ (fs @ [w @ [n]]) @ pending t W) (files (tf_remote s))"
      by (rule copy_inv_reorder [OF i]) simp
    from Cons.IH [OF this Cons.prems(2) rest] nd
    show ?thesis
      by (simp add: x RFile Let_def copy_then_def look_local_def on_local_def)
  next
    case (RDir ts)
    obtain nd where nd: "metadata (path_of_string (str_join (foldl str_join lroot w) n)) (tf_local s) = Inr nd"
      "nd_kind nd = Directory"
      using e RDir by (auto simp: local_entry_def metadata_def)
    note free = copy_inv_free_name [OF i assms(2-4)]
    obtain r1 dn where r1: "ensure_remote_dir lib (str_join (foldl str_join rroot w) n) s
        = (Some (Inr ()), s\<lparr>tf_remote := r1\<rparr>)" "nd_kind dn = Directory"
      "files r1 = put_node (path_of_string (str_join (foldl str_join rroot w) n)) dn (files (tf_remote s))"
      using ensure_remote_dir_makes [of lib files "foldl str_join rroot (w @ [n])" s] free(1) assms(1)
      by (auto simp: server_keeps_def)
    have m: "nodes (files r1) = (nodes (files (tf_remote s)))(root @ w @ [n] \<mapsto> dn)"
      using free(2) by (simp add: r1(3))
    have k: "copy_inv t root rroot (kids t (w @ [n]) @ map (\<lambda>(n, u). w @ [n]) us @ fs @ pending t W) (files r1)"
      by (rule dir_made [OF i _ assms(2) m r1(2)]) (use u RDir i in \<open>simp_all add: r1(3) copy_inv_def\<close>)
    have "copy_inv t root rroot (map (\<lambda>(n, u). w @ [n]) us @ fs @ pending t ((w @ [n]) # W)) (files r1)"
      by (rule copy_inv_reorder [OF k]) (simp add: ac_simps)
    then have "copy_inv t root rroot (map (\<lambda>(n, u). w @ [n]) us @ fs @ pending t ((w @ [n]) # W))
        (files (tf_remote (s\<lparr>tf_remote := r1\<rparr>)))" by simp
    from Cons.IH [OF this] Cons.prems(2) rest obtain s1 where
      s1: "scan_local lib (foldl str_join lroot w) (foldl str_join rroot w) (map (\<lambda>(n, u). Inr n) us)
          (map (place lroot rroot) ((w @ [n]) # W), map (place lroot rroot) fs) (s\<lparr>tf_remote := r1\<rparr>)
        = (Some (Inr (map (place lroot rroot) (rev (map (\<lambda>(n, u). w @ [n]) (filter (\<lambda>(n, u). is_rdir u) us)) @ (w @ [n]) # W),
          map (place lroot rroot) (fs @ map (\<lambda>(n, u). w @ [n]) (filter (\<lambda>(n, u). \<not> is_rdir u) us)))), s1)"
      "tf_local s1 = tf_local s" "same_outside root (files r1) (files (tf_remote s1))"
      "copy_inv t root rroot ((fs @ map (\<lambda>(n, u). w @ [n]) (filter (\<lambda>(n, u). \<not> is_rdir u) us))
          @ pending t (rev (map (\<lambda>(n, u). w @ [n]) (filter (\<lambda>(n, u). is_rdir u) us)) @ (w @ [n]) # W)) (files (tf_remote s1))"
      by auto
    have "same_outside root (files (tf_remote s)) (files (tf_remote s1))"
      using same_outside_trans [OF same_outside_simps(2) [OF m] s1(3)] .
    with s1 nd r1(1) show ?thesis
      by (simp add: x RDir Let_def copy_then_def look_local_def on_local_def)
  qed
qed

lemma tree_up_copies:
  assumes "server_keeps lib files opened" "well_named t" "root \<noteq> []" "\<not> empty_path (path_of_string rroot)"
  shows "copy_inv t root rroot (pending t W) (files (tf_remote s)) \<Longrightarrow> local_tree ls (tf_local s) lroot t \<Longrightarrow>
    \<forall>w \<in> set W. \<exists>ts. tree_at t w = Some (RDir ts) \<Longrightarrow>
    sum_list (map (\<lambda>w. directories (the (tree_at t w))) W) < N \<Longrightarrow>
    \<exists>s1. tree_up N lib ls (map (place lroot rroot) W) s = (Some (Inr ()), s1) \<and> tf_local s1 = tf_local s
      \<and> copy_inv t root rroot [] (files (tf_remote s1))
      \<and> same_outside root (files (tf_remote s)) (files (tf_remote s1))"
proof (induction N arbitrary: W s)
  case (Suc n)
  show ?case
  proof (cases W)
    case Nil
    with Suc.prems show ?thesis by (simp add: copy_give_def)
  next
    case (Cons w rest)
    obtain ts where ts: "tree_at t w = Some (RDir ts)" using Suc.prems(3) Cons by auto
    have "local_entry ls (tf_local s) (foldl str_join lroot w) (RDir ts)"
      using Suc.prems(2) ts by (simp add: local_tree_def)
    then have list: "ls (foldl str_join lroot w) (tf_local s) = Inr (map (\<lambda>(n, t). Inr n) ts)"
      by (simp add: local_entry_def)
    have child: "(m, u) \<in> set ts \<Longrightarrow> tree_at t (w @ [m]) = Some u" for m u
      using tree_at_child [OF ts assms(2)] by blast
    let ?dirs = "map (\<lambda>(n, u). w @ [n]) (filter (\<lambda>(n, u). is_rdir u) ts)"
    let ?files = "map (\<lambda>(n, u). w @ [n]) (filter (\<lambda>(n, u). \<not> is_rdir u) ts)"
    let ?work = "rev ?dirs @ rest"
    have "copy_inv t root rroot (map (\<lambda>(n, u). w @ [n]) ts @ [] @ pending t rest) (files (tf_remote s))"
      using Suc.prems(1) ts by (simp add: Cons kids_def)
    from scan_local_makes [OF assms this Suc.prems(2)] child obtain s1 where
      s1: "scan_local lib (foldl str_join lroot w) (foldl str_join rroot w) (map (\<lambda>(n, u). Inr n) ts)
          (map (place lroot rroot) rest, []) s = (Some (Inr (map (place lroot rroot) ?work, map (place lroot rroot) ?files)), s1)"
      "tf_local s1 = tf_local s" "same_outside root (files (tf_remote s)) (files (tf_remote s1))"
      "copy_inv t root rroot (?files @ pending t ?work) (files (tf_remote s1))"
      by auto
    have files: "\<forall>f \<in> set ?files. \<exists>d. tree_at t f = Some (RFile d)"
    proof
      fix f assume "f \<in> set ?files"
      then obtain m u where "(m, u) \<in> set ts" "\<not> is_rdir u" "f = w @ [m]" by auto
      with child show "\<exists>d. tree_at t f = Some (RFile d)" by (cases u) auto
    qed
    have "local_tree ls (tf_local s1) lroot t" using Suc.prems(2) s1(2) by simp
    from upload_files_stores [OF assms s1(4) this files] obtain s2 where
      s2: "upload_files lib (map (place lroot rroot) ?files) s1 = (Some (Inr ()), s2)" "tf_local s2 = tf_local s"
      "copy_inv t root rroot (pending t ?work) (files (tf_remote s2))"
      "same_outside root (files (tf_remote s1)) (files (tf_remote s2))"
      using s1(2) by auto
    have dirs: "\<forall>v \<in> set ?work. \<exists>ts. tree_at t v = Some (RDir ts)"
    proof
      fix v assume "v \<in> set ?work"
      then consider "v \<in> set rest" | m u where "(m, u) \<in> set ts" "is_rdir u" "v = w @ [m]" by auto
      then show "\<exists>ts. tree_at t v = Some (RDir ts)"
      proof cases
        case 1
        with Suc.prems(3) Cons show ?thesis by simp
      next
        case 2
        with child show ?thesis by (cases u) auto
      qed
    qed
    have "map (\<lambda>w. directories (the (tree_at t w))) ?dirs
        = map (\<lambda>(n, u). directories u) (filter (\<lambda>(n, u). is_rdir u) ts)"
      using child by auto
    then have "sum_list (map (\<lambda>w. directories (the (tree_at t w))) ?dirs) = sum_list (map (\<lambda>(n, u). directories u) ts)"
      by (simp only: directories_filter)
    then have n: "sum_list (map (\<lambda>w. directories (the (tree_at t w))) ?work) < n"
      using Suc.prems(4) Cons ts by (simp add: sum_list_rev flip: rev_map)
    have "local_tree ls (tf_local s2) lroot t" using Suc.prems(2) s2(2) by simp
    from Suc.IH [OF s2(3) this dirs n] obtain s3 where
      "tree_up n lib ls (map (place lroot rroot) ?work) s2 = (Some (Inr ()), s3)" "tf_local s3 = tf_local s"
      "copy_inv t root rroot [] (files (tf_remote s3))" "same_outside root (files (tf_remote s2)) (files (tf_remote s3))"
      using s2(2) by auto
    moreover have "tree_up (Suc n) lib ls (map (place lroot rroot) W) s
        = tree_up n lib ls (map (place lroot rroot) ?work) s2"
      using list s1(1) s2(1)
      by (simp add: Cons copy_then_def look_local_def on_local_def del: map_append)
    ultimately show ?thesis using s1(3) s2(4) by (auto intro: same_outside_trans)
  qed
qed simp

lemma upload_inner_copies:
  assumes "server_keeps lib files opened" "well_named t" "is_rdir t" "directories t < N"
    and "local_tree ls (tf_local s) src t"
    and "works (files (tf_remote s))" "\<not> empty_path (path_of_string rpath)"
    and "resolve (files (tf_remote s)) (path_of_string rpath) = root" "root \<noteq> []"
    and "\<forall>cs. nodes (files (tf_remote s)) (root @ cs) = None"
    and "\<forall>ps. strict_prefix ps root \<longrightarrow>
      (\<exists>nd. nodes (files (tf_remote s)) ps = Some nd \<and> nd_kind nd = Directory)"
  shows "\<exists>s1. upload_inner N lib ls True src rpath s = (Some (Inr ()), s1) \<and> tf_local s1 = tf_local s
    \<and> (\<forall>cs. node_matches (tree_at t cs) (nodes (files (tf_remote s1)) (root @ cs)))
    \<and> (\<forall>cs. \<not> prefix root cs \<longrightarrow> nodes (files (tf_remote s1)) cs = nodes (files (tf_remote s)) cs)
    \<and> resolve (files (tf_remote s1)) (path_of_string rpath) = root"
proof -
  obtain ts where t: "t = RDir ts" using assms(3) by (cases t) auto
  obtain nd where nd: "metadata (path_of_string src) (tf_local s) = Inr nd" "nd_kind nd = Directory"
    using assms(5) by (auto simp: local_tree_def local_entry_def t metadata_def dest!: spec [of _ "[]"])
  have "nodes (files (tf_remote s)) (resolve (files (tf_remote s)) (path_of_string rpath)) = None"
    using assms(8) assms(10) [rule_format, of "[]"] by simp
  then obtain e r1 where r1: "sf_metadata lib rpath (tf_remote s) = (Inl e, r1)" "files r1 = files (tf_remote s)"
    using assms(1) unfolding server_keeps_def looks_up_def by blast
  have i: "copy_inv t root rpath ([] # []) (files r1)"
    using assms(6,8,10,11) r1(2) by (simp add: copy_inv_def copied_def apart_def)
  note free = copy_inv_free_name [OF i assms(2,9,7)]
  obtain r2 dn where r2: "ensure_remote_dir lib rpath (s\<lparr>tf_remote := r1\<rparr>) = (Some (Inr ()), s\<lparr>tf_remote := r2\<rparr>)"
    "files r2 = put_node (path_of_string rpath) dn (files r1)" "nd_kind dn = Directory"
    using ensure_remote_dir_makes [of lib files rpath "s\<lparr>tf_remote := r1\<rparr>"] free(1) assms(1)
    by (auto simp: server_keeps_def)
  have m: "nodes (files r2) = (nodes (files r1))(root @ [] \<mapsto> dn)"
    using free(2) by (simp add: r2(2))
  have "copy_inv t root rpath (kids t [] @ []) (files r2)"
    by (rule dir_made [OF i _ assms(2) m r2(3)]) (use t i in \<open>simp_all add: r2(2) copy_inv_def\<close>)
  then have "copy_inv t root rpath (pending t [[]]) (files (tf_remote (s\<lparr>tf_remote := r2\<rparr>)))" by simp
  from tree_up_copies [OF assms(1,2,9,7) this, of ls src N] assms(4,5) obtain s1 where
    s1: "tree_up N lib ls [(src, rpath)] (s\<lparr>tf_remote := r2\<rparr>) = (Some (Inr ()), s1)" "tf_local s1 = tf_local s"
    "copy_inv t root rpath [] (files (tf_remote s1))" "same_outside root (files r2) (files (tf_remote s1))"
    by (auto simp: t)
  have "upload_inner N lib ls True src rpath s = (Some (Inr ()), s1)"
    using nd r1(1) r2(1) s1(1)
    by (simp add: upload_inner_def upload_tree_def copy_then_def look_local_def on_local_def ask_remote_def copy_give_def)
  moreover have "\<forall>cs. node_matches (tree_at t cs) (nodes (files (tf_remote s1)) (root @ cs))"
    using s1(3) by (simp add: copy_inv_def copied_def)
  moreover have "same_outside root (files (tf_remote s)) (files (tf_remote s1))"
    using same_outside_trans [OF same_outside_simps(2) [OF m] s1(4)] r1(2) by simp
  moreover have "resolve (files (tf_remote s1)) (path_of_string rpath) = root"
    using s1(3) by (simp add: copy_inv_def)
  ultimately show ?thesis using s1(2) by (auto simp: same_outside_def)
qed

section \<open>Properties\<close>

text \<open>
  C27: an upload copies the tree. When the server keeps files and the destination is free on it, the upload of
  a local tree ends, with as much fuel as the tree has directories; what the server then has at the destination
  is the tree: every directory, every file with its contents, and nothing else; the rest of its files and all
  local ones are as before.
\<close>

theorem upload_copies_tree:
  assumes "server_keeps lib files opened" "well_named t" "is_rdir t" "directories t < N"
    and "local_tree ls (tf_local s) src t"
    and "works (files (tf_remote s))" "\<not> empty_path (path_of_string rpath)"
    and "resolve (files (tf_remote s)) (path_of_string rpath) = root" "root \<noteq> []"
    and "\<forall>cs. nodes (files (tf_remote s)) (root @ cs) = None"
    and "\<forall>ps. strict_prefix ps root \<longrightarrow>
      (\<exists>nd. nodes (files (tf_remote s)) ps = Some nd \<and> nd_kind nd = Directory)"
  shows "\<exists>s1. upload_inner N lib ls True src rpath s = (Some (Inr ()), s1) \<and> tf_local s1 = tf_local s
    \<and> (\<forall>cs. node_matches (tree_at t cs) (nodes (files (tf_remote s1)) (root @ cs)))
    \<and> (\<forall>cs. \<not> prefix root cs \<longrightarrow> nodes (files (tf_remote s1)) cs = nodes (files (tf_remote s)) cs)"
  using upload_inner_copies [OF assms] by blast

section \<open>Witness\<close>

text \<open>A server with files of its own and one handle.\<close>

type_synonym file_store = "fsys \<times> (nat \<Rightarrow> string option)"

definition store_node :: "node_kind \<Rightarrow> fnode" where
  "store_node k = \<lparr>nd_kind = k, nd_uid = 0, nd_mode = 0x1ED, nd_data = []\<rparr>"

definition store_new :: "node_kind \<Rightarrow> string \<Rightarrow> fsys \<Rightarrow> fsys option" where
  "store_new k p fs = (let q = path_of_string p in
     if empty_path q \<or> nodes fs (resolve fs q) \<noteq> None \<or> \<not> parent_is_dir q fs then None
     else Some (put_node q (store_node k) fs))"

definition store_server :: "file_store sftp" where
  "store_server = \<lparr>
     sf_metadata = (\<lambda>p (fs, hs). (case nodes fs (resolve fs (path_of_string p)) of
         None \<Rightarrow> Inl ''no such file'' | Some nd \<Rightarrow> Inr (Some (nd_kind nd = Directory)), fs, hs)),
     sf_open_dir = (\<lambda>_. refused), sf_canonicalize = (\<lambda>p r. (Inr p, r)),
     sf_create_dir = (\<lambda>p (fs, hs). case store_new Directory p fs of
         None \<Rightarrow> (Inl ''failure'', fs, hs) | Some fs1 \<Rightarrow> (Inr (), fs1, hs)),
     sf_remove_dir = (\<lambda>_. refused), sf_remove_file = (\<lambda>_. refused), sf_rename = (\<lambda>_ _. refused),
     sf_open = (\<lambda>_. refused),
     sf_create = (\<lambda>p (fs, hs). case store_new RegularFile p fs of
         None \<Rightarrow> (Inl ''failure'', fs, hs) | Some fs1 \<Rightarrow> (Inr 0, fs1, hs(0 \<mapsto> p))),
     sf_read = (\<lambda>_ _. refused),
     sf_write = (\<lambda>h bs (fs, hs). case hs h of
         None \<Rightarrow> (Inl ''bad handle'', fs, hs)
       | Some p \<Rightarrow> (case nodes fs (resolve fs (path_of_string p)) of
             None \<Rightarrow> (Inl ''failure'', fs, hs)
           | Some nd \<Rightarrow> (Inr (), put_node (path_of_string p) (nd\<lparr>nd_data := nd_data nd @ bs\<rparr>) fs, hs))),
     sf_close = (\<lambda>h r. (Inr (), r))\<rparr>"

lemma store_server_keeps: "server_keeps store_server fst snd"
  by (auto simp: server_keeps_def makes_dirs_def makes_files_def writes_files_def looks_up_def store_server_def
      store_new_def free_name_def Let_def intro: exI [of _ "store_node k" for k] simp: store_node_def)

definition demo_local :: fsys where
  "demo_local = put_node (Path True [''home'', ''d'', ''f'']) ((new_file mode_600 demo_fs)\<lparr>nd_data := [1, 2, 3]\<rparr>)
     (put_node (Path True [''home'', ''d'']) (demo_dir 1000) demo_fs)"

definition demo_ls :: local_listing where
  "demo_ls p fs = (if p = ''/home/d'' then Inr [Inr ''f''] else Inl OtherIo)"

lemma demo_local_tree: "local_tree demo_ls demo_local ''/home/d'' demo_tree"
proof -
  have p: "path_of_string ''/home/d'' = Path True [''home'', ''d'']"
    "path_of_string ''/home/d/f'' = Path True [''home'', ''d'', ''f'']"
    by (simp_all add: path_of_string_def starts_with_def Let_def)
  have j: "str_join ''/home/d'' ''f'' = ''/home/d/f''"
    by (simp add: str_join_def starts_with_def ends_with_def strip_suffix_def)
  have c: "fs_check op (Path True q) demo_local = None" for op q
    by (simp add: demo_local_def fs_check_def empty_path_def demo_fs_def)
  have d: "local_entry demo_ls demo_local ''/home/d'' demo_tree" "local_entry demo_ls demo_local ''/home/d/f'' (RFile [1, 2, 3])"
    by (simp_all add: local_entry_def p c demo_tree_def demo_ls_def)
      (simp_all add: demo_local_def put_node_def resolve_def demo_dir_def new_file_def)
  show ?thesis
    unfolding local_tree_def using d j by (auto dest!: demo_tree_at)
qed

theorem upload_copies_tree_witness:
  "\<exists>s1 nd. upload_inner 2 store_server demo_ls True ''/home/d'' ''/t''
       \<lparr>tf_remote = (demo_fs, \<lambda>_. None), tf_local = demo_local, tf_printed = []\<rparr> = (Some (Inr ()), s1)
     \<and> nodes (fst (tf_remote s1)) [''t'', ''f''] = Some nd \<and> nd_data nd = [1, 2, 3]"
proof -
  let ?s = "\<lparr>tf_remote = (demo_fs, \<lambda>_. None :: string option), tf_local = demo_local, tf_printed = []\<rparr>"
  have wn: "well_named demo_tree"
    by (auto simp: well_named_def good_name_def demo_tree_def dest!: demo_tree_at [unfolded demo_tree_def])
  have "is_rdir demo_tree" "directories demo_tree < 2" by (simp_all add: demo_tree_def)
  moreover have "works (fst (tf_remote ?s))" by (simp add: works_def demo_fs_def)
  moreover have "resolve (fst (tf_remote ?s)) (path_of_string ''/t'') = [''t'']" by (simp add: demo_dst)
  moreover have "\<forall>cs. nodes (fst (tf_remote ?s)) ([''t''] @ cs) = None" by (simp add: demo_fs_def)
  moreover have "\<forall>ps. strict_prefix ps [''t''] \<longrightarrow>
      (\<exists>nd. nodes (fst (tf_remote ?s)) ps = Some nd \<and> nd_kind nd = Directory)"
    by (auto simp: demo_fs_def demo_dir_def strict_prefix_def prefix_Cons)
  ultimately obtain s1 where "upload_inner 2 store_server demo_ls True ''/home/d'' ''/t'' ?s = (Some (Inr ()), s1)"
      "\<forall>cs. node_matches (tree_at demo_tree cs) (nodes (fst (tf_remote s1)) ([''t''] @ cs))"
    using upload_copies_tree [OF store_server_keeps wn _ _ _ _ demo_dst(2), of 2 demo_ls ?s "''/home/d''" "[''t'']"]
      demo_local_tree by auto
  then show ?thesis by (auto simp: demo_tree_def dest!: spec [of _ "[''f'']"])
qed

end
