(* ===== verification/Copy_Roundtrip.thy ===== *)
theory Copy_Roundtrip
  imports Tree_Upload "HOL-Library.List_Lexorder" "HOL-Library.Char_ord"
begin

text \<open>
  What was uploaded can be downloaded again: a server that keeps files and serves them, as one SFTP server does
  in both directions of \<^verbatim>\<open>sqsh/src/bin/sqcp.rs\<close>.
\<close>

section \<open>A server that serves what it keeps\<close>

text \<open>
  \<open>left\<close> is what is still to be read through a handle. A read takes some of it, one byte at least and not more
  than was asked for. A directory is listed with its names, each once and in any order, and perhaps with itself and
  the one above. Looking and reading leave the files.
\<close>

definition stats :: "'r sftp \<Rightarrow> ('r \<Rightarrow> fsys) \<Rightarrow> bool" where
  "stats lib files \<longleftrightarrow> (\<forall>p r nd. nodes (files r) (resolve (files r) (path_of_string p)) = Some nd \<longrightarrow>
     (\<exists>r1. sf_metadata lib p r = (Inr (Some (nd_kind nd = Directory)), r1) \<and> files r1 = files r))"

definition opens_files :: "'r sftp \<Rightarrow> ('r \<Rightarrow> fsys) \<Rightarrow> ('r \<Rightarrow> nat \<Rightarrow> byte list option) \<Rightarrow> bool" where
  "opens_files lib files left \<longleftrightarrow> (\<forall>p r nd. nodes (files r) (resolve (files r) (path_of_string p)) = Some nd \<longrightarrow>
     nd_kind nd = RegularFile \<longrightarrow>
     (\<exists>h r1. sf_open lib p r = (Inr h, r1) \<and> files r1 = files r \<and> left r1 h = Some (nd_data nd)))"

definition reads_files :: "'r sftp \<Rightarrow> ('r \<Rightarrow> fsys) \<Rightarrow> ('r \<Rightarrow> nat \<Rightarrow> byte list option) \<Rightarrow> bool" where
  "reads_files lib files left \<longleftrightarrow> (\<forall>h r d. left r h = Some d \<longrightarrow>
     (\<exists>r1. sf_close lib h r = (Inr (), r1) \<and> files r1 = files r)
     \<and> (\<forall>n > 0. \<exists>x r1. sf_read lib h n r = (Inr x, r1) \<and> files r1 = files r
         \<and> (if d = [] then x \<in> {None, Some []} \<and> left r1 h = Some []
            else \<exists>k. 0 < k \<and> k \<le> n \<and> x = Some (take k d) \<and> left r1 h = Some (drop k d))))"

definition names_in :: "fsys \<Rightarrow> string list \<Rightarrow> string set" where
  "names_in fs cs = {n. nodes fs (cs @ [n]) \<noteq> None}"

definition lists_dirs :: "'r sftp \<Rightarrow> ('r \<Rightarrow> fsys) \<Rightarrow> bool" where
  "lists_dirs lib files \<longleftrightarrow> (\<forall>p r nd. let cs = resolve (files r) (path_of_string p) in
     nodes (files r) cs = Some nd \<longrightarrow> nd_kind nd = Directory \<longrightarrow> finite (names_in (files r) cs) \<longrightarrow>
     (\<exists>es r1. sf_open_dir lib p r = (Inr (map Inr es), r1) \<and> files r1 = files r
       \<and> (let ls = filter (\<lambda>(n, d). n \<noteq> ''.'' \<and> n \<noteq> ''..'') es in
          distinct (map fst ls) \<and> set (map fst ls) = names_in (files r) cs - {''.'', ''..''}
          \<and> (\<forall>(n, d) \<in> set ls. \<forall>x. nodes (files r) (cs @ [n]) = Some x \<longrightarrow> (d = Some True \<longleftrightarrow> nd_kind x = Directory)))))"

definition server_serves :: "'r sftp \<Rightarrow> ('r \<Rightarrow> fsys) \<Rightarrow> ('r \<Rightarrow> nat \<Rightarrow> byte list option) \<Rightarrow> bool" where
  "server_serves lib files left \<longleftrightarrow>
     stats lib files \<and> opens_files lib files left \<and> reads_files lib files left \<and> lists_dirs lib files"

section \<open>What is kept is served\<close>

lemma reads_left:
  assumes "reads_files lib files left" "left r h = Some d" "files r = F"
  shows "\<exists>ds. reads lib (\<lambda>r. files r = F) h r ds \<and> concat ds = d \<and> length ds \<le> length d"
  using assms(2,3)
proof (induction "length d" arbitrary: d r rule: less_induct)
  case less
  have pos: "0 < COPY_CHUNK" by (simp add: COPY_CHUNK_def)
  obtain x r1 where x: "sf_read lib h COPY_CHUNK r = (Inr x, r1)" "files r1 = F"
    "if d = [] then x \<in> {None, Some []} \<and> left r1 h = Some []
      else \<exists>k. 0 < k \<and> k \<le> COPY_CHUNK \<and> x = Some (take k d) \<and> left r1 h = Some (drop k d)"
    using assms(1) less.prems pos unfolding reads_files_def by metis
  show ?case
  proof (cases "d = []")
    case True
    then have l: "left r1 h = Some []" "x \<in> {None, Some []}" using x(3) by auto
    then obtain r2 where "sf_close lib h r1 = (Inr (), r2)" "files r2 = F"
      using assms(1) x(2) unfolding reads_files_def by metis
    with x(1) l True show ?thesis by (intro exI [of _ "[]"]) auto
  next
    case False
    then obtain k where k: "0 < k" "x = Some (take k d)" "left r1 h = Some (drop k d)" using x(3) by auto
    have "length (drop k d) < length d" using k(1) False by (cases d) auto
    from less.hyps [OF this k(3) x(2)] obtain ds where
      ds: "reads lib (\<lambda>r. files r = F) h r1 ds" "concat ds = drop k d" "length ds \<le> length (drop k d)" by blast
    have "take k d \<noteq> []" using k(1) False by (cases d; cases k) auto
    moreover have "Suc (length ds) \<le> length d" using ds(3) \<open>length (drop k d) < length d\<close> by linarith
    ultimately show ?thesis using ds(1,2) k x(1)
      by (intro exI [of _ "take k d # ds"]) auto
  qed
qed

lemma keeps_serves_file:
  assumes "server_serves lib files left" "resolve F (path_of_string p) = cs"
    and "node_matches (Some (RFile d)) (nodes F cs)" "length d < K"
  shows "serves_file K lib (\<lambda>r. files r = F) p d"
  unfolding serves_file_def
proof (intro allI impI)
  fix r assume r: "files r = F"
  obtain nd where nd: "nodes F cs = Some nd" "nd_kind nd = RegularFile" "nd_data nd = d" using assms(3) by auto
  obtain h r1 where o: "sf_open lib p r = (Inr h, r1)" "files r1 = F" "left r1 h = Some d"
    using assms(1,2) nd r unfolding server_serves_def opens_files_def by blast
  from reads_left [of lib files left r1 h d F] o(2,3) assms(1) obtain ds where
    "reads lib (\<lambda>r. files r = F) h r1 ds" "concat ds = d" "length ds \<le> length d" by (auto simp: server_serves_def)
  with o(1) assms(4) show "\<exists>h r1 ds. sf_open lib p r = (Inr h, r1) \<and> reads lib (\<lambda>r. files r = F) h r1 ds
      \<and> concat ds = d \<and> length ds < K" by fastforce
qed

lemma statsD:
  "stats lib files \<Longrightarrow> resolve (files r) (path_of_string p) = cs \<Longrightarrow> nodes (files r) cs = Some nd \<Longrightarrow>
     \<exists>r1. sf_metadata lib p r = (Inr (Some (nd_kind nd = Directory)), r1) \<and> files r1 = files r"
  by (simp add: stats_def)

lemma lists_dirsD:
  assumes "lists_dirs lib files" "resolve (files r) (path_of_string p) = cs" "nodes (files r) cs = Some nd"
    and "nd_kind nd = Directory" "finite (names_in (files r) cs)"
  shows "\<exists>es r1 ls. sf_open_dir lib p r = (Inr (map Inr es), r1) \<and> files r1 = files r
    \<and> ls = filter (\<lambda>(n, d). n \<noteq> ''.'' \<and> n \<noteq> ''..'') es
    \<and> distinct (map fst ls) \<and> set (map fst ls) = names_in (files r) cs - {''.'', ''..''}
    \<and> (\<forall>(n, d) \<in> set ls. \<forall>x. nodes (files r) (cs @ [n]) = Some x \<longrightarrow> (d = Some True \<longleftrightarrow> nd_kind x = Directory))"
proof -
  note d = assms(1) [unfolded lists_dirs_def Let_def, THEN spec, of p, THEN spec, of r, THEN spec, of nd,
    unfolded assms(2), THEN mp, OF assms(3), THEN mp, OF assms(4), THEN mp, OF assms(5)]
  then show ?thesis by (elim exE conjE, intro exI conjI) (assumption | rule refl)+
qed

lemma keeps_serves_dir:
  assumes "server_serves lib files left" "resolve F (path_of_string p) = root @ cs" "well_named t"
    and "\<forall>cs. node_matches (tree_at t cs) (nodes F (root @ cs))" "tree_at t cs = Some (RDir ts)"
  shows "serves_dir lib (\<lambda>r. files r = F) p ts"
  unfolding serves_dir_def
proof (intro allI impI)
  fix r assume r: "files r = F"
  have m: "node_matches (map_of ts n) (nodes F (root @ cs @ [n]))" for n
    using assms(4) [rule_format, of "cs @ [n]"] assms(5) by (auto simp: tree_at_append split: option.splits)
  have names: "names_in F (root @ cs) = set (map fst ts)"
  proof -
    have "nodes F (root @ cs @ [n]) = None \<longleftrightarrow> map_of ts n = None" for n
      using m [of n] by (cases "map_of ts n"; cases "the (map_of ts n)") auto
    then show ?thesis by (auto simp: names_in_def map_of_eq_None_iff)
  qed
  have t: "distinct (map fst ts)" "\<forall>n \<in> set (map fst ts). good_name n"
    using assms(3,5) unfolding well_named_def by blast+
  obtain nd where nd: "nodes F (root @ cs) = Some nd" "nd_kind nd = Directory"
    using assms(4) [rule_format, of cs] assms(5) by auto
  obtain es r1 ls' where es: "sf_open_dir lib p r = (Inr (map Inr es), r1)" "files r1 = F"
    and ls': "ls' = filter (\<lambda>(n, d). n \<noteq> ''.'' \<and> n \<noteq> ''..'') es"
    and ls: "distinct (map fst ls')" "set (map fst ls') = set (map fst ts) - {''.'', ''..''}"
      "\<forall>(n, d) \<in> set ls'. \<forall>x. nodes F (root @ cs @ [n]) = Some x \<longrightarrow> (d = Some True \<longleftrightarrow> nd_kind x = Directory)"
    using lists_dirsD [of lib files r p "root @ cs" nd] assms(1,2) nd names r
    by (auto simp: server_serves_def simp del: set_map set_filter)
  define us where "us = map (\<lambda>(n, d). (n, the (map_of ts n))) ls'"
  have same: "set (map fst ls') = set (map fst ts)" using ls(2) t(2) by (auto simp: good_name_def)
  have us: "(n, u) \<in> set us \<longleftrightarrow> n \<in> set (map fst ls') \<and> map_of ts n = Some u" for n u
  proof -
    have "map_of ts k \<noteq> None" if "k \<in> set (map fst ls')" for k
      using that same by (simp add: map_of_eq_None_iff)
    then show ?thesis by (force simp: us_def)
  qed
  have "mset us = mset ts"
  proof (rule set_eq_iff_mset_eq_distinct [THEN iffD1])
    have "map fst us = map fst ls'" by (simp add: us_def comp_def case_prod_unfold)
    with ls(1) show "distinct us" by (metis distinct_map)
    show "distinct ts" using t(1) by (simp add: distinct_map)
    show "set us = set ts" using us same t(1) by (auto simp: map_of_eq_Some_iff) (metis fst_conv image_eqI)
  qed
  moreover have "list_all2 (\<lambda>(n, d) (n', t). n = n' \<and> (d = Some True \<longleftrightarrow> is_rdir t)) ls' us"
  proof -
    have "d = Some True \<longleftrightarrow> is_rdir (the (map_of ts n))" if nd: "(n, d) \<in> set ls'" for n d
    proof -
      have "n \<in> set (map fst ts)" using nd same by force
      then obtain u where u: "map_of ts n = Some u" by (metis map_of_eq_None_iff option.exhaust set_map)
      obtain x where "nodes F (root @ cs @ [n]) = Some x" "nd_kind x = Directory \<longleftrightarrow> is_rdir u"
        using m [of n] u by (cases u) auto
      with ls(3) nd u show ?thesis by fastforce
    qed
    then show ?thesis by (auto simp: us_def list_all2_map2 list.rel_refl_strong list_all2_same)
  qed
  ultimately show "\<exists>r1 es us. sf_open_dir lib p r = (Inr (map Inr es), r1) \<and> files r1 = F \<and> mset us = mset ts
      \<and> list_all2 (\<lambda>(n, d) (n', t). n = n' \<and> (d = Some True \<longleftrightarrow> is_rdir t))
          (filter (\<lambda>(n, d). n \<noteq> ''.'' \<and> n \<noteq> ''..'') es) us"
    using es unfolding ls' by blast
qed

lemma keeps_serves_tree:
  assumes "server_serves lib files left" "resolve F (path_of_string rpath) = root" "well_named t"
    and "\<forall>cs. node_matches (tree_at t cs) (nodes F (root @ cs))"
    and "\<forall>cs d. tree_at t cs = Some (RFile d) \<longrightarrow> length d < K"
  shows "serves_tree K lib (\<lambda>r. files r = F) rpath t"
  unfolding serves_tree_def
proof (intro allI impI)
  fix cs u assume u: "tree_at t cs = Some u"
  have p: "resolve F (path_of_string (foldl str_join rpath cs)) = root @ cs"
    using resolve_foldl_join [OF tree_at_good [OF assms(3) u]] assms(2) by simp
  show "case u of RFile d \<Rightarrow> serves_file K lib (\<lambda>r. files r = F) (foldl str_join rpath cs) d
      | RDir ts \<Rightarrow> serves_dir lib (\<lambda>r. files r = F) (foldl str_join rpath cs) ts"
  proof (cases u)
    case (RFile d)
    with keeps_serves_file [OF assms(1) p, of d K] assms(4) [rule_format, of cs] assms(5) u show ?thesis by simp
  next
    case (RDir ts)
    with keeps_serves_dir [OF assms(1) p assms(3,4)] u show ?thesis by simp
  qed
qed

section \<open>Properties\<close>

text \<open>
  C28: up and down again is the same tree. A recursive upload to a server that keeps files and serves what it
  keeps, and then a recursive download of the same place, both end, and the tree that the download has made is
  the one the upload was given: every directory and every file with its contents, and nothing else, whatever the
  server's listings are ordered by and however short its reads are. The download changes no file on the server.
\<close>

theorem uploaded_tree_downloads:
  assumes "server_keeps lib files opened" "server_serves lib files left"
    and "well_named t" "is_rdir t" "\<forall>cs d. tree_at t cs = Some (RFile d) \<longrightarrow> length d < K" "K + directories t < N"
    and "local_tree ls (tf_local s) src t"
    and "works (files (tf_remote s))" "\<not> empty_path (path_of_string rpath)"
    and "resolve (files (tf_remote s)) (path_of_string rpath) = root" "root \<noteq> []"
    and "\<forall>cs. nodes (files (tf_remote s)) (root @ cs) = None"
    and "\<forall>ps. strict_prefix ps root \<longrightarrow>
      (\<exists>nd. nodes (files (tf_remote s)) ps = Some nd \<and> nd_kind nd = Directory)"
    and "works (tf_local s)" "\<not> empty_path (path_of_string dst)"
    and "resolve (tf_local s) (path_of_string dst) = droot" "droot \<noteq> []"
    and "\<forall>cs. nodes (tf_local s) (droot @ cs) = None"
    and "\<forall>ps. strict_prefix ps droot \<longrightarrow>
      (\<exists>nd. nodes (tf_local s) ps = Some nd \<and> nd_kind nd = Directory)"
  shows "\<exists>s1 s2. upload_inner N lib ls True src rpath s = (Some (Inr ()), s1)
    \<and> download_inner N lib True rpath dst s1 = (Some (Inr ()), s2)
    \<and> (\<forall>cs. node_matches (tree_at t cs) (nodes (tf_local s2) (droot @ cs)))
    \<and> files (tf_remote s2) = files (tf_remote s1)"
proof -
  have "directories t < N" using assms(6) by simp
  from upload_inner_copies [OF assms(1,3,4) this assms(7-13)] obtain s1 where
    up: "upload_inner N lib ls True src rpath s = (Some (Inr ()), s1)" "tf_local s1 = tf_local s"
      "\<forall>cs. node_matches (tree_at t cs) (nodes (files (tf_remote s1)) (root @ cs))"
      "resolve (files (tf_remote s1)) (path_of_string rpath) = root" by blast
  let ?F = "files (tf_remote s1)"
  have tree: "serves_tree K lib (\<lambda>r. files r = ?F) rpath t"
    using keeps_serves_tree [OF assms(2) up(4) assms(3) up(3) assms(5)] .
  obtain ts nd where "t = RDir ts" "nodes ?F root = Some nd" "nd_kind nd = Directory"
    using up(3) [rule_format, of "[]"] assms(4) by (cases t) auto
  then have stat: "\<exists>r1. sf_metadata lib rpath r = (Inr (Some True), r1) \<and> files r1 = ?F" if "files r = ?F" for r
    using statsD [of lib files r rpath root nd] assms(2) up(4) that by (simp add: server_serves_def)
  from download_inner_copies [OF tree assms(3,4,6) refl _ assms(14) [folded up(2)] assms(15), of droot] stat assms(16-19) up(2)
  obtain s2 where "download_inner N lib True rpath dst s1 = (Some (Inr ()), s2)"
      "\<forall>cs. node_matches (tree_at t cs) (nodes (tf_local s2) (droot @ cs))" "files (tf_remote s2) = ?F" by auto
  with up(1) show ?thesis by blast
qed

section \<open>Witness\<close>

text \<open>The server of the upload with a second kind of handle, for reading.\<close>

type_synonym read_store = "file_store \<times> (nat \<Rightarrow> byte list option)"

definition lifted :: "(file_store \<Rightarrow> 'a \<times> file_store) \<Rightarrow> read_store \<Rightarrow> 'a \<times> read_store" where
  "lifted f r = (case f (fst r) of (a, st) \<Rightarrow> (a, st, snd r))"

definition store_names :: "fsys \<Rightarrow> string list \<Rightarrow> (string + remote_entry) list" where
  "store_names fs cs = map Inr (map (\<lambda>n. (n, map_option (\<lambda>nd. nd_kind nd = Directory) (nodes fs (cs @ [n]))))
     (sorted_list_of_set (names_in fs cs)))"

definition reading_server :: "read_store sftp" where
  "reading_server = \<lparr>
     sf_metadata = (\<lambda>p. lifted (sf_metadata store_server p)),
     sf_open_dir = (\<lambda>p r. let fs = fst (fst r) in (Inr (store_names fs (resolve fs (path_of_string p))), r)),
     sf_canonicalize = (\<lambda>p r. (Inr p, r)),
     sf_create_dir = (\<lambda>p. lifted (sf_create_dir store_server p)),
     sf_remove_dir = (\<lambda>_. refused), sf_remove_file = (\<lambda>_. refused), sf_rename = (\<lambda>_ _. refused),
     sf_open = (\<lambda>p r. let fs = fst (fst r) in case nodes fs (resolve fs (path_of_string p)) of
         None \<Rightarrow> (Inl ''no such file'', r) | Some nd \<Rightarrow> (Inr 1, fst r, (snd r)(1 \<mapsto> nd_data nd))),
     sf_create = (\<lambda>p. lifted (sf_create store_server p)),
     sf_read = (\<lambda>h n r. case snd r h of
         None \<Rightarrow> (Inl ''bad handle'', r)
       | Some d \<Rightarrow> (Inr (if d = [] then None else Some (take n d)), fst r, (snd r)(h \<mapsto> drop n d))),
     sf_write = (\<lambda>h bs. lifted (sf_write store_server h bs)),
     sf_close = (\<lambda>h r. (Inr (), r))\<rparr>"

lemma reading_server_keeps: "server_keeps reading_server (\<lambda>r. fst (fst r)) (\<lambda>r. snd (fst r))"
  by (auto simp: server_keeps_def makes_dirs_def makes_files_def writes_files_def looks_up_def reading_server_def
      lifted_def store_server_def store_new_def free_name_def Let_def
      intro: exI [of _ "store_node k" for k] simp: store_node_def)

lemma reading_server_serves: "server_serves reading_server (\<lambda>r. fst (fst r)) snd"
proof -
  have "stats reading_server (\<lambda>r. fst (fst r))"
    by (auto simp: stats_def reading_server_def lifted_def store_server_def split: prod.split)
  moreover have "opens_files reading_server (\<lambda>r. fst (fst r)) snd"
    by (auto simp: opens_files_def reading_server_def Let_def)
  moreover have "reads_files reading_server (\<lambda>r. fst (fst r)) snd"
    by (auto simp: reads_files_def reading_server_def)
  moreover have "lists_dirs reading_server (\<lambda>r. fst (fst r))"
    unfolding lists_dirs_def Let_def
  proof (intro allI impI)
    fix p and r :: read_store and nd
    let ?fs = "fst (fst r)"
    let ?cs = "resolve ?fs (path_of_string p)"
    let ?es = "map (\<lambda>n. (n, map_option (\<lambda>nd. nd_kind nd = Directory) (nodes ?fs (?cs @ [n])))) (sorted_list_of_set (names_in ?fs ?cs))"
    let ?ls = "filter (\<lambda>(n, d). n \<noteq> ''.'' \<and> n \<noteq> ''..'') ?es"
    assume fin: "finite (names_in ?fs ?cs)"
    have "map fst ?ls = filter (\<lambda>n. n \<noteq> ''.'' \<and> n \<noteq> ''..'') (sorted_list_of_set (names_in ?fs ?cs))"
      by (simp add: filter_map comp_def)
    with fin have "distinct (map fst ?ls)" "set (map fst ?ls) = names_in ?fs ?cs - {''.'', ''..''}"
      by auto
    moreover have "\<forall>(n, d) \<in> set ?ls. \<forall>x. nodes ?fs (?cs @ [n]) = Some x \<longrightarrow> (d = Some True \<longleftrightarrow> nd_kind x = Directory)"
      by auto
    moreover have "sf_open_dir reading_server p r = (Inr (map Inr ?es), r)"
      by (simp add: reading_server_def store_names_def Let_def)
    ultimately show "\<exists>es r1. sf_open_dir reading_server p r = (Inr (map Inr es), r1) \<and> fst (fst r1) = ?fs
        \<and> distinct (map fst (filter (\<lambda>(n, d). n \<noteq> ''.'' \<and> n \<noteq> ''..'') es))
          \<and> set (map fst (filter (\<lambda>(n, d). n \<noteq> ''.'' \<and> n \<noteq> ''..'') es)) = names_in ?fs ?cs - {''.'', ''..''}
          \<and> (\<forall>(n, d) \<in> set (filter (\<lambda>(n, d). n \<noteq> ''.'' \<and> n \<noteq> ''..'') es).
              \<forall>x. nodes ?fs (?cs @ [n]) = Some x \<longrightarrow> (d = Some True \<longleftrightarrow> nd_kind x = Directory))"
      by blast
  qed
  ultimately show ?thesis by (simp add: server_serves_def)
qed

theorem uploaded_tree_downloads_witness:
  "\<exists>s1 s2 nd. upload_inner 6 reading_server demo_ls True ''/home/d'' ''/t''
       \<lparr>tf_remote = ((demo_fs, \<lambda>_. None), \<lambda>_. None), tf_local = demo_local, tf_printed = []\<rparr> = (Some (Inr ()), s1)
     \<and> download_inner 6 reading_server True ''/t'' ''/u'' s1 = (Some (Inr ()), s2)
     \<and> nodes (tf_local s2) [''u'', ''f''] = Some nd \<and> nd_data nd = [1, 2, 3]"
proof -
  let ?s = "\<lparr>tf_remote = ((demo_fs, \<lambda>_. None :: string option), \<lambda>_. None :: byte list option),
    tf_local = demo_local, tf_printed = []\<rparr>"
  have wn: "well_named demo_tree"
    by (auto simp: well_named_def good_name_def demo_tree_def dest!: demo_tree_at [unfolded demo_tree_def])
  have "length d < 4" if "tree_at demo_tree cs = Some (RFile d)" for cs d
    using demo_tree_at [OF that] by (auto simp: demo_tree_def)
  then have small: "\<forall>cs d. tree_at demo_tree cs = Some (RFile d) \<longrightarrow> length d < 4" by blast
  have t: "is_rdir demo_tree" "\<forall>cs d. tree_at demo_tree cs = Some (RFile d) \<longrightarrow> length d < 4" "4 + directories demo_tree < 6"
    by (simp_all add: small) (simp_all add: demo_tree_def)
  have u: "path_of_string ''/u'' = Path True [''u'']" "path_of_string ''/t'' = Path True [''t'']"
    by (simp_all add: path_of_string_def starts_with_def Let_def)
  have top: "strict_prefix ps [x] \<longleftrightarrow> ps = []" for ps and x :: string
    by (auto simp: strict_prefix_def prefix_Cons)
  have r: "works (fst (fst (tf_remote ?s)))" "resolve (fst (fst (tf_remote ?s))) (path_of_string ''/t'') = [''t'']"
    "\<forall>cs. nodes (fst (fst (tf_remote ?s))) ([''t''] @ cs) = None"
    "\<forall>ps. strict_prefix ps [''t''] \<longrightarrow> (\<exists>nd. nodes (fst (fst (tf_remote ?s))) ps = Some nd \<and> nd_kind nd = Directory)"
    by (simp_all add: u top works_def demo_fs_def resolve_def demo_dir_def)
  have l: "works (tf_local ?s)" "resolve (tf_local ?s) (path_of_string ''/u'') = [''u'']"
    "\<forall>cs. nodes (tf_local ?s) ([''u''] @ cs) = None"
    "\<forall>ps. strict_prefix ps [''u''] \<longrightarrow> (\<exists>nd. nodes (tf_local ?s) ps = Some nd \<and> nd_kind nd = Directory)"
    by (simp_all add: u top works_def demo_local_def demo_fs_def resolve_def demo_dir_def put_node_def)
  have e: "\<not> empty_path (path_of_string ''/t'')" "\<not> empty_path (path_of_string ''/u'')"
    by (simp_all add: u empty_path_def)
  have dt: "local_tree demo_ls (tf_local ?s) ''/home/d'' demo_tree" using demo_local_tree by simp
  obtain s1 s2 where "upload_inner 6 reading_server demo_ls True ''/home/d'' ''/t'' ?s = (Some (Inr ()), s1)"
      "download_inner 6 reading_server True ''/t'' ''/u'' s1 = (Some (Inr ()), s2)"
      "\<forall>cs. node_matches (tree_at demo_tree cs) (nodes (tf_local s2) ([''u''] @ cs))"
    using uploaded_tree_downloads [OF reading_server_keeps reading_server_serves wn t dt r(1) e(1) r(2) _ r(3,4)
      l(1) e(2) l(2) _ l(3,4)] by blast
  then show ?thesis by (auto simp: demo_tree_def dest!: spec [of _ "[''f'']"])
qed

end
