(* ===== verification/Framing.thy ===== *)
theory Framing
  imports Codec
begin

text \<open>
  \<^verbatim>\<open>sqsh-core/src/transport/framing.rs\<close>: the framed halves of a stream, and the abstraction the other theories
  use for them. There a receiving half is the list of the messages to come and a sending half is a \<open>sink\<close>;
  here both are proved to be what the bytes on the wire amount to, also when the stream breaks in the middle of
  a frame.
\<close>

section \<open>The framed halves\<close>

record framed_sender =
  snd_inner :: writer

record framed_receiver =
  rcv_inner :: "byte list"

record framed_bi =
  bi_sender :: framed_sender
  bi_receiver :: framed_receiver

definition framed_sender_new :: "writer \<Rightarrow> framed_sender" where
  "framed_sender_new stream = \<lparr>snd_inner = stream\<rparr>"

definition framed_receiver_new :: "byte list \<Rightarrow> framed_receiver" where
  "framed_receiver_new stream = \<lparr>rcv_inner = stream\<rparr>"

definition framed_bi_new :: "writer \<Rightarrow> byte list \<Rightarrow> framed_bi" where
  "framed_bi_new out inp =
     \<lparr>bi_sender = framed_sender_new out, bi_receiver = framed_receiver_new inp\<rparr>"

definition framed_send ::
  "('m \<Rightarrow> string + byte list) \<Rightarrow> 'm \<Rightarrow> framed_sender \<Rightarrow> (sqsh_error + unit) \<times> framed_sender" where
  "framed_send ser msg s = (case write_message ser msg (snd_inner s) of
      (r, w) \<Rightarrow> (r, s\<lparr>snd_inner := w\<rparr>))"

text \<open>\<open>stopped\<close> is quinn's report that the stream was closed before.\<close>

definition framed_finish :: "string option \<Rightarrow> framed_sender \<Rightarrow> sqsh_error + unit" where
  "framed_finish stopped s = (case stopped of
      Some e \<Rightarrow> Inl (Protocol (''failed to finish stream: '' @ e))
    | None \<Rightarrow> Inr ())"

definition framed_recv ::
  "(byte list \<Rightarrow> string + 'm) \<Rightarrow> framed_receiver \<Rightarrow> sqsh_error + 'm \<times> framed_receiver" where
  "framed_recv de r = (case read_message de (rcv_inner r) of
      Inl e \<Rightarrow> Inl e
    | Inr (m, rest) \<Rightarrow> Inr (m, r\<lparr>rcv_inner := rest\<rparr>))"

section \<open>Streams of messages\<close>

text \<open>Sends until one fails, on the wire and on a sink.\<close>

fun framed_sends ::
  "('m \<Rightarrow> string + byte list) \<Rightarrow> 'm list \<Rightarrow> framed_sender \<Rightarrow> bool \<times> framed_sender" where
  "framed_sends ser [] s = (True, s)"
| "framed_sends ser (m # ms) s = (case framed_send ser m s of
      (Inl e, s1) \<Rightarrow> (False, s1)
    | (Inr _, s1) \<Rightarrow> framed_sends ser ms s1)"

fun sink_sends :: "'m list \<Rightarrow> 'm sink \<Rightarrow> bool \<times> 'm sink" where
  "sink_sends [] k = (True, k)"
| "sink_sends (m # ms) k = (case send m k of
      (False, k1) \<Rightarrow> (False, k1)
    | (True, k1) \<Rightarrow> sink_sends ms k1)"

text \<open>Receives until one fails; every message takes its header off the stream.\<close>

lemma read_message_shorter: "read_message de r = Inr (m, rest) \<Longrightarrow> length rest < length r"
  using take_frame_InrD(2) [of r] by (fastforce simp: read_message_def split: sum.splits)

function framed_recvs ::
  "(byte list \<Rightarrow> string + 'm) \<Rightarrow> framed_receiver \<Rightarrow> 'm list \<times> sqsh_error" where
  "framed_recvs de r = (case framed_recv de r of
      Inl e \<Rightarrow> ([], e)
    | Inr (m, r1) \<Rightarrow> (case framed_recvs de r1 of (ms, e) \<Rightarrow> (m # ms, e)))"
  by pat_completeness auto
termination
  by (relation "measure (\<lambda>(de, r). length (rcv_inner r))")
    (auto simp: framed_recv_def split: sum.splits dest: read_message_shorter)

declare framed_recvs.simps [simp del]

section \<open>Lemmas\<close>

lemma write_all_cases:
  obtains (all) w' where "write_all bs w = (Inr (), w')" "written w' = written w @ bs"
    | (part) n w' where "write_all bs w = (Inl OtherIo, w')" "n < length bs" "written w' = written w @ take n bs"
proof (cases "capacity w")
  case None
  with all show thesis by (simp add: write_all_def)
next
  case (Some n)
  with all part [of "w\<lparr>written := written w @ take n bs, capacity := Some 0\<rparr>" n] show thesis
    by (cases "length bs \<le> n") (simp_all add: write_all_def)
qed

text \<open>A frame is written whole, or the stream broke inside it.\<close>

lemma write_message_cases:
  assumes "ser m = Inr p" "fits p"
  obtains (all) w' where "write_message ser m w = (Inr (), w')" "written w' = written w @ frame p"
    | (part) n w' e where "write_message ser m w = (Inl e, w')" "n < length (frame p)"
        "written w' = written w @ take n (frame p)"
proof -
  let ?hdr = "u32_to_le_bytes (word_of_nat (length p))"
  have w: "write_message ser m w = (case write_all ?hdr w of
      (Inl e, w1) \<Rightarrow> (Inl (Io e), w1)
    | (Inr _, w1) \<Rightarrow> (case write_all p w1 of (Inl e, w2) \<Rightarrow> (Inl (Io e), w2) | (Inr _, w2) \<Rightarrow> (Inr (), w2)))"
    using assms by (simp add: write_message_def put_frame_def fits_def Let_def)
  show thesis
  proof (cases rule: write_all_cases [of ?hdr w])
    case (part n w')
    then show thesis by (intro that(2) [of "Io OtherIo" w' n]) (simp_all add: w frame_def)
  next
    case (all w1)
    show thesis
    proof (cases rule: write_all_cases [of p w1])
      case (all w2)
      with \<open>write_all ?hdr w = _\<close> \<open>written w1 = _\<close> show thesis
        by (intro that(1) [of w2]) (simp_all add: w frame_def)
    next
      case (part n w2)
      with all show thesis
        by (intro that(2) [of "Io OtherIo" w2 "4 + n"]) (simp_all add: w frame_def)
    qed
  qed
qed

lemma part_of_frame:
  assumes "fits p" "n < length (frame p)"
  shows "read_message de (take n (frame p)) = Inl (Io UnexpectedEof)"
proof (cases "n < 4")
  case True
  then show ?thesis by (simp add: read_message_def take_frame_def read_exact_def frame_def)
next
  case False
  have u: "unat (word_of_nat (length p) :: u32) = length p" using assms(1) by (simp add: fits_def unat_frame_len)
  then have "\<not> MAX_FRAME_SIZE < (word_of_nat (length p) :: u32)"
    using assms(1) by (simp add: word_less_nat_alt fits_def)
  with False assms(2) u show ?thesis
    by (auto simp: read_message_def take_frame_def read_exact_def frame_def Let_def)
qed

lemma framed_recvs_frame:
  "fits p \<Longrightarrow> de p = Inr m \<Longrightarrow> framed_recvs de \<lparr>rcv_inner = frame p @ rest\<rparr>
     = (case framed_recvs de \<lparr>rcv_inner = rest\<rparr> of (ms, e) \<Rightarrow> (m # ms, e))"
  by (subst framed_recvs.simps) (simp add: framed_recv_def read_message_frame)

lemma framed_recvs_end:
  "read_message de bs = Inl e \<Longrightarrow> framed_recvs de \<lparr>rcv_inner = bs\<rparr> = ([], e)"
  by (subst framed_recvs.simps) (simp add: framed_recv_def)

text \<open>
  What arrives at the other end of a stream on which messages were sent: the messages of the sends that
  succeeded.
\<close>

lemma sends_arrive:
  assumes "\<forall>m \<in> set ms. \<exists>p. ser m = Inr p \<and> fits p \<and> de p = Inr m"
  shows "\<exists>n bs. fst (framed_sends ser ms s) = (n = length ms)
    \<and> n \<le> length ms \<and> written (snd_inner (snd (framed_sends ser ms s))) = written (snd_inner s) @ bs
    \<and> framed_recvs de \<lparr>rcv_inner = bs\<rparr> = (take n ms, Io UnexpectedEof)"
  using assms
proof (induction ms arbitrary: s)
  case Nil
  then show ?case by (intro exI [of _ 0] exI [of _ "[]"]) (simp add: framed_recvs_end)
next
  case (Cons m ms)
  obtain p where p: "ser m = Inr p" "fits p" "de p = Inr m" using Cons.prems by auto
  from p(1,2) show ?case
  proof (cases rule: write_message_cases [where ser = ser and m = m and w = "snd_inner s"])
    case (all w')
    let ?s = "s\<lparr>snd_inner := w'\<rparr>"
    obtain n bs where n: "fst (framed_sends ser ms ?s) = (n = length ms)"
        "n \<le> length ms" "written (snd_inner (snd (framed_sends ser ms ?s))) = written w' @ bs"
        "framed_recvs de \<lparr>rcv_inner = bs\<rparr> = (take n ms, Io UnexpectedEof)"
      using Cons.IH [of ?s] Cons.prems by auto
    have "framed_sends ser (m # ms) s = framed_sends ser ms ?s" by (simp add: framed_send_def all)
    then show ?thesis
      using n(1) by (intro exI [of _ "Suc n"] exI [of _ "frame p @ bs"])
        (simp add: n(2,3,4) all framed_recvs_frame [of p de m bs, OF p(2,3)])
  next
    case (part n w' e)
    then show ?thesis
      by (intro exI [of _ 0] exI [of _ "take n (frame p)"])
        (simp add: framed_send_def framed_recvs_end [OF part_of_frame [OF p(2)]])
  qed
qed

lemma sink_sends_take:
  "sink_sends ms \<lparr>sent = old, room = Some n\<rparr>
     = (length ms \<le> n, \<lparr>sent = old @ take n ms, room = Some (n - length ms)\<rparr>)"
proof (induction ms arbitrary: old n)
  case (Cons m ms)
  then show ?case by (cases n) (auto simp: send_def)
qed simp

section \<open>Properties\<close>

text \<open>
  C20: framed streams are what the model takes them for. However a stream breaks, at any byte or not at all, there is a
  room for a sink such that the same sends succeed on both, and what the receiver gets before its first
  error is exactly what the sink holds: the messages in order, none of them damaged, and nothing of the
  message in which the stream broke.
\<close>

theorem framed_streams_refine_sinks:
  assumes "\<forall>m \<in> set ms. \<exists>p. ser m = Inr p \<and> fits p \<and> de p = Inr m" "written stream = []"
  shows "\<exists>n. case (framed_sends ser ms (framed_sender_new stream), sink_sends ms \<lparr>sent = [], room = Some n\<rparr>) of
      ((ok, s), (ok', k)) \<Rightarrow> ok = ok'
        \<and> framed_recvs de (framed_receiver_new (written (snd_inner s))) = (sent k, Io UnexpectedEof)"
proof -
  let ?s = "framed_sender_new stream"
  obtain n bs where n: "fst (framed_sends ser ms ?s) = (n = length ms)" "n \<le> length ms"
      "written (snd_inner (snd (framed_sends ser ms ?s))) = bs"
      "framed_recvs de \<lparr>rcv_inner = bs\<rparr> = (take n ms, Io UnexpectedEof)"
    using sends_arrive [OF assms(1), of ?s] assms(2) by (fastforce simp: framed_sender_new_def)
  then show ?thesis
    by (intro exI [of _ n]) (auto simp: sink_sends_take framed_receiver_new_def split: prod.split)
qed

section \<open>Witnesses\<close>

theorem framed_streams_refine_sinks_witness:
  "\<exists>n < 3. framed_recvs (Inr :: byte list \<Rightarrow> string + byte list) (framed_receiver_new (written (snd_inner
     (snd (framed_sends Inr [[1], [2, 3], [4]] (framed_sender_new \<lparr>written = [], capacity = Some 13\<rparr>))))))
   = (take n [[1], [2, 3], [4]], Io UnexpectedEof)"
proof -
  let ?s = "framed_sends Inr [[1], [2, 3], [4 :: byte]] (framed_sender_new \<lparr>written = [], capacity = Some 13\<rparr>)"
  have "fst ?s = False"
    by (simp add: framed_sender_new_def framed_send_def write_message_def put_frame_def write_all_def Let_def)
  moreover have "\<exists>n. case (?s, sink_sends [[1], [2, 3], [4]] \<lparr>sent = [], room = Some n\<rparr>) of
      ((ok, s), (ok', k)) \<Rightarrow> ok = ok'
        \<and> framed_recvs (Inr :: byte list \<Rightarrow> string + byte list) (framed_receiver_new (written (snd_inner s)))
          = (sent k, Io UnexpectedEof)"
    by (rule framed_streams_refine_sinks) (simp_all add: fits_def)
  then obtain n where "case (?s, sink_sends [[1], [2, 3], [4]] \<lparr>sent = [], room = Some n\<rparr>) of
      ((ok, s), (ok', k)) \<Rightarrow> ok = ok'
        \<and> framed_recvs (Inr :: byte list \<Rightarrow> string + byte list) (framed_receiver_new (written (snd_inner s)))
          = (sent k, Io UnexpectedEof)" ..
  ultimately show ?thesis
    by (intro exI [of _ n]) (auto simp: sink_sends_take split: prod.splits simp del: framed_sends.simps sink_sends.simps)
qed

end
