(* ===== verification/Select_Recv.thy ===== *)
theory Select_Recv
  imports Framing "HOL-Library.Sublist"
begin

text \<open>
  A receive as a branch of \<^verbatim>\<open>tokio::select!\<close>. \<^verbatim>\<open>recv\<close> of \<^verbatim>\<open>sqsh-core/src/transport/framing.rs\<close> is the future of
  \<^verbatim>\<open>read_message\<close> (\<^verbatim>\<open>proto/codec.rs\<close>), whose two \<^verbatim>\<open>read_exact\<close> keep the bytes they have taken in the future
  itself. When another branch of the \<^verbatim>\<open>select!\<close> completes, the future is dropped with them, and the loop makes
  a new one.
\<close>

section \<open>The future\<close>

text \<open>The bytes of the length taken so far; the four of the length, and those of the payload so far.\<close>

datatype recv_future = ReadingLen "byte list" | ReadingPayload "byte list" "byte list"

definition poll_payload :: "(byte list \<Rightarrow> string + 'm) \<Rightarrow> byte list \<Rightarrow> byte list \<Rightarrow> byte list
    \<Rightarrow> (recv_future + (sqsh_error + 'm)) \<times> byte list" where
  "poll_payload de len_buf buf avail =
     (let n = unat (u32_from_le_bytes len_buf) - length buf in
      if length avail < n then (Inl (ReadingPayload len_buf (buf @ avail)), [])
      else (Inr (case de (buf @ take n avail) of
               Inl e \<Rightarrow> Inl (Codec (''deserialize: '' @ e))
             | Inr m \<Rightarrow> Inr m), drop n avail))"

text \<open>A poll takes of the bytes that have arrived what the future still needs.\<close>

definition poll_recv :: "(byte list \<Rightarrow> string + 'm) \<Rightarrow> recv_future \<Rightarrow> byte list
    \<Rightarrow> (recv_future + (sqsh_error + 'm)) \<times> byte list" where
  "poll_recv de fut avail = (case fut of
      ReadingLen h \<Rightarrow>
        (let n = 4 - length h; len_buf = h @ take n avail; len = u32_from_le_bytes len_buf in
         if length avail < n then (Inl (ReadingLen (h @ avail)), [])
         else if MAX_FRAME_SIZE < len
         then (Inr (Inl (Codec (''frame too large: '' @ show_nat (unat len) @ '' bytes (max ''
               @ show_nat (unat MAX_FRAME_SIZE) @ '')''))), drop n avail)
         else poll_payload de len_buf [] (drop n avail))
    | ReadingPayload len_buf buf \<Rightarrow> poll_payload de len_buf buf avail)"

section \<open>The loop around it\<close>

text \<open>
  Bytes arrive; the \<^verbatim>\<open>select!\<close> polls the receive, which may complete; or it takes another branch. A receive that
  fails ends the loop, as it does wherever the sources have one.
\<close>

datatype select_event = BytesArrive "byte list" | RecvPolled | OtherBranch

record 'm select_recv =
  sr_future :: recv_future
  sr_buffer :: "byte list"
  sr_got :: "'m list"
  sr_error :: "sqsh_error option"

definition select_step ::
  "(byte list \<Rightarrow> string + 'm) \<Rightarrow> 'm select_recv \<Rightarrow> select_event \<Rightarrow> 'm select_recv" where
  "select_step de s ev =
     (if sr_error s \<noteq> None then s
      else case ev of
        BytesArrive bs \<Rightarrow> s\<lparr>sr_buffer := sr_buffer s @ bs\<rparr>
      | RecvPolled \<Rightarrow> (case poll_recv de (sr_future s) (sr_buffer s) of
            (Inl fut, rest) \<Rightarrow> s\<lparr>sr_future := fut, sr_buffer := rest\<rparr>
          | (Inr (Inr m), rest) \<Rightarrow> s\<lparr>sr_future := ReadingLen [], sr_buffer := rest, sr_got := sr_got s @ [m]\<rparr>
          | (Inr (Inl e), rest) \<Rightarrow> s\<lparr>sr_buffer := rest, sr_error := Some e\<rparr>)
      | OtherBranch \<Rightarrow> s\<lparr>sr_future := ReadingLen []\<rparr>)"

definition select_start :: "'m select_recv" where
  "select_start = \<lparr>sr_future = ReadingLen [], sr_buffer = [], sr_got = [], sr_error = None\<rparr>"

fun arrived :: "select_event list \<Rightarrow> byte list" where
  "arrived [] = []"
| "arrived (BytesArrive bs # evs) = bs @ arrived evs"
| "arrived (_ # evs) = arrived evs"

text \<open>Another branch is only taken while nothing of a frame has been.\<close>

fun between_frames :: "(byte list \<Rightarrow> string + 'm) \<Rightarrow> 'm select_recv \<Rightarrow> select_event list \<Rightarrow> bool" where
  "between_frames de s [] \<longleftrightarrow> True"
| "between_frames de s (ev # evs) \<longleftrightarrow>
     (ev = OtherBranch \<longrightarrow> sr_future s = ReadingLen []) \<and> between_frames de (select_step de s ev) evs"

section \<open>Lemmas\<close>

fun taken :: "recv_future \<Rightarrow> byte list" where
  "taken (ReadingLen h) = h"
| "taken (ReadingPayload len_buf buf) = len_buf @ buf"

fun under_way :: "recv_future \<Rightarrow> bool" where
  "under_way (ReadingLen h) \<longleftrightarrow> length h < 4"
| "under_way (ReadingPayload len_buf buf) \<longleftrightarrow> length len_buf = 4 \<and> \<not> MAX_FRAME_SIZE < u32_from_le_bytes len_buf
     \<and> length buf \<le> unat (u32_from_le_bytes len_buf)"

text \<open>A future that is kept goes on where it was: it does not matter in which pieces the bytes come.\<close>

lemma poll_resumes:
  assumes "under_way fut"
  shows "poll_recv de fut avail = poll_recv de (ReadingLen []) (taken fut @ avail)"
proof (cases fut)
  case (ReadingLen h)
  with assms show ?thesis by (auto simp: poll_recv_def Let_def)
next
  case (ReadingPayload len_buf buf)
  with assms show ?thesis by (auto simp: poll_recv_def poll_payload_def Let_def)
qed

lemma frame_length [simp]: "length (frame p) = 4 + length p"
  by (simp add: frame_def)

lemma frame_parts:
  "take 4 (frame p) = u32_to_le_bytes (word_of_nat (length p))" "drop 4 (frame p) = p"
  by (simp_all add: frame_def)

lemma frame_header:
  assumes "fits p"
  shows "u32_from_le_bytes (u32_to_le_bytes (word_of_nat (length p))) = (word_of_nat (length p) :: u32)"
    "unat (word_of_nat (length p) :: u32) = length p" "\<not> MAX_FRAME_SIZE < (word_of_nat (length p) :: u32)"
  using assms by (simp_all add: unat_frame_len fits_def word_less_nat_alt)

lemma poll_frame:
  assumes "fits p" "de p = Inr m"
  shows "poll_recv de (ReadingLen []) (frame p @ rest) = (Inr (Inr m), rest)"
  using frame_header [OF assms(1)] assms(2)
  by (simp add: poll_recv_def poll_payload_def frame_def Let_def)

lemma poll_part:
  assumes "fits p" "prefix c (frame p)" "length c < length (frame p)"
  shows "\<exists>fut. poll_recv de (ReadingLen []) c = (Inl fut, []) \<and> taken fut = c \<and> under_way fut"
proof (cases "length c < 4")
  case True
  then show ?thesis by (simp add: poll_recv_def Let_def)
next
  case False
  obtain d where d: "frame p = c @ d" using assms(2) by (auto simp: prefix_def)
  have h: "take 4 c = u32_to_le_bytes (word_of_nat (length p))"
    using frame_parts(1) [of p] False by (simp add: d)
  show ?thesis
    using False assms(3) frame_header [OF assms(1)]
    by (simp add: poll_recv_def poll_payload_def h Let_def) (simp flip: h)
qed

text \<open>\<open>k\<close> messages have been received, and what else arrived is taken or waits.\<close>

definition receiving :: "byte list list \<Rightarrow> 'm list \<Rightarrow> byte list \<Rightarrow> 'm select_recv \<Rightarrow> nat \<Rightarrow> bool" where
  "receiving ps ms arr s k \<longleftrightarrow> k \<le> length ps \<and> sr_got s = take k ms \<and> sr_error s = None \<and> under_way (sr_future s)
     \<and> arr = concat (map frame (take k ps)) @ taken (sr_future s) @ sr_buffer s"

definition messages_of :: "(byte list \<Rightarrow> string + 'm) \<Rightarrow> byte list list \<Rightarrow> 'm list \<Rightarrow> bool" where
  "messages_of de ps ms \<longleftrightarrow> list_all2 (\<lambda>p m. fits p \<and> de p = Inr m) ps ms"

lemma messages_ofD:
  "messages_of de ps ms \<Longrightarrow> k < length ps \<Longrightarrow> fits (ps ! k) \<and> de (ps ! k) = Inr (ms ! k) \<and> length ms = length ps"
  by (simp add: messages_of_def list_all2_conv_all_nth)

lemma receiving_poll:
  assumes "messages_of de ps ms" "receiving ps ms arr s k" "prefix arr (concat (map frame ps))"
  shows "receiving ps ms arr (select_step de s RecvPolled) k \<and> (arr = concat (map frame ps) \<longrightarrow> k = length ps)
    \<or> k < length ps \<and> receiving ps ms arr (select_step de s RecvPolled) (Suc k)"
proof -
  let ?c = "taken (sr_future s) @ sr_buffer s"
  have r: "k \<le> length ps" "sr_got s = take k ms" "sr_error s = None"
    "arr = concat (map frame (take k ps)) @ ?c" using assms(2) by (simp_all add: receiving_def)
  have poll: "poll_recv de (sr_future s) (sr_buffer s) = poll_recv de (ReadingLen []) ?c"
    using assms(2) by (intro poll_resumes) (simp add: receiving_def)
  have "concat (map frame ps) = concat (map frame (take k ps)) @ concat (map frame (drop k ps))"
    by (metis append_take_drop_id concat_append map_append)
  then have c: "prefix ?c (concat (map frame (drop k ps)))"
    and whole: "arr = concat (map frame ps) \<Longrightarrow> ?c = concat (map frame (drop k ps))"
    using assms(3) r(4) by simp_all
  show ?thesis
  proof (cases "k < length ps")
    case False
    then have "?c = []" using c by simp
    have "poll_recv de (ReadingLen []) [] = (Inl (ReadingLen []), [])" by (simp add: poll_recv_def)
    with poll \<open>?c = []\<close> have "poll_recv de (sr_future s) (sr_buffer s) = (Inl (ReadingLen []), [])" by simp
    with False r \<open>?c = []\<close> show ?thesis by (simp add: select_step_def receiving_def)
  next
    case True
    let ?p = "ps ! k"
    have m: "fits ?p" "de ?p = Inr (ms ! k)" "length ms = length ps" using messages_ofD [OF assms(1) True] by auto
    have d: "concat (map frame (drop k ps)) = frame ?p @ concat (map frame (drop (Suc k) ps))"
      using True by (simp add: Cons_nth_drop_Suc [symmetric])
    show ?thesis
    proof (cases "length ?c < length (frame ?p)")
      case part: True
      then have "prefix ?c (frame ?p)"
        using c unfolding d by (metis less_imp_le prefix_append prefix_length_prefix prefixI)
      from poll_part [OF m(1) this part] obtain fut where
        fut: "poll_recv de (ReadingLen []) ?c = (Inl fut, [])" "taken fut = ?c" "under_way fut" by blast
      have "arr \<noteq> concat (map frame ps)"
      proof
        assume "arr = concat (map frame ps)"
        then have "length ?c = length (frame ?p) + length (concat (map frame (drop (Suc k) ps)))"
          using whole d by (metis length_append)
        with part show False by linarith
      qed
      with fut r poll show ?thesis by (simp add: select_step_def receiving_def)
    next
      case False
      have "prefix (frame ?p) ?c"
        using c False unfolding d by (metis not_le prefixI prefix_length_prefix)
      then obtain rest where rest: "?c = frame ?p @ rest" by (auto simp: prefix_def)
      have "poll_recv de (sr_future s) (sr_buffer s) = (Inr (Inr (ms ! k)), rest)"
        using poll poll_frame [of ?p de "ms ! k" rest] m(1,2) unfolding rest by simp
      moreover have "take (Suc k) ps = take k ps @ [?p]" "take (Suc k) ms = take k ms @ [ms ! k]"
        using True m(3) by (simp_all add: take_Suc_conv_app_nth)
      ultimately show ?thesis
        using True r(2-4) rest by (simp add: select_step_def receiving_def)
    qed
  qed
qed

lemma receiving_step:
  assumes "messages_of de ps ms" "receiving ps ms arr s k" "prefix (arr @ arrived [ev]) (concat (map frame ps))"
    and "ev = OtherBranch \<longrightarrow> sr_future s = ReadingLen []"
  shows "\<exists>k'. receiving ps ms (arr @ arrived [ev]) (select_step de s ev) k'"
proof (cases ev)
  case RecvPolled
  with receiving_poll [OF assms(1,2)] assms(3) show ?thesis by auto
qed (use assms(2,4) in \<open>auto simp: receiving_def select_step_def\<close>)

lemma receiving_run:
  "messages_of de ps ms \<Longrightarrow> receiving ps ms arr s k \<Longrightarrow> prefix (arr @ arrived evs) (concat (map frame ps)) \<Longrightarrow>
     between_frames de s evs \<Longrightarrow> \<exists>k'. receiving ps ms (arr @ arrived evs) (foldl (select_step de) s evs) k'"
proof (induction evs arbitrary: arr s k)
  case (Cons ev evs)
  have a: "arrived (ev # evs) = arrived [ev] @ arrived evs" by (cases ev) simp_all
  then have "prefix (arr @ arrived [ev]) (concat (map frame ps))"
    using Cons.prems(3) by (metis append.assoc append_prefixD)
  with receiving_step [OF Cons.prems(1,2)] Cons.prems(4) obtain k' where
    "receiving ps ms (arr @ arrived [ev]) (select_step de s ev) k'" by auto
  from Cons.IH [OF Cons.prems(1) this] Cons.prems(3,4) a show ?case by simp
qed auto

lemma polls_finish:
  assumes "messages_of de ps ms" "receiving ps ms (concat (map frame ps)) s k" "length ps - k \<le> n"
  shows "sr_got (foldl (select_step de) s (replicate n RecvPolled)) = ms"
  using assms(2,3)
proof (induction n arbitrary: s k)
  case 0
  then show ?case using assms(1) by (auto simp: receiving_def messages_of_def dest: list_all2_lengthD)
next
  case (Suc n)
  from receiving_poll [OF assms(1) Suc.prems(1)] consider
      "receiving ps ms (concat (map frame ps)) (select_step de s RecvPolled) k" "k = length ps"
    | "receiving ps ms (concat (map frame ps)) (select_step de s RecvPolled) (Suc k)" by auto
  then show ?case
  proof cases
    case 1
    with Suc.IH [OF 1(1)] show ?thesis by simp
  next
    case 2
    with Suc.IH [OF 2] Suc.prems(2) show ?thesis by simp
  qed
qed

section \<open>Properties\<close>

text \<open>
  C21: a receive in a loop gets the messages as they were sent, in whatever pieces their bytes come and however
  often it is polled, as long as the loop takes its other branches between frames only; it never fails, and once
  all bytes have come, as many polls as there are messages get them all.
\<close>

theorem select_receives_in_order:
  assumes "list_all2 (\<lambda>p m. fits p \<and> de p = Inr m) ps ms" "prefix (arrived evs) (concat (map frame ps))"
    and "between_frames de select_start evs"
  shows "let s = foldl (select_step de) select_start evs in
     prefix (sr_got s) ms \<and> sr_error s = None
     \<and> (arrived evs = concat (map frame ps) \<longrightarrow>
          sr_got (foldl (select_step de) s (replicate (length ps) RecvPolled)) = ms)"
proof -
  have m: "messages_of de ps ms" using assms(1) by (simp add: messages_of_def)
  have "receiving ps ms [] select_start 0" by (simp add: receiving_def select_start_def)
  from receiving_run [OF m this _ assms(3)] assms(2) obtain k where
    k: "receiving ps ms (arrived evs) (foldl (select_step de) select_start evs) k" by auto
  with polls_finish [OF m, of _ k "length ps"] show ?thesis
    by (auto simp: Let_def receiving_def take_is_prefix)
qed

text \<open>
  C22: a receive that another branch cuts off makes data into messages. If a frame is cut off within its payload and
  what follows there has the form of a frame itself, the loop receives that frame's message next, which the
  other end never sent.
\<close>

theorem cut_off_receive_forges_message:
  assumes "de q = Inr forged" "fits q" "fits payload" "payload = before @ frame q @ after"
  shows "\<exists>evs. arrived evs = frame payload
    \<and> sr_got (foldl (select_step de) select_start evs) = [forged]
    \<and> sr_error (foldl (select_step de) select_start evs) = None"
proof -
  let ?head = "u32_to_le_bytes (word_of_nat (length payload)) @ before"
  let ?evs = "[BytesArrive ?head, RecvPolled, OtherBranch, BytesArrive (frame q @ after), RecvPolled]"
  have f: "frame payload = ?head @ frame q @ after" using assms(4) by (simp add: frame_def)
  from poll_part [OF assms(3), of ?head] obtain fut where
    "poll_recv de (ReadingLen []) ?head = (Inl fut, [])" using f by (auto simp: prefix_def simp: assms(4))
  then have "foldl (select_step de) select_start ?evs
      = \<lparr>sr_future = ReadingLen [], sr_buffer = after, sr_got = [forged], sr_error = None\<rparr>"
    using poll_frame [of q de forged after] assms(1,2) by (simp add: select_step_def select_start_def)
  with f show ?thesis by (intro exI [of _ ?evs]) simp
qed

section \<open>Witnesses\<close>

theorem select_receives_in_order_witness:
  "sr_got (foldl (select_step (Inr :: byte list \<Rightarrow> string + byte list)) select_start
     ([BytesArrive [1, 0], RecvPolled, RecvPolled, BytesArrive [0, 0, 7, 1, 0, 0], RecvPolled, OtherBranch, RecvPolled,
       BytesArrive [0, 8]] @ replicate 2 RecvPolled)) = [[7], [8]]"
proof -
  let ?evs = "[BytesArrive [1, 0], RecvPolled, RecvPolled, BytesArrive [0, 0, 7, 1, 0, 0], RecvPolled, OtherBranch,
    RecvPolled, BytesArrive [0, 8 :: byte]]"
  have "between_frames (Inr :: byte list \<Rightarrow> string + byte list) select_start ?evs"
    by code_simp
  moreover have "arrived ?evs = concat (map frame [[7], [8]])" by code_simp
  ultimately show ?thesis
    using select_receives_in_order [of "Inr :: byte list \<Rightarrow> string + byte list" "[[7], [8]]" "[[7], [8]]" ?evs]
    by (simp add: fits_def Let_def numeral_2_eq_2 del: select_step_def)
qed

theorem cut_off_receive_forges_message_witness:
  "\<exists>evs. arrived evs = frame ([65, 66] @ frame [9] @ [67])
     \<and> sr_got (foldl (select_step (Inr :: byte list \<Rightarrow> string + byte list)) select_start evs) = [[9]]"
  using cut_off_receive_forges_message [of "Inr :: byte list \<Rightarrow> string + byte list" "[9]" "[9]" "[65, 66] @ frame [9] @ [67]" "[65, 66]" "[67]"]
  by (auto simp: fits_def)

end
