(* ===== verification/Server_Process.thy ===== *)
theory Server_Process
  imports Server_Listener
begin

text \<open>
  The serving process as a whole: the accept loop of \<^verbatim>\<open>sqshd/src/listener.rs\<close> composed with the connections it
  hands to \<^verbatim>\<open>connection::handle\<close>. One task serves each connection; it holds a permit until \<open>handle\<close> returns,
  and the tasks that \<open>handle\<close> spawned for channels and forwards may run on after that, since they hold
  streams or a handle of the connection, which keeps it open.
\<close>

section \<open>The process\<close>

datatype conn_task =
    Handshaking
  | Handling string conn
  | Returned string conn
  | Gone

text \<open>The connections are numbered in the order their tasks were spawned.\<close>

record server =
  sv_listener :: listener
  sv_tasks :: "conn_task list"

text \<open>
  \<open>Authenticating i fs nonce ms k\<close>: on connection \<open>i\<close> the exchange reads the messages \<open>ms\<close>, with the files as
  they are then. \<open>HandshakeFails\<close>: \<^verbatim>\<open>incoming.await\<close> or the first \<^verbatim>\<open>accept_bi\<close> fails.
\<close>

datatype server_event =
    Incoming
  | EndpointEnds
  | HandshakeFails nat
  | Authenticating nat fsys "byte list" "control_message list" "control_message sink"
  | OnConnection nat conn_event

definition accepted_now :: "nat \<Rightarrow> listener \<Rightarrow> conn_task list" where
  "accepted_now before l = replicate (ls_active l - before) Handshaking"

text \<open>A connection arrives at the accept loop.\<close>

definition arrives :: "server \<Rightarrow> server" where
  "arrives s = (let l = listen_step (sv_listener s) ConnectionArrives in
     \<lparr>sv_listener = l, sv_tasks = sv_tasks s @ accepted_now (ls_active (sv_listener s)) l\<rparr>)"

text \<open>The task that serves a connection drops its permit, which the loop may be waiting for.\<close>

definition task_over :: "nat \<Rightarrow> conn_task \<Rightarrow> server \<Rightarrow> server" where
  "task_over i t s = (let l = listen_step (sv_listener s) TaskEnds in
     \<lparr>sv_listener = l, sv_tasks = (sv_tasks s)[i := t] @ accepted_now (ls_active (sv_listener s) - 1) l\<rparr>)"

definition put_task :: "nat \<Rightarrow> conn_task \<Rightarrow> server \<Rightarrow> server" where
  "put_task i t s = s\<lparr>sv_tasks := (sv_tasks s)[i := t]\<rparr>"

definition task_of :: "server \<Rightarrow> nat \<Rightarrow> conn_task" where
  "task_of s i = (if i < length (sv_tasks s) then sv_tasks s ! i else Gone)"

text \<open>\<open>connection::handle\<close> of connection \<open>i\<close>, step by step.\<close>

definition handle_starts :: "('vk, 'sig) auth_library \<Rightarrow> server_config \<Rightarrow> nat \<Rightarrow> fsys \<Rightarrow> byte list
    \<Rightarrow> control_message list \<Rightarrow> control_message sink \<Rightarrow> server \<Rightarrow> server" where
  "handle_starts lib cfg i fs nonce ms k s = (case task_of s i of
      Handshaking \<Rightarrow> (case authenticate lib cfg fs nonce ms k of
          (Inl e, rest, k1) \<Rightarrow> task_over i Gone s
        | (Inr username, rest, k1) \<Rightarrow> put_task i (Handling username (conn_start cfg k1)) s)
    | _ \<Rightarrow> s)"

definition handle_steps :: "server_config \<Rightarrow> nat \<Rightarrow> conn_event \<Rightarrow> server \<Rightarrow> server" where
  "handle_steps cfg i e s = (case task_of s i of
      Handling username c \<Rightarrow>
        (let c' = conn_step cfg c e in
         if c_conn_status c' = ConnRunning then put_task i (Handling username c') s
         else task_over i (Returned username c') s)
    | Returned username c \<Rightarrow> put_task i (Returned username (conn_step cfg c e)) s
    | _ \<Rightarrow> s)"

text \<open>When the endpoint ends, so does \<open>run\<close>, and with \<open>main\<close> the runtime with every task.\<close>

definition server_step ::
  "('vk, 'sig) auth_library \<Rightarrow> server_config \<Rightarrow> server \<Rightarrow> server_event \<Rightarrow> server" where
  "server_step lib cfg s ev =
     (if ls_closed (sv_listener s) then s
      else case ev of
        Incoming \<Rightarrow> arrives s
      | EndpointEnds \<Rightarrow> \<lparr>sv_listener = listen_step (sv_listener s) EndpointCloses, sv_tasks = []\<rparr>
      | HandshakeFails i \<Rightarrow> (case task_of s i of Handshaking \<Rightarrow> task_over i Gone s | _ \<Rightarrow> s)
      | Authenticating i fs nonce ms k \<Rightarrow> handle_starts lib cfg i fs nonce ms k s
      | OnConnection i e \<Rightarrow> handle_steps cfg i e s)"

definition server_start :: "server_config \<Rightarrow> server" where
  "server_start cfg = \<lparr>sv_listener = listen_start cfg, sv_tasks = []\<rparr>"

section \<open>The invariant\<close>

fun serving :: "conn_task \<Rightarrow> bool" where
  "serving Handshaking \<longleftrightarrow> True"
| "serving (Handling u c) \<longleftrightarrow> True"
| "serving (Returned u c) \<longleftrightarrow> False"
| "serving Gone \<longleftrightarrow> False"

fun task_conn :: "conn_task \<Rightarrow> (string \<times> conn) option" where
  "task_conn (Handling u c) = Some (u, c)"
| "task_conn (Returned u c) = Some (u, c)"
| "task_conn Handshaking = None"
| "task_conn Gone = None"

definition count_serving :: "conn_task list \<Rightarrow> nat" where
  "count_serving ts = length (filter serving ts)"

text \<open>
  What the process is made of: its listener is one the accept loop reaches, each of its connections is one
  that \<open>conn_handle\<close> reaches, and a permit is out for exactly each connection that is being served.
\<close>

definition handled :: "('vk, 'sig) auth_library \<Rightarrow> server_config \<Rightarrow> string \<times> conn \<Rightarrow> bool" where
  "handled lib cfg r \<longleftrightarrow> (\<exists>fs nonce ms es k. conn_handle lib cfg fs nonce ms es k = Inr r)"

definition server_inv :: "('vk, 'sig) auth_library \<Rightarrow> server_config \<Rightarrow> server \<Rightarrow> bool" where
  "server_inv lib cfg s \<longleftrightarrow>
     (\<exists>ls. sv_listener s = foldl listen_step (listen_start cfg) ls)
     \<and> (if ls_closed (sv_listener s) then sv_tasks s = []
        else count_serving (sv_tasks s) = ls_active (sv_listener s))
     \<and> (\<forall>t \<in> set (sv_tasks s). \<forall>r. task_conn t = Some r \<longrightarrow> handled lib cfg r)"

lemma handled_start:
  "authenticate lib cfg fs nonce ms k = (Inr u, rest, k1) \<Longrightarrow> handled lib cfg (u, conn_start cfg k1)"
  unfolding handled_def
  by (intro exI [of _ fs] exI [of _ nonce] exI [of _ ms] exI [of _ "[]"] exI [of _ k]) (simp add: conn_handle_def)

lemma handled_step: "handled lib cfg (u, c) \<Longrightarrow> handled lib cfg (u, conn_step cfg c e)"
  unfolding handled_def
proof (elim exE)
  fix fs nonce ms es k assume "conn_handle lib cfg fs nonce ms es k = Inr (u, c)"
  then have "conn_handle lib cfg fs nonce ms (es @ [e]) k = Inr (u, conn_step cfg c e)"
    by (auto simp: conn_handle_def split: prod.splits sum.splits)
  then show "\<exists>fs nonce ms es k. conn_handle lib cfg fs nonce ms es k = Inr (u, conn_step cfg c e)" by blast
qed

lemma count_serving_simps [simp]:
  "count_serving [] = 0" "count_serving (t # ts) = (if serving t then Suc (count_serving ts) else count_serving ts)"
  "count_serving (xs @ ys) = count_serving xs + count_serving ys"
  "count_serving (accepted_now b l) = ls_active l - b"
  by (simp_all add: count_serving_def accepted_now_def)

lemma count_serving_update:
  "i < length ts \<Longrightarrow> serving (ts ! i) \<Longrightarrow>
     count_serving (ts[i := t]) = (if serving t then count_serving ts else count_serving ts - 1)
     \<and> count_serving ts > 0"
  by (induction ts arbitrary: i) (auto split: nat.splits simp: nth_Cons)

lemma count_serving_update_idle:
  "i < length ts \<Longrightarrow> \<not> serving (ts ! i) \<Longrightarrow> \<not> serving t \<Longrightarrow> count_serving (ts[i := t]) = count_serving ts"
  by (induction ts arbitrary: i) (auto split: nat.splits simp: nth_Cons)

lemma listener_snoc:
  "\<exists>ls. l = foldl listen_step l0 ls \<Longrightarrow> \<exists>ls. listen_step l e = foldl listen_step l0 ls"
  by (metis foldl_Cons foldl_Nil foldl_append)

lemma task_ofD: "task_of s i = t \<Longrightarrow> t \<noteq> Gone \<Longrightarrow> i < length (sv_tasks s) \<and> sv_tasks s ! i = t"
  by (simp add: task_of_def split: if_splits)

lemma listen_step_open: "e \<noteq> EndpointCloses \<Longrightarrow> ls_closed (listen_step l e) = ls_closed l"
  by (cases e) (simp_all add: listen_step_def accept_waiting_def Let_def)

lemma active_after_arrival: "ls_active l \<le> ls_active (listen_step l ConnectionArrives)"
  by (simp add: listen_step_def accept_waiting_def Let_def)

lemma active_after_end: "ls_active l - 1 \<le> ls_active (listen_step l TaskEnds)"
  by (auto simp: listen_step_def accept_waiting_def Let_def)

lemma put_task_inv:
  assumes "server_inv lib cfg s" "task_of s i = t0" "t0 \<noteq> Gone" "serving t = serving t0"
    and "\<And>r. task_conn t = Some r \<Longrightarrow> handled lib cfg r"
  shows "server_inv lib cfg (put_task i t s)"
proof -
  note i = task_ofD [OF assms(2,3)]
  have "count_serving ((sv_tasks s)[i := t]) = count_serving (sv_tasks s)"
    using count_serving_update [of i "sv_tasks s" t] count_serving_update_idle [of i "sv_tasks s" t] i assms(4)
    by (cases "serving t0") auto
  moreover have "sv_tasks s \<noteq> []" using i by auto
  ultimately show ?thesis
    using assms(1,5) unfolding server_inv_def put_task_def
    by (auto dest!: set_update_subset_insert [THEN subsetD])
qed

lemma task_over_inv:
  assumes "server_inv lib cfg s" "task_of s i = t0" "serving t0" "\<not> serving t"
    and "\<And>r. task_conn t = Some r \<Longrightarrow> handled lib cfg r"
  shows "server_inv lib cfg (task_over i t s)"
proof -
  let ?l = "sv_listener s"
  have i: "i < length (sv_tasks s)" "serving (sv_tasks s ! i)"
    using task_ofD [OF assms(2)] assms(3) by (cases t0; simp)+
  then have op: "\<not> ls_closed ?l" using assms(1) by (auto simp: server_inv_def)
  then have n: "count_serving (sv_tasks s) = ls_active ?l" using assms(1) by (simp add: server_inv_def)
  have "count_serving ((sv_tasks s)[i := t] @ accepted_now (ls_active ?l - 1) (listen_step ?l TaskEnds))
      = ls_active (listen_step ?l TaskEnds)"
    using count_serving_update [OF i, of t] assms(4) n active_after_end [of ?l] by simp
  moreover have "\<exists>ls. listen_step ?l TaskEnds = foldl listen_step (listen_start cfg) ls"
    using assms(1) by (intro listener_snoc) (simp add: server_inv_def)
  ultimately show ?thesis
    using assms(1,5) op unfolding server_inv_def task_over_def
    by (auto simp: Let_def listen_step_open accepted_now_def dest!: set_update_subset_insert [THEN subsetD])
qed

lemma arrives_inv:
  assumes "server_inv lib cfg s" "\<not> ls_closed (sv_listener s)"
  shows "server_inv lib cfg (arrives s)"
proof -
  have "\<exists>ls. listen_step (sv_listener s) ConnectionArrives = foldl listen_step (listen_start cfg) ls"
    using assms(1) by (intro listener_snoc) (simp add: server_inv_def)
  then show ?thesis
    using assms active_after_arrival [of "sv_listener s"] unfolding server_inv_def arrives_def
    by (auto simp: Let_def listen_step_open accepted_now_def) (simp add: count_serving_def)
qed

lemma handle_starts_inv:
  "server_inv lib cfg s \<Longrightarrow> server_inv lib cfg (handle_starts lib cfg i fs nonce ms k s)"
  by (auto simp: handle_starts_def handled_start split: conn_task.split prod.split sum.split
      intro!: task_over_inv [where ?t0.0 = Handshaking] put_task_inv [where ?t0.0 = Handshaking])

lemma task_handled:
  "server_inv lib cfg s \<Longrightarrow> task_conn (task_of s i) = Some r \<Longrightarrow> handled lib cfg r"
  by (cases r) (auto simp: server_inv_def task_of_def split: if_splits dest!: nth_mem)

lemma handle_steps_inv:
  assumes "server_inv lib cfg s"
  shows "server_inv lib cfg (handle_steps cfg i e s)"
proof (cases "task_of s i")
  case (Handling u c)
  then have "handled lib cfg (u, conn_step cfg c e)"
    using task_handled [OF assms, of i] by (auto intro: handled_step)
  then show ?thesis
    using assms Handling
    by (auto simp: handle_steps_def Let_def intro!: task_over_inv [OF _ Handling] put_task_inv [OF _ Handling])
next
  case (Returned u c)
  then have "handled lib cfg (u, conn_step cfg c e)"
    using task_handled [OF assms, of i] by (auto intro: handled_step)
  then show ?thesis
    using assms Returned by (auto simp: handle_steps_def intro!: put_task_inv [OF _ Returned])
qed (use assms in \<open>simp_all add: handle_steps_def\<close>)

lemma server_step_inv: "server_inv lib cfg s \<Longrightarrow> server_inv lib cfg (server_step lib cfg s ev)"
proof (cases ev)
  case EndpointEnds
  assume s: "server_inv lib cfg s"
  then have "\<exists>ls. listen_step (sv_listener s) EndpointCloses = foldl listen_step (listen_start cfg) ls"
    by (intro listener_snoc) (simp add: server_inv_def)
  with s EndpointEnds show ?thesis by (auto simp: server_step_def server_inv_def listen_step_def)
qed (auto simp: server_step_def arrives_inv handle_starts_inv handle_steps_inv split: conn_task.split
    intro!: task_over_inv [where ?t0.0 = Handshaking])

lemma server_start_inv: "server_inv lib cfg (server_start cfg)"
  by (auto simp: server_inv_def server_start_def listen_start_def intro: exI [of _ "[]"])

interpretation process: event_loop "server_step lib cfg" "server_inv lib cfg" for lib cfg
  by unfold_locales (rule server_step_inv)

section \<open>Properties\<close>

definition conns :: "server \<Rightarrow> conn list" where
  "conns s = concat (map (\<lambda>t. case task_conn t of None \<Rightarrow> [] | Some (u, c) \<Rightarrow> [c]) (sv_tasks s))"

definition served_conns :: "server \<Rightarrow> conn list" where
  "served_conns s = concat (map (\<lambda>t. case t of Handling u c \<Rightarrow> [c] | _ \<Rightarrow> []) (sv_tasks s))"

definition running_channels :: "conn list \<Rightarrow> nat" where
  "running_channels cs = sum_list (map (length \<circ> c_channels) cs)"

definition running_listeners :: "conn list \<Rightarrow> nat" where
  "running_listeners cs = sum_list (map (length \<circ> c_listeners) cs)"

definition server_run ::
  "('vk, 'sig) auth_library \<Rightarrow> server_config \<Rightarrow> server_event list \<Rightarrow> server" where
  "server_run lib cfg evs = foldl (server_step lib cfg) (server_start cfg) evs"

lemma server_run_inv: "server_inv lib cfg (server_run lib cfg evs)"
  unfolding server_run_def by (rule process.inv_run) (rule server_start_inv)


lemma served_length: "length (served_conns s) \<le> count_serving (sv_tasks s)"
proof -
  have "length (concat (map (\<lambda>t. case t of Handling u c \<Rightarrow> [c] | _ \<Rightarrow> []) ts)) \<le> count_serving ts" for ts
    by (induction ts) (auto split: conn_task.split)
  then show ?thesis by (simp add: served_conns_def)
qed

lemma sum_list_le_bound: "(\<And>x. x \<in> set xs \<Longrightarrow> f x \<le> b) \<Longrightarrow> sum_list (map f xs) \<le> length xs * (b::nat)"
  by (induction xs) (auto intro: add_mono)

lemma handled_limits:
  assumes "handled lib cfg (u, c)"
  shows "length (c_channels c) \<le> max_channels_per_connection cfg
    \<and> length (c_listeners c) \<le> max_remote_forwards_per_connection cfg"
proof -
  obtain fs nonce ms es k where "conn_handle lib cfg fs nonce ms es k = Inr (u, c)"
    using assms by (auto simp: handled_def)
  then obtain k1 where "c = foldl (conn_step cfg) (conn_start cfg k1) es"
    by (auto simp: conn_handle_def split: prod.splits sum.splits)
  then have inv: "conn_inv cfg c" using connection.inv_run [OF conn_start_inv] by simp
  then have "c_permits c + length (c_channels c) = max_channels_per_connection cfg"
      "length (c_forwards c) \<le> max_remote_forwards_per_connection cfg" by (simp_all add: conn_inv_def)
  with inv_listeners_distinct [OF inv] show ?thesis by auto
qed

text \<open>
  C10: what a server does for the connections it serves is bounded by its configuration: there are at most
  \<^verbatim>\<open>max_connections\<close> of them, the ones that have not authenticated yet included, and so at most that many times
  the limits of one connection in channels and in listeners.
\<close>

theorem server_within_limits:
  "let s = server_run lib cfg evs in
     count_serving (sv_tasks s) \<le> max_connections cfg
     \<and> running_channels (served_conns s) \<le> max_connections cfg * max_channels_per_connection cfg
     \<and> running_listeners (served_conns s) \<le> max_connections cfg * max_remote_forwards_per_connection cfg"
proof -
  let ?s = "server_run lib cfg evs"
  note inv = server_run_inv [of lib cfg evs]
  obtain ls where ls: "sv_listener ?s = foldl listen_step (listen_start cfg) ls"
    using inv by (auto simp: server_inv_def)
  have "listen_inv (max_connections cfg) (sv_listener ?s)" unfolding ls by (rule accepting.inv_run) simp
  then have "ls_active (sv_listener ?s) \<le> max_connections cfg" by (simp add: listen_inv_def)
  then have n: "count_serving (sv_tasks ?s) \<le> max_connections cfg"
    using inv by (auto simp: server_inv_def split: if_splits)
  then have m: "length (served_conns ?s) \<le> max_connections cfg" using served_length le_trans by blast
  have h: "\<exists>u. handled lib cfg (u, c)" if "c \<in> set (served_conns ?s)" for c
    using that inv by (fastforce simp: served_conns_def server_inv_def split: conn_task.splits)
  have "running_channels (served_conns ?s) \<le> length (served_conns ?s) * max_channels_per_connection cfg"
    unfolding running_channels_def by (rule sum_list_le_bound) (use h handled_limits in fastforce)
  moreover have "running_listeners (served_conns ?s) \<le> length (served_conns ?s) * max_remote_forwards_per_connection cfg"
    unfolding running_listeners_def by (rule sum_list_le_bound) (use h handled_limits in fastforce)
  ultimately show ?thesis using n m by (auto simp: Let_def intro: order_trans mult_le_mono1)
qed

section \<open>Connections that are left behind\<close>

text \<open>
  One client's round: it connects, logs in, opens a channel, and ends its control stream while the channel
  goes on. \<open>handle\<close> returns, and its permit is free again.
\<close>

definition leave_channel :: "(nat \<Rightarrow> fsys) \<Rightarrow> (nat \<Rightarrow> byte list) \<Rightarrow> (nat \<Rightarrow> control_message list)
    \<Rightarrow> control_message sink \<Rightarrow> nat \<Rightarrow> server_event list" where
  "leave_channel fs nonce ms k i = [Incoming, Authenticating i (fs i) (nonce i) (ms i) k,
     OnConnection i StreamAccepted, OnConnection i (ControlReceived None)]"

definition left_behind :: "server_config \<Rightarrow> nat \<Rightarrow> server \<Rightarrow> bool" where
  "left_behind cfg n s \<longleftrightarrow> sv_listener s = listen_start cfg \<and> length (sv_tasks s) = n
     \<and> running_channels (conns s) = n \<and> count_serving (sv_tasks s) = 0"

lemma task_of_last:
  "length ts = n \<Longrightarrow> task_of \<lparr>sv_listener = l, sv_tasks = ts @ [t]\<rparr> n = t"
  "length ts = n \<Longrightarrow> (ts @ [t])[n := t'] = ts @ [t']"
  by (auto simp: task_of_def list_update_append)

lemma leave_channel_round:
  assumes "left_behind cfg n s" "authenticate lib cfg (fs n) (nonce n) (ms n) k = (Inr u, rest, k1)"
    and "0 < max_connections cfg" "0 < max_channels_per_connection cfg"
  shows "left_behind cfg (Suc n) (foldl (server_step lib cfg) s (leave_channel fs nonce ms k n))"
proof -
  obtain p where p: "max_channels_per_connection cfg = Suc p" using assms(4) gr0_implies_Suc by blast
  define l where "l = (listen_start cfg)\<lparr>ls_permits := max_connections cfg - 1, ls_active := 1\<rparr>"
  define c where "c = (conn_start cfg k1)\<lparr>c_permits := p, c_channels := [0], c_next := 1\<rparr>"
  define d where "d = c\<lparr>c_conn_status := ConnClosed\<rparr>"
  define ts where "ts = sv_tasks s"
  have s: "s = \<lparr>sv_listener = listen_start cfg, sv_tasks = ts\<rparr>" "length ts = n"
    using assms(1) by (simp_all add: left_behind_def ts_def)
  have op: "\<not> ls_closed (listen_start cfg)" "\<not> ls_closed l" "ls_active l = 1" "ls_active (listen_start cfg) = 0"
    by (simp_all add: l_def listen_start_def)
  have arr: "listen_step (listen_start cfg) ConnectionArrives = l"
    using assms(3) by (simp add: l_def listen_step_def listen_start_def accept_waiting_def Let_def min_def)
  have ended: "listen_step l TaskEnds = listen_start cfg"
    using assms(3) by (simp add: l_def listen_step_def listen_start_def accept_waiting_def Let_def)
  have c: "conn_step cfg (conn_start cfg k1) StreamAccepted = c" "c_conn_status c = ConnRunning"
    "conn_step cfg c (ControlReceived None) = d" "c_conn_status d = ConnClosed" "c_channels d = [0]"
    using p by (simp_all add: c_def d_def conn_step_def stream_accepted_def conn_start_def control_received_def)
  have 1: "server_step lib cfg s Incoming = \<lparr>sv_listener = l, sv_tasks = ts @ [Handshaking]\<rparr>"
    by (simp add: s server_step_def arrives_def arr op accepted_now_def Let_def)
  have 2: "server_step lib cfg \<lparr>sv_listener = l, sv_tasks = ts @ [Handshaking]\<rparr>
      (Authenticating n (fs n) (nonce n) (ms n) k)
      = \<lparr>sv_listener = l, sv_tasks = ts @ [Handling u (conn_start cfg k1)]\<rparr>"
    by (simp add: server_step_def handle_starts_def put_task_def task_of_last s(2) op assms(2))
  have 3: "server_step lib cfg \<lparr>sv_listener = l, sv_tasks = ts @ [Handling u (conn_start cfg k1)]\<rparr>
      (OnConnection n StreamAccepted) = \<lparr>sv_listener = l, sv_tasks = ts @ [Handling u c]\<rparr>"
    by (simp add: server_step_def handle_steps_def put_task_def task_of_last s(2) op c)
  have 4: "server_step lib cfg \<lparr>sv_listener = l, sv_tasks = ts @ [Handling u c]\<rparr> (OnConnection n (ControlReceived None))
      = \<lparr>sv_listener = listen_start cfg, sv_tasks = ts @ [Returned u d]\<rparr>"
    by (simp add: server_step_def handle_steps_def task_over_def task_of_last s(2) op c ended accepted_now_def Let_def)
  show ?thesis
    unfolding leave_channel_def foldl_Cons foldl_Nil 1 2 3 4
    using assms(1) by (simp add: s left_behind_def running_channels_def conns_def c)
qed

lemma leave_channel_rounds:
  assumes "\<forall>i. \<exists>u rest k1. authenticate lib cfg (fs i) (nonce i) (ms i) k = (Inr u, rest, k1)"
    and "0 < max_connections cfg" "0 < max_channels_per_connection cfg"
  shows "left_behind cfg n (server_run lib cfg (concat (map (leave_channel fs nonce ms k) [0..<n])))"
proof (induction n)
  case 0
  show ?case by (simp add: left_behind_def server_run_def server_start_def running_channels_def conns_def)
next
  case (Suc n)
  from assms(1) obtain u rest k1 where "authenticate lib cfg (fs n) (nonce n) (ms n) k = (Inr u, rest, k1)" by blast
  with leave_channel_round [where fs = fs and nonce = nonce and ms = ms] Suc assms(2,3)
  show ?case by (simp add: server_run_def)
qed

text \<open>
  C11: the limits do not bound what a server runs. \<open>handle\<close> returns, and its permit is free, when the client
  ends its control stream, but the channels of the connection run on: a client that logs in again and again, one
  connection at a time, has as many channels running at once as it likes, also on a server that serves a
  single connection with a single channel.
\<close>

theorem channels_outgrow_limits:
  assumes "\<forall>i::nat. \<exists>u rest k1. authenticate lib cfg fs (nonce i) (ms i) k = (Inr u, rest, k1)"
    and "0 < max_connections cfg" "0 < max_channels_per_connection cfg"
  shows "\<exists>evs. running_channels (conns (server_run lib cfg evs)) = n
    \<and> count_serving (sv_tasks (server_run lib cfg evs)) = 0"
  using leave_channel_rounds [where fs = "\<lambda>i. fs" and n = n, OF assms] by (auto simp: left_behind_def)

section \<open>Witnesses\<close>

definition demo_lone :: server_config where
  "demo_lone = demo_config\<lparr>max_connections := 1, max_channels_per_connection := 1\<rparr>"

lemma demo_lone_limits: "max_connections demo_lone = 1" "max_channels_per_connection demo_lone = 1"
  by (simp_all add: demo_lone_def)

lemma authenticate_config:
  "live_cert_fingerprint cfg = live_cert_fingerprint cfg' \<Longrightarrow>
     authenticate lib cfg fs nonce ms k = authenticate lib cfg' fs nonce ms k"
  unfolding authenticate_def challenge_user_def check_response_def by (erule ssubst) (rule refl)

lemma demo_lone_authenticate:
  "authenticate (demo_auth {demo_challenge}) demo_lone demo_auth_fs demo_nonce
     [ClientHello 1 ''alice'', AuthResponse [1, 2] [9], KeepAlive 3] open_sink
   = (Inr ''alice'', [KeepAlive 3], open_sink\<lparr>sent := [AuthChallenge demo_nonce, AuthResult Success]\<rparr>)"
  by (rule trans [OF authenticate_config demo_authenticate]) (simp add: demo_lone_def)

theorem channels_outgrow_limits_witness:
  "\<exists>evs. running_channels (conns (server_run (demo_auth {demo_challenge}) demo_lone evs)) = 7
     \<and> max_connections demo_lone * max_channels_per_connection demo_lone = 1"
  using channels_outgrow_limits [of "demo_auth {demo_challenge}" demo_lone demo_auth_fs "\<lambda>_. demo_nonce"
      "\<lambda>_. [ClientHello 1 ''alice'', AuthResponse [1, 2] [9], KeepAlive 3]" open_sink 7]
    demo_lone_limits by (auto simp: demo_lone_authenticate)

end
