(* ===== verification/Child_Env.thy ===== *)
theory Child_Env
  imports Server_Session "HOL-Library.List_Lexorder" "HOL-Library.Char_ord" "HOL-Library.Multiset"
begin

text \<open>
  The environment of a session's child as the kernel hands it over: \<^verbatim>\<open>Command\<close> keeps the variables in a
  \<^verbatim>\<open>BTreeMap\<close> and passes one text \<open>name=value\<close> for each, in the order of the names. A name is not checked for
  an equals sign, by the library or by \<^verbatim>\<open>sqshd/src/channel/session.rs\<close>.
\<close>

section \<open>The block and its readers\<close>

text \<open>The inherited variables are a list with one entry for a name; so are the set ones, the last setting first.\<close>

definition env_table :: "(string \<times> string) list \<Rightarrow> child_command \<Rightarrow> (string \<times> string) list" where
  "env_table inherited cmd = sort_key fst (AList.clearjunk (rev (envs cmd) @ inherited))"

definition env_block :: "(string \<times> string) list \<Rightarrow> child_command \<Rightarrow> string list" where
  "env_block inherited cmd = map (\<lambda>(k, v). k @ ''='' @ v) (env_table inherited cmd)"

text \<open>
  \<^verbatim>\<open>getenv\<close> takes the first text that begins with the name and an equals sign. A shell goes through them all
  and a later one replaces an earlier one.
\<close>

fun getenv :: "string \<Rightarrow> string list \<Rightarrow> string option" where
  "getenv n [] = None"
| "getenv n (e # es) = (if starts_with (n @ ''='') e then Some (drop (Suc (length n)) e) else getenv n es)"

definition shell_variable :: "string \<Rightarrow> string list \<Rightarrow> string option" where
  "shell_variable n es = getenv n (rev es)"

section \<open>Lemmas\<close>

lemma env_table_map: "map_of (env_table inherited cmd) = child_env (map_of inherited) cmd"
proof -
  let ?al = "AList.clearjunk (rev (envs cmd) @ inherited)"
  have "mset (map fst (sort_key fst ?al)) = mset (map fst ?al)" unfolding mset_map mset_sort ..
  then have "distinct (map fst (sort_key fst ?al))" by (metis distinct_clearjunk mset_eq_imp_distinct_iff)
  then have "map_of (sort_key fst ?al) = map_of ?al" by (intro map_of_inject_set [THEN iffD2]) simp_all
  then show ?thesis by (simp add: env_table_def map_of_clearjunk child_env_def)
qed

lemma env_table_sorted: "sorted (map fst (env_table inherited cmd))"
  by (simp add: env_table_def)

lemma assignment_name:
  "n @ CHR ''='' # r = k @ CHR ''='' # w \<Longrightarrow> CHR ''='' \<notin> set n \<Longrightarrow> k = n \<and> w = r \<or> n < k"
proof (induction n arbitrary: k)
  case Nil
  then show ?case by (cases k) auto
next
  case (Cons c n)
  then show ?case by (cases k) auto
qed

lemma getenv_sorted:
  "sorted (map fst kvs) \<Longrightarrow> map_of kvs n = Some v \<Longrightarrow> CHR ''='' \<notin> set n \<Longrightarrow>
     getenv n (map (\<lambda>(k, v). k @ ''='' @ v) kvs) = Some v"
proof (induction kvs)
  case (Cons kv kvs)
  obtain k w where kv: "kv = (k, w)" by (cases kv) auto
  show ?case
  proof (cases "k = n")
    case True
    with Cons kv show ?thesis by (simp add: starts_with_iff)
  next
    case False
    with Cons.prems kv have "n \<in> set (map fst kvs)" by (force dest: map_of_SomeD)
    with Cons.prems(1) kv have "k \<le> n" by auto
    then have "\<not> starts_with (n @ ''='') (k @ ''='' @ w)"
      using assignment_name [of n _ k w] Cons.prems(3) False by (auto simp: starts_with_iff)
    with Cons False kv show ?thesis by simp
  qed
qed simp

lemma identity_names_plain: "(n, v) \<in> set (identity_env u) \<Longrightarrow> CHR ''='' \<notin> set n"
  by (auto simp: identity_env_def)

section \<open>Properties\<close>

text \<open>
  The first occurrence is the identity's: whatever variables a client has set, a program that looks its
  user, home, shell or path up finds what the server fixed, since the names that would shadow them come later.
\<close>

lemma identity_variables_found_first:
  assumes "session_handle lib cfg fs os sch name ms k = (e, Some cmd, k')"
  shows "\<exists>u. from_name lib name = Inr (Some u)
    \<and> (\<forall>(n, v) \<in> set (identity_env u). getenv n (env_block inherited cmd) = Some v)"
proof -
  obtain u env base trm tty where u: "from_name lib name = Inr (Some u)"
      "configure_child (os_euid os) base u env trm tty = Inr cmd"
    using session_child [OF assms] by metis
  have "getenv n (env_block inherited cmd) = Some v" if "(n, v) \<in> set (identity_env u)" for n v
    unfolding env_block_def
    by (rule getenv_sorted [OF env_table_sorted])
      (use that child_env_identity [OF u(2)] in \<open>auto simp: env_table_map dest: identity_names_plain\<close>)
  with u(1) show ?thesis by blast
qed

text \<open>
  A shell need not find them. Where the policy accepts every name, a client's variable whose name begins with
  \<^verbatim>\<open>PATH=\<close> is a second setting of the path, after the server's own: the child has two, and a shell takes the last.
\<close>

definition demo_shadow :: child_command where
  "demo_shadow = demo_child\<lparr>envs := [(''PATH=/tmp/x:'', [])] @ identity_env demo_alice\<rparr>"

lemma shell_takes_client_path:
  "configure_child 0 (child_command_line demo_alice (Some ''id'')) demo_alice [(''PATH=/tmp/x:'', [])] None True
     = Inr demo_shadow
   \<and> env_accepted (demo_config\<lparr>accept_env := [''*'']\<rparr>) ''PATH=/tmp/x:''
   \<and> nul_free demo_shadow
   \<and> getenv ''PATH'' (env_block [] demo_shadow) = Some ''/usr/local/bin:/usr/bin:/bin''
   \<and> shell_variable ''PATH'' (env_block [] demo_shadow) = Some ''/tmp/x:=''"
proof -
  have b: "env_block [] demo_shadow = [''HOME='' @ show_path (u_dir demo_alice), ''LOGNAME=alice'',
      ''PATH=/usr/local/bin:/usr/bin:/bin'', ''PATH=/tmp/x:='', ''SHELL='' @ show_path (u_shell demo_alice),
      ''USER=alice'']"
    by (simp add: env_block_def env_table_def demo_shadow_def identity_env_def demo_alice_def)
  have c: "configure_child 0 (child_command_line demo_alice (Some ''id'')) demo_alice [(''PATH=/tmp/x:'', [])] None True
     = Inr demo_shadow"
    by (simp add: configure_child_def child_command_line_def command_new_def demo_alice_def
        demo_child_def demo_shadow_def Let_def)
  have n: "nul_free demo_shadow"
    by (simp add: demo_child_def demo_shadow_def nul_free_def command_strings_def command_new_def
        identity_env_def show_path_def demo_alice_def)
  have a: "env_accepted (demo_config\<lparr>accept_env := [''*'']\<rparr>) ''PATH=/tmp/x:''"
    by (simp add: env_accepted_def strip_suffix_def starts_with_def)
  show ?thesis
    using a c n by (simp add: b shell_variable_def) (simp add: starts_with_def show_path_def demo_alice_def)
qed

end
