(* ===== verification/Spec2Isabelle.thy ===== *)
theory Spec2Isabelle
  imports Histories Migration Copy_Roundtrip Select_Recv Server_Process Child_Env
begin

text \<open>
  \<^bold>\<open>squish: a remote shell over QUIC\<close>

  The repository has three crates under \<^verbatim>\<open>src/crates\<close>: \<^verbatim>\<open>sqsh-core\<close> (messages, framing, key
  formats), \<^verbatim>\<open>sqshd\<close> (the server) and \<^verbatim>\<open>sqsh\<close> (the client and its tools). A client connects, checks the
  server's certificate against its known hosts, and proves who it is on the control stream with a
  signature over a challenge. Afterwards every channel (a session, a forwarded connection) is a
  stream of its own, while the control stream carries keep-alives and requests for remote forwards.
  Clients of one server can share a connection that a master process keeps; a server is installed
  over ssh by \<^verbatim>\<open>sqsh-bootstrap\<close>.

  \<^bold>\<open>Theories.\<close> Each theory models the files its first text block names; definitions keep the names of
  the source, with a prefix where two files use the same one.

  \<^item> \<^verbatim>\<open>Prelude\<close>: machine integers and their bytes, results, the sending half of a stream, and the
    locales of event loops: \<open>event_loop\<close> (a step function that keeps an invariant) and \<open>ordered_relay\<close>
    (while the loop runs, what it put out is what came in, in order).
  \<^item> \<^verbatim>\<open>Rust_Str\<close>: the operations of Rust's \<open>str\<close> that the sources use, on UTF-8 bytes.
  \<^item> \<^verbatim>\<open>Proto\<close>, \<^verbatim>\<open>Codec\<close>, \<^verbatim>\<open>Framing\<close>, \<^verbatim>\<open>Core_Auth\<close> (\<^verbatim>\<open>sqsh-core\<close>): the messages, the frames, the framed
    halves of a stream (and why the other theories may use lists of messages for them), the signed
    challenge and the authorized-keys format. \<^verbatim>\<open>Select_Recv\<close>: a receive as a branch of a loop, byte by byte.
  \<^item> \<^verbatim>\<open>Files\<close>: a file system with owners, modes, faults of single operations and a disk that may fill up.
  \<^item> \<^verbatim>\<open>Key_Files\<close> (\<^verbatim>\<open>sqsh/src/auth.rs\<close>, \<^verbatim>\<open>bootstrap/keys.rs\<close>, \<^verbatim>\<open>bin/sqsh-keygen.rs\<close>, \<^verbatim>\<open>sqshd/src/keys.rs\<close>): the
    client's and the server's identity on disk, with the locales of a store for secrets.
  \<^item> \<^verbatim>\<open>Known_Hosts\<close> (\<^verbatim>\<open>sqsh/src/known_hosts.rs\<close>): trust on first use, with the locale of a pin store.
  \<^item> \<^verbatim>\<open>Server_Config\<close>, \<^verbatim>\<open>Server_Auth\<close>, \<^verbatim>\<open>Server_Connection\<close> (\<^verbatim>\<open>sqshd/src/config.rs\<close>, \<^verbatim>\<open>connection.rs\<close>): the
    configuration and the forwarding policy, authentication, the connection's select loop and the
    dispatch of channels.
  \<^item> \<^verbatim>\<open>Server_Session\<close> (\<^verbatim>\<open>sqshd/src/channel/session.rs\<close>): the requests of a session, the set-up of its
    child, and the pumps of a terminal and of a subsystem.
  \<^item> \<^verbatim>\<open>Forwarding\<close> (\<^verbatim>\<open>channel/forward.rs\<close> of both crates): the relays, the accept loops, and the
    opening of forwarded connections in both directions.
  \<^item> \<^verbatim>\<open>Client_Config\<close> (\<^verbatim>\<open>sqsh/src/config.rs\<close>, \<^verbatim>\<open>target.rs\<close>): arguments, the ssh configuration file, and
    what they resolve to.
  \<^item> \<^verbatim>\<open>Client_Connection\<close> (\<^verbatim>\<open>sqsh/src/connection.rs\<close>): the certificate, authentication, establishing a
    connection, requesting remote forwards.
  \<^item> \<^verbatim>\<open>Client_Session\<close> (\<^verbatim>\<open>sqsh/src/channel/session.rs\<close>): a session as the user sees it.
  \<^item> \<^verbatim>\<open>Shared_Session\<close>, \<^verbatim>\<open>Control_Master\<close>, \<^verbatim>\<open>Control_Socket\<close> (\<^verbatim>\<open>sqsh/src/control.rs\<close>): a session through a master,
    from both sides of its socket; the master's loop, its clients and their forwards, and the wait for
    a master to come up; the socket files and the start of a master in the background.
  \<^item> \<^verbatim>\<open>Release\<close> (\<^verbatim>\<open>sqsh/src/bootstrap/mod.rs\<close>, \<^verbatim>\<open>detect.rs\<close>): downloading, verifying and unpacking a release.
  \<^item> \<^verbatim>\<open>Bootstrap\<close> (the rest of \<^verbatim>\<open>bootstrap\<close> and \<^verbatim>\<open>bin/sqsh-bootstrap.rs\<close>): the commands run over ssh, with a log
    of the processes and the locale of its properties.
  \<^item> \<^verbatim>\<open>Client_Main\<close> (\<^verbatim>\<open>sqsh/src/connection.rs\<close>): the client as a process, put together from the components: the way it
    takes, the tasks it starts, the session, and the second attempt after its key was installed.
  \<^item> \<^verbatim>\<open>Server_Listener\<close> (\<^verbatim>\<open>sqshd/src/listener.rs\<close>, \<^verbatim>\<open>main.rs\<close>): start-up and the accept loop.
  \<^item> \<^verbatim>\<open>Server_Process\<close>: the accept loop composed with the connections it serves, each a run of \<^verbatim>\<open>Server_Connection\<close>;
    \<^verbatim>\<open>Child_Env\<close>: the block of variables that a session's child is started with.
  \<^item> \<^verbatim>\<open>Migration\<close> (\<^verbatim>\<open>sqsh/src/migration.rs\<close>): which addresses the client's endpoint moves to.
  \<^item> \<^verbatim>\<open>Sftp\<close> (\<^verbatim>\<open>sqsh/src/sftp.rs\<close>): the channel of the subsystem and the tasks that bridge it to the library.
  \<^item> \<^verbatim>\<open>File_Copy\<close> (\<^verbatim>\<open>sqsh/src/bin/sqcp.rs\<close>): copying files and trees in both directions, with the locale of
    relations that parts of a transfer keep; \<^verbatim>\<open>Tree_Copy\<close> and \<^verbatim>\<open>Tree_Upload\<close>: what a download and an upload make of a tree; \<^verbatim>\<open>Copy_Roundtrip\<close>: one
    after the other, on one server; \<^verbatim>\<open>Sftp_Shell\<close>
    (\<^verbatim>\<open>bin/sqftp.rs\<close>): the interactive client.
  \<^item> \<^verbatim>\<open>Programs\<close> (\<^verbatim>\<open>sqsh/src/main.rs\<close> and the \<^verbatim>\<open>main\<close> functions of \<^verbatim>\<open>bin\<close>): the programs from their command lines
    on, and the connection that the file tools share.
  \<^item> \<^verbatim>\<open>File_Effects\<close>: the locale of a relation between two states of the files that every single file operation
    keeps, and with it every function of the programs that changes files; \<^verbatim>\<open>Histories\<close>: the histories of runs of
    all programs on one machine (of \<^verbatim>\<open>sqftp\<close>, its commands), with what anything else does in between.
\<close>

text \<open>
  \<^bold>\<open>How state and operations correspond to the code.\<close>

  \<^item> An asynchronous function that sends and receives on a stream takes the messages still to come as a
    list and the sending half as a \<open>sink\<close>, and returns both as it leaves them. The end of the list is the
    error every later receive reports. A sink with \<open>room = Some n\<close> fails after \<open>n\<close> more messages, so every
    \<open>send(..).await?\<close> has its error path; \<open>send_quietly\<close> is a send whose result the code drops.
  \<^item> A \<open>select!\<close> loop is a step function over the events its branches wait for, folded over a list of
    events: properties over all lists cover every order in which the branches can win. Its status says
    whether it runs, was left (\<open>break\<close>) or returned. A frame that arrives is one event there; what that
    leaves out, a receive that another branch cuts off in the middle of a frame, is the subject of \<^verbatim>\<open>Select_Recv\<close>.
  \<^item> A spawned task is an entry of the state (a channel, a listener) that ends with an event of its own.
  \<^item> Integers have their width (\<open>u16\<close>, \<open>u32\<close>, \<open>u64\<close>). \<open>usize\<close> limits and lengths are \<open>nat\<close>: they are only
    compared, never added up to a bound.
  \<^item> A Rust string is the list of its UTF-8 bytes. Errors are values: \<open>Inl\<close> of a datatype that has a
    constructor for every way the function fails.
  \<^item> A process that is started (ssh, scp, curl, tar) is an entry of a log; what it reports is a function of
    the processes before it, so that a property over all functions covers every behaviour of the other
    end.
  \<^item> The loops consume a list of messages, events, attempts or characters, and the wait for a master
    counts up to its deadline, with a measure. Only transfers need fuel, since a server can make up
    files and trees without end: it counts the directories and the reads of a file (an upload's the
    directories), a transfer that has used it up is reported as running (\<open>None\<close>) with the state it has
    reached, what is proved of its safety holds for every fuel, and \<open>download_copies_tree\<close> and
    \<open>upload_copies_tree\<close> say how much is enough. A loop whose events end while it runs is reported as such
    (\<open>None\<close>, \<open>SessionPending\<close>, \<open>ForwardPending\<close>), never as a result.

  \<^bold>\<open>Parameters.\<close> Code that is not in the repository is an argument of the definitions that use it: the
  postcard encoding (\<open>ser\<close>, \<open>de\<close>), SHA-2, ML-DSA key generation, signing and verification, base64, the PEM
  and TOML parsers, the user database, name resolution, and the iteration order of a hash map. What a
  property needs of them is a named hypothesis: \<open>base64_laws\<close> (decoding inverts encoding), \<open>pem_laws\<close> (a
  generated identity parses back), \<open>signature_laws\<close> (both sides use one hash, and what was signed
  verifies), \<open>server_keeps\<close> (an SFTP server has files and does with them what it is asked),
  \<open>server_serves\<close> (it lists and reads what it has), \<open>unforgeable\<close> (the authorized keys verify only what their holders signed), \<open>compact_hello\<close>
  (an encoded hello is longer than its user name), \<open>clap_laws\<close> (the options of a command line without a
  value that looks like an option are read as given) and \<open>a_permutation\<close> (an iteration visits each entry once).

  \<^bold>\<open>What the lemmas show.\<close>

  \<^item> Authentication: soundness (\<open>authenticate_sound\<close>), binding to the session, agreement of the two
    halves for an enrolled client, no panic, and no difference between unknown and unauthorized users.
    Against the network, the pinned certificate is refused when it changed; but the client accepts any
    signature of the handshake, and \<open>relay_attack_succeeds\<close> spells out what that allows.
  \<^item> Confinement: the child of a session runs as its user with that user's environment; forwards obey
    the allowlists; a connection keeps its limits in every reachable state (\<open>conn_inv\<close>).
    The server keeps its limits for the connections it serves (\<open>server_inv\<close>); what runs on after a connection
    was given up is not bounded (\<open>channels_outgrow_limits\<close>).
  \<^item> Receiving: a loop receives what was sent (\<open>select_receives_in_order\<close>) unless a branch cuts a receive off
    within a frame, when data can become messages (\<open>cut_off_receive_forges_message\<close>).
  \<^item> Data: each pump is interpreted as an \<open>ordered_relay\<close>, so the bytes that come out are the bytes that
    went in; two relays compose end to end. At the end of a session a subsystem's output is drained, a
    terminal's is not, and the exit status is not seen by the client.
  \<^item> Files: a secret is never readable by others, is never overwritten, and is loaded back; pins persist;
    the server's identity survives a restart. Over whole histories of the programs the tree of files stays
    typed and a key stays as it is; a run of the client touches no file but its own.
  \<^item> Formats: frames, key files, configuration words, targets and forwards are read back as written; host
    patterns match as their inductive meaning says.

  \<^item> Sharing: a session through a master shows the same bytes and the same result as a direct one; a
    master serves as long as it has clients and ends after them; a started master is for the same server.
    Forwards are where sharing goes wrong: one that is repeated stops working for both.
  \<^item> Installation: what becomes root's binary was signed, in the very bytes that were checked; quoting
    survives the remote shell; the fingerprint that is pinned is the one clients then insist on.
  \<^item> File transfer: the bridge gives and takes exactly the bytes of the channel; a download copies a tree
    exactly and, if the server's names are plain, stays at its destination; an upload copies a tree exactly
    to a server that keeps files; what was uploaded is downloaded again; names with slashes escape it.
  \<^item> The main properties are the numbered theorems; the lemmas among them show more of each component,
    with an instance where they have hypotheses.

  \<^bold>\<open>Not modelled.\<close> TLS, QUIC, timers, log output and the declarations of command lines are outside the
  model, as are the variants of the functions on permissions for systems without them, the guards that restore the
  terminal's mode, symbolic links and paths that climb (dot-dot is a name like another to the file system
  of \<^verbatim>\<open>Files\<close>), and directory listings that never end.
\<close>

end
